(* ===== verification/Prelude.thy ===== *)
theory Prelude
  imports Main "HOL-Library.Word"
begin

unbundle bit_operations_syntax

text \<open>
  Shared vocabulary of the development: Go's byte slices, strings and fixed-width integers, the
  string helpers of package \<open>strings\<close>, the big-endian codecs of \<open>encoding/binary\<close>, and the two
  interfaces that encoders are proved against (a prefix code and a fixed-width code).  A Go
  \<open>string\<close> is a sequence of bytes, which is what Isabelle's \<^typ>\<open>string\<close> is; a \<open>[]byte\<close> is a list
  of 8-bit words; an \<open>int64\<close> is a 64-bit word read with \<^const>\<open>sint\<close>.
\<close>

named_theorems codec_simps \<open>round trips and lengths of the byte encoders\<close>
named_theorems guard_simps \<open>case splits shared by the validators\<close>

type_synonym byte = "8 word"
type_synonym bytes = "8 word list"
type_synonym int64 = "64 word"
type_synonym uint64 = "64 word"
type_synonym uint32 = "32 word"

section \<open>Strings and byte slices\<close>

definition str_bytes :: "string \<Rightarrow> bytes" where
  "str_bytes s = map of_char s"

definition bytes_str :: "bytes \<Rightarrow> string" where
  "bytes_str bs = map (\<lambda>b. char_of (unat b)) bs"

lemma unat_of_char [simp]: "unat (of_char c :: byte) = of_char c"
proof -
  have "of_char c mod 256 = (of_char c :: nat)"
    by (metis of_char_of char_of_char)
  moreover have "(of_char c :: byte) = word_of_nat (of_char c)"
    by (cases c) (simp add: of_char_def)
  ultimately show ?thesis
    by (simp add: unat_of_nat)
qed

lemma of_char_char_of_unat [simp]: "(of_char (char_of (unat b) :: char) :: byte) = b"
proof (rule word_unat_eq_iff [THEN iffD2])
  have "unat b < 256" using unsigned_less [of b] by simp
  then show "unat (of_char (char_of (unat b) :: char) :: byte) = unat b"
    by simp
qed

lemma bytes_str_str_bytes [simp, codec_simps]: "bytes_str (str_bytes s) = s"
  by (induction s) (simp_all add: bytes_str_def str_bytes_def)

lemma str_bytes_bytes_str [simp, codec_simps]: "str_bytes (bytes_str bs) = bs"
  by (induction bs) (simp_all add: bytes_str_def str_bytes_def)

lemma length_str_bytes [simp]: "length (str_bytes s) = length s"
  by (simp add: str_bytes_def)

lemma length_bytes_str [simp]: "length (bytes_str bs) = length bs"
  by (simp add: bytes_str_def)

lemma str_bytes_inject [simp]: "str_bytes s = str_bytes t \<longleftrightarrow> s = t"
  by (metis bytes_str_str_bytes)

subsection \<open>Package strings\<close>

definition HasPrefix :: "string \<Rightarrow> string \<Rightarrow> bool" where
  "HasPrefix s p = (length p \<le> length s \<and> take (length p) s = p)"

definition TrimPrefix :: "string \<Rightarrow> string \<Rightarrow> string" where
  "TrimPrefix s p = (if HasPrefix s p then drop (length p) s else s)"

lemma HasPrefix_append [simp]: "HasPrefix (p @ s) p"
  by (simp add: HasPrefix_def)

lemma TrimPrefix_append [simp]: "TrimPrefix (p @ s) p = s"
  by (simp add: TrimPrefix_def)

lemma HasPrefix_iff: "HasPrefix s p \<longleftrightarrow> (\<exists>t. s = p @ t)"
  by (auto simp: HasPrefix_def) (metis append_take_drop_id)

text \<open>\<open>strings.IndexByte\<close> and \<open>strings.LastIndexByte\<close>; \<open>None\<close> is Go's \<open>-1\<close>.\<close>

fun index_byte :: "string \<Rightarrow> char \<Rightarrow> nat option" where
  "index_byte [] c = None"
| "index_byte (x # xs) c = (if x = c then Some 0 else map_option Suc (index_byte xs c))"

fun last_index_byte :: "string \<Rightarrow> char \<Rightarrow> nat option" where
  "last_index_byte [] c = None"
| "last_index_byte (x # xs) c =
     (case last_index_byte xs c of
        Some i \<Rightarrow> Some (Suc i)
      | None \<Rightarrow> (if x = c then Some 0 else None))"

lemma index_byte_None [simp]: "index_byte s c = None \<longleftrightarrow> c \<notin> set s"
  by (induction s) auto

lemma last_index_byte_None [simp]: "last_index_byte s c = None \<longleftrightarrow> c \<notin> set s"
  by (induction s) (auto split: option.splits)

lemma index_byte_append [simp]:
  "c \<notin> set s \<Longrightarrow> index_byte (s @ c # t) c = Some (length s)"
  by (induction s) auto

lemma last_index_byte_append [simp]:
  "c \<notin> set t \<Longrightarrow> last_index_byte (s @ c # t) c = Some (length s)"
  by (induction s) (auto split: option.splits)

lemma last_index_byte_Some:
  "last_index_byte s c = Some i \<Longrightarrow> s = take i s @ c # drop (Suc i) s \<and> c \<notin> set (drop (Suc i) s)"
proof (induction s arbitrary: i)
  case (Cons x xs)
  then show ?case
    by (cases "last_index_byte xs c") (auto split: if_splits)
qed simp

lemma index_byte_Some:
  "index_byte s c = Some i \<Longrightarrow> s = take i s @ c # drop (Suc i) s \<and> c \<notin> set (take i s)"
proof (induction s arbitrary: i)
  case (Cons x xs)
  then show ?case by (auto split: if_splits)
qed simp

section \<open>Encoders as prefix codes\<close>

text \<open>
  An encoder whose output can be cut off unambiguously from whatever follows it.  The predicate
  \<open>ok\<close> is the domain on which the code is unambiguous (for a length-prefixed field: what the
  32-bit length can express).
\<close>

locale prefix_code =
  fixes ok :: "'a \<Rightarrow> bool"
    and enc :: "'a \<Rightarrow> bytes"
  assumes enc_cancel: "ok x \<Longrightarrow> ok y \<Longrightarrow> enc x @ r = enc y @ s \<Longrightarrow> x = y \<and> r = s"
begin

lemma enc_inj: "ok x \<Longrightarrow> ok y \<Longrightarrow> enc x = enc y \<Longrightarrow> x = y"
  using enc_cancel [of x y "[]" "[]"] by simp

lemma enc_append_iff: "ok x \<Longrightarrow> ok y \<Longrightarrow> enc x @ r = enc y @ s \<longleftrightarrow> x = y \<and> r = s"
  using enc_cancel [of x y r s] by auto

lemma concat_enc_cancel:
  "\<lbrakk>length xs = length ys; list_all ok xs; list_all ok ys;
    concat (map enc xs) @ r = concat (map enc ys) @ s\<rbrakk> \<Longrightarrow> xs = ys \<and> r = s"
proof (induction xs ys rule: list_induct2)
  case (Cons x xs y ys)
  from Cons.prems have
    "enc x @ (concat (map enc xs) @ r) = enc y @ (concat (map enc ys) @ s)" by simp
  with Cons.prems have "x = y \<and> concat (map enc xs) @ r = concat (map enc ys) @ s"
    by (intro enc_cancel) simp_all
  with Cons show ?case by simp
qed simp

end

text \<open>A code of constant width that is injective is a prefix code on its whole type.\<close>

locale fixed_width_code =
  fixes width :: nat
    and enc :: "'a \<Rightarrow> bytes"
  assumes enc_width: "length (enc x) = width"
    and enc_inject: "enc x = enc y \<Longrightarrow> x = y"

sublocale fixed_width_code \<subseteq> prefix_code "\<lambda>_. True" enc
proof
  fix x y r s
  assume eq: "enc x @ r = enc y @ s"
  then have "enc x = enc y \<and> r = s"
    using enc_width [of x] enc_width [of y] by (simp add: append_eq_append_conv)
  then show "x = y \<and> r = s" using enc_inject by blast
qed

section \<open>Package encoding/binary, big endian\<close>

definition PutUint32 :: "uint32 \<Rightarrow> bytes" where
  "PutUint32 v = [ucast (drop_bit 24 v), ucast (drop_bit 16 v), ucast (drop_bit 8 v), ucast v]"

fun Uint32 :: "bytes \<Rightarrow> uint32" where
  "Uint32 [b0, b1, b2, b3] =
     (ucast b3 OR push_bit 8 (ucast b2) OR push_bit 16 (ucast b1) OR push_bit 24 (ucast b0))"
| "Uint32 _ = 0"

definition PutUint64 :: "uint64 \<Rightarrow> bytes" where
  "PutUint64 v =
     [ucast (drop_bit 56 v), ucast (drop_bit 48 v), ucast (drop_bit 40 v), ucast (drop_bit 32 v),
      ucast (drop_bit 24 v), ucast (drop_bit 16 v), ucast (drop_bit 8 v), ucast v]"

fun Uint64 :: "bytes \<Rightarrow> uint64" where
  "Uint64 [b0, b1, b2, b3, b4, b5, b6, b7] =
     (ucast b7 OR push_bit 8 (ucast b6) OR push_bit 16 (ucast b5) OR push_bit 24 (ucast b4) OR
      push_bit 32 (ucast b3) OR push_bit 40 (ucast b2) OR push_bit 48 (ucast b1) OR
      push_bit 56 (ucast b0))"
| "Uint64 _ = 0"

lemma length_PutUint32 [simp, codec_simps]: "length (PutUint32 v) = 4"
  by (simp add: PutUint32_def)

lemma length_PutUint64 [simp, codec_simps]: "length (PutUint64 v) = 8"
  by (simp add: PutUint64_def)

lemma bit_byte_slice:
  fixes v :: "'a::len word"
  shows "bit (push_bit k (ucast (ucast (drop_bit k v) :: byte)) :: 'a word) n \<longleftrightarrow>
     k \<le> n \<and> n < k + 8 \<and> bit v n"
  using bit_imp_le_length [of v n] by (auto simp: bit_simps)

lemma bit_byte_low:
  fixes v :: "'a::len word"
  shows "bit (ucast (ucast v :: byte) :: 'a word) n \<longleftrightarrow> n < 8 \<and> bit v n"
  using bit_imp_le_length [of v n] by (auto simp: bit_simps)

lemma Uint32_PutUint32 [simp, codec_simps]: "Uint32 (PutUint32 v) = v"
proof (rule bit_word_eqI)
  fix n assume "n < LENGTH(32)"
  then show "bit (Uint32 (PutUint32 v)) n = bit v n"
    by (simp only: PutUint32_def Uint32.simps bit_or_iff bit_byte_slice bit_byte_low) auto
qed

lemma Uint64_PutUint64 [simp, codec_simps]: "Uint64 (PutUint64 v) = v"
proof (rule bit_word_eqI)
  fix n assume "n < LENGTH(64)"
  then show "bit (Uint64 (PutUint64 v)) n = bit v n"
    by (simp only: PutUint64_def Uint64.simps bit_or_iff bit_byte_slice bit_byte_low) auto
qed

interpretation u32: fixed_width_code 4 PutUint32
  by unfold_locales (simp, metis Uint32_PutUint32)

interpretation u64: fixed_width_code 8 PutUint64
  by unfold_locales (simp, metis Uint64_PutUint64)

text \<open>The conversion \<open>uint32(len(x))\<close> keeps a length below \<open>2 ^ 32\<close>.\<close>

lemma unat_of_nat_uint32 [simp]: "n < 2 ^ 32 \<Longrightarrow> unat (word_of_nat n :: uint32) = n"
  by (simp add: unat_of_nat)

lemma word_of_nat_uint32_inject:
  "m < 2 ^ 32 \<Longrightarrow> n < 2 ^ 32 \<Longrightarrow> (word_of_nat m :: uint32) = word_of_nat n \<longleftrightarrow> m = n"
  by (metis unat_of_nat_uint32)

end
