(* ===== verification/GoFS.thy ===== *)
theory GoFS
  imports Prelude
begin

text \<open>
  Package \<open>os\<close>, as far as the program uses it: a file system is a map from paths to files (contents
  and permission bits) and directories, together with the paths on which the operating system
  refuses access.  \<open>WriteFile\<close> gives its permission bits only to a file it creates, as its
  documentation says; the bits are those before the umask.  A path stands for itself: links, and other
  spellings of a path such as \<open>./k\<close> for \<open>k\<close>, are not modelled, and a property that needs two paths to
  be two files asks for clean ones.
\<close>

definition mode_0600 :: nat where "mode_0600 = 6 * 64"
definition mode_0644 :: nat where "mode_0644 = 6 * 64 + 4 * 8 + 4"
definition mode_0755 :: nat where "mode_0755 = 7 * 64 + 5 * 8 + 5"

datatype node = File bytes nat | Dir

datatype os_error = ErrNotExist string | ErrPermission string | ErrIsDir string | ErrNotDir string

record fs =
  nodes :: "string \<rightharpoonup> node"
  denied :: "string \<Rightarrow> bool"

text \<open>The directory part of a path; the empty string is the working directory.\<close>

definition dirname :: "string \<Rightarrow> string" where
  "dirname p = (case last_index_byte p (CHR ''/'') of None \<Rightarrow> [] | Some i \<Rightarrow> take i p)"

definition is_dir :: "fs \<Rightarrow> string \<Rightarrow> bool" where
  "is_dir s p = (p = [] \<or> nodes s p = Some Dir)"

definition ReadFile :: "fs \<Rightarrow> string \<Rightarrow> os_error + bytes" where
  "ReadFile s p =
     (case nodes s p of
        None \<Rightarrow> Inl (ErrNotExist p)
      | Some Dir \<Rightarrow> Inl (ErrIsDir p)
      | Some (File d m) \<Rightarrow> (if denied s p then Inl (ErrPermission p) else Inr d))"

definition WriteFile :: "fs \<Rightarrow> string \<Rightarrow> bytes \<Rightarrow> nat \<Rightarrow> os_error + fs" where
  "WriteFile s p d perm =
     (if denied s p then Inl (ErrPermission p)
      else case nodes s p of
             Some Dir \<Rightarrow> Inl (ErrIsDir p)
           | Some (File _ m) \<Rightarrow> Inr (s\<lparr>nodes := (nodes s)(p \<mapsto> File d m)\<rparr>)
           | None \<Rightarrow> (if is_dir s (dirname p) then Inr (s\<lparr>nodes := (nodes s)(p \<mapsto> File d perm)\<rparr>)
                     else Inl (ErrNotExist p)))"

definition Chmod :: "fs \<Rightarrow> string \<Rightarrow> nat \<Rightarrow> os_error + fs" where
  "Chmod s p perm =
     (if denied s p then Inl (ErrPermission p)
      else case nodes s p of
             Some (File d _) \<Rightarrow> Inr (s\<lparr>nodes := (nodes s)(p \<mapsto> File d perm)\<rparr>)
           | Some Dir \<Rightarrow> Inr s
           | None \<Rightarrow> Inl (ErrNotExist p))"

definition mode_of :: "fs \<Rightarrow> string \<Rightarrow> nat option" where
  "mode_of s p = (case nodes s p of Some (File _ m) \<Rightarrow> Some m | _ \<Rightarrow> None)"

lemma WriteFile_result:
  assumes "WriteFile s p d perm = Inr s'"
  shows "ReadFile s' p = Inr d"
    and "mode_of s' p = Some (case mode_of s p of Some m \<Rightarrow> m | None \<Rightarrow> perm)"
    and "q \<noteq> p \<Longrightarrow> nodes s' q = nodes s q" and "denied s' = denied s"
  using assms
  by (auto simp: WriteFile_def ReadFile_def mode_of_def split: if_splits option.splits node.splits)

end
