(* ===== verification/GoEncoding.thy ===== *)
theory GoEncoding
  imports Prelude
begin

text \<open>
  The parts of Go's standard library that turn bytes and integers into text and back:
  \<open>encoding/hex\<close>, \<open>encoding/base64\<close> (standard and URL alphabets, padded and raw, non-strict, with
  the decoder's tolerance of line breaks) and the decimal conversions of \<open>strconv\<close>.  A decoder
  returns \<^const>\<open>None\<close> where the Go function returns an error.  Every encoder is an instance of
  \<open>text_codec\<close>, whose law is the round trip.
\<close>

section \<open>Encoders with a decoder\<close>

locale text_codec =
  fixes valid :: "'a \<Rightarrow> bool"
    and encode :: "'a \<Rightarrow> string"
    and decode :: "string \<Rightarrow> 'a option"
  assumes decode_encode: "valid x \<Longrightarrow> decode (encode x) = Some x"
begin

lemma encode_inj: "valid x \<Longrightarrow> valid y \<Longrightarrow> encode x = encode y \<Longrightarrow> x = y"
  by (metis decode_encode option.inject)

text \<open>A tagged encoding (\<open>"sha256:"\<close>, \<open>"ed25519:"\<close>, \<open>"mldsa:"\<close>) still decodes.\<close>

lemma decode_tagged: "valid x \<Longrightarrow> decode (TrimPrefix (tag @ encode x) tag) = Some x"
  by (simp add: decode_encode)

lemma tagged_inj: "valid x \<Longrightarrow> valid y \<Longrightarrow> tag @ encode x = tag @ encode y \<Longrightarrow> x = y"
  using encode_inj by simp

end

section \<open>Package encoding/hex\<close>

definition hextable :: string where
  "hextable = ''0123456789abcdef''"

definition hex_val :: "char \<Rightarrow> nat option" where
  "hex_val c =
     (let n = (of_char c :: nat) in
      if 48 \<le> n \<and> n \<le> 57 then Some (n - 48)
      else if 97 \<le> n \<and> n \<le> 102 then Some (n - 87)
      else if 65 \<le> n \<and> n \<le> 70 then Some (n - 55)
      else None)"

definition hex_byte :: "byte \<Rightarrow> string" where
  "hex_byte b = [hextable ! (unat b div 16), hextable ! (unat b mod 16)]"

definition hex_EncodeToString :: "bytes \<Rightarrow> string" where
  "hex_EncodeToString bs = concat (map hex_byte bs)"

fun hex_DecodeString :: "string \<Rightarrow> bytes option" where
  "hex_DecodeString [] = Some []"
| "hex_DecodeString [_] = None"
| "hex_DecodeString (a # b # s) =
     (case (hex_val a, hex_val b) of
        (Some h, Some l) \<Rightarrow> map_option (\<lambda>bs. word_of_nat (16 * h + l) # bs) (hex_DecodeString s)
      | _ \<Rightarrow> None)"

lemma hex_val_hextable: "n < 16 \<Longrightarrow> hex_val (hextable ! n) = Some n"
proof -
  assume "n < 16"
  moreover have "list_all (\<lambda>n. hex_val (hextable ! n) = Some n) [0..<16]" by code_simp
  ultimately show ?thesis by (simp add: list_all_iff)
qed

lemma unat_byte_less [simp]: "unat (b :: byte) < 256"
  using unsigned_less [of b] by simp

lemma hex_decode_encode [simp, codec_simps]: "hex_DecodeString (hex_EncodeToString bs) = Some bs"
proof (induction bs)
  case (Cons b bs)
  have "unat b div 16 < 16" using unat_byte_less [of b] by (simp add: less_mult_imp_div_less)
  moreover have "16 * (unat b div 16) + unat b mod 16 = unat b" by simp
  ultimately show ?case
    using Cons by (simp add: hex_EncodeToString_def hex_byte_def hex_val_hextable)
qed (simp add: hex_EncodeToString_def)

lemma length_hex_encode [simp, codec_simps]: "length (hex_EncodeToString bs) = 2 * length bs"
  by (induction bs) (simp_all add: hex_EncodeToString_def hex_byte_def)

lemma length_hex_decode: "hex_DecodeString s = Some bs \<Longrightarrow> length s = 2 * length bs"
  by (induction s arbitrary: bs rule: hex_DecodeString.induct) (auto split: option.splits)

interpretation hex: text_codec "\<lambda>_. True" hex_EncodeToString hex_DecodeString
  by unfold_locales simp

section \<open>Package encoding/base64\<close>

record b64_encoding =
  b64_alphabet :: string
  b64_padded :: bool

definition encodeStd :: string where
  "encodeStd = ''ABCDEFGHIJKLMNOPQRSTUVWXYZabcdefghijklmnopqrstuvwxyz0123456789+/''"

definition encodeURL :: string where
  "encodeURL = ''ABCDEFGHIJKLMNOPQRSTUVWXYZabcdefghijklmnopqrstuvwxyz0123456789-_''"

definition StdEncoding :: b64_encoding where
  "StdEncoding = \<lparr>b64_alphabet = encodeStd, b64_padded = True\<rparr>"

definition RawStdEncoding :: b64_encoding where
  "RawStdEncoding = \<lparr>b64_alphabet = encodeStd, b64_padded = False\<rparr>"

definition URLEncoding :: b64_encoding where
  "URLEncoding = \<lparr>b64_alphabet = encodeURL, b64_padded = True\<rparr>"

definition RawURLEncoding :: b64_encoding where
  "RawURLEncoding = \<lparr>b64_alphabet = encodeURL, b64_padded = False\<rparr>"

abbreviation b64_pad :: char where
  "b64_pad \<equiv> CHR ''=''"

definition b64_chr :: "b64_encoding \<Rightarrow> nat \<Rightarrow> char" where
  "b64_chr e n = b64_alphabet e ! n"

definition b64_sextet :: "b64_encoding \<Rightarrow> char \<Rightarrow> nat option" where
  "b64_sextet e c = index_byte (b64_alphabet e) c"

fun b64_EncodeToString :: "b64_encoding \<Rightarrow> bytes \<Rightarrow> string" where
  "b64_EncodeToString e [] = []"
| "b64_EncodeToString e [a] =
     (let v = unat a * 65536 in
      [b64_chr e (v div 262144), b64_chr e (v div 4096 mod 64)]
      @ (if b64_padded e then [b64_pad, b64_pad] else []))"
| "b64_EncodeToString e [a, b] =
     (let v = unat a * 65536 + unat b * 256 in
      [b64_chr e (v div 262144), b64_chr e (v div 4096 mod 64), b64_chr e (v div 64 mod 64)]
      @ (if b64_padded e then [b64_pad] else []))"
| "b64_EncodeToString e (a # b # c # r) =
     (let v = unat a * 65536 + unat b * 256 + unat c in
      [b64_chr e (v div 262144), b64_chr e (v div 4096 mod 64),
       b64_chr e (v div 64 mod 64), b64_chr e (v mod 64)] @ b64_EncodeToString e r)"

definition b64_val :: "nat \<Rightarrow> nat \<Rightarrow> nat \<Rightarrow> nat \<Rightarrow> nat" where
  "b64_val p q r s = p * 262144 + q * 4096 + r * 64 + s"

definition b64_out :: "nat \<Rightarrow> nat \<Rightarrow> bytes" where
  "b64_out n v =
     take n [word_of_nat (v div 65536), word_of_nat (v div 256 mod 256), word_of_nat (v mod 256)]"

text \<open>
  The decoder's loop over quanta, on input without line breaks: four characters give three bytes;
  a final quantum may be padded with \<open>=\<close> (padded encodings only) or be cut short (raw encodings
  only).
\<close>

fun b64_quanta :: "b64_encoding \<Rightarrow> string \<Rightarrow> bytes option" where
  "b64_quanta e [] = Some []"
| "b64_quanta e [_] = None"
| "b64_quanta e [a, b] =
     (case (b64_sextet e a, b64_sextet e b) of
        (Some p, Some q) \<Rightarrow> (if b64_padded e then None else Some (b64_out 1 (b64_val p q 0 0)))
      | _ \<Rightarrow> None)"
| "b64_quanta e [a, b, c] =
     (case (b64_sextet e a, b64_sextet e b, b64_sextet e c) of
        (Some p, Some q, Some r) \<Rightarrow>
          (if b64_padded e then None else Some (b64_out 2 (b64_val p q r 0)))
      | _ \<Rightarrow> None)"
| "b64_quanta e (a # b # c # d # rest) =
     (case (b64_sextet e a, b64_sextet e b) of
        (Some p, Some q) \<Rightarrow>
          (case b64_sextet e c of
             Some r \<Rightarrow>
               (case b64_sextet e d of
                  Some s \<Rightarrow> map_option (\<lambda>bs. b64_out 3 (b64_val p q r s) @ bs) (b64_quanta e rest)
                | None \<Rightarrow>
                    (if b64_padded e \<and> d = b64_pad \<and> rest = []
                     then Some (b64_out 2 (b64_val p q r 0)) else None))
           | None \<Rightarrow>
               (if b64_padded e \<and> c = b64_pad \<and> d = b64_pad \<and> rest = []
                then Some (b64_out 1 (b64_val p q 0 0)) else None))
      | _ \<Rightarrow> None)"

definition b64_DecodeString :: "b64_encoding \<Rightarrow> string \<Rightarrow> bytes option" where
  "b64_DecodeString e s =
     b64_quanta e (filter (\<lambda>c. c \<noteq> CHR 0x0A \<and> c \<noteq> CHR 0x0D) s)"

subsection \<open>Round trip\<close>

definition b64_wf :: "b64_encoding \<Rightarrow> bool" where
  "b64_wf e \<longleftrightarrow> distinct (b64_alphabet e) \<and> length (b64_alphabet e) = 64 \<and>
     b64_pad \<notin> set (b64_alphabet e) \<and> CHR 0x0A \<notin> set (b64_alphabet e) \<and>
     CHR 0x0D \<notin> set (b64_alphabet e)"

lemma b64_wf_encodings [simp]:
  "b64_wf StdEncoding" "b64_wf RawStdEncoding" "b64_wf URLEncoding" "b64_wf RawURLEncoding"
  by code_simp+

lemma index_byte_nth: "distinct s \<Longrightarrow> n < length s \<Longrightarrow> index_byte s (s ! n) = Some n"
proof (induction s arbitrary: n)
  case (Cons x xs)
  then show ?case by (cases n) auto
qed simp

lemma b64_sextet_chr: "b64_wf e \<Longrightarrow> n < 64 \<Longrightarrow> b64_sextet e (b64_chr e n) = Some n"
  by (simp add: b64_sextet_def b64_chr_def b64_wf_def index_byte_nth)

lemma b64_sextet_pad: "b64_wf e \<Longrightarrow> b64_sextet e b64_pad = None"
  by (simp add: b64_sextet_def b64_wf_def)

lemma b64_split:
  assumes "x < 256" and "y < 256" and "z < 256" and v: "v = x * 65536 + y * 256 + (z::nat)"
  shows "v div 262144 < 64" and "v div 65536 = x" and "v div 256 mod 256 = y" and "v mod 256 = z"
    and "b64_val (v div 262144) (v div 4096 mod 64) (v div 64 mod 64) (v mod 64) = v"
proof -
  have v': "v = z + (x * 256 + y) * 256" using v by simp
  have q: "v div 256 = x * 256 + y" unfolding v' using assms(3) by (subst div_mult_self1) simp_all
  show "v div 262144 < 64" using assms by (simp add: div_less_iff_less_mult)
  have "v div 65536 = v div 256 div 256" by (simp add: div_mult2_eq)
  then show "v div 65536 = x" using q assms(2) by simp
  show "v div 256 mod 256 = y" using q assms(2) by simp
  show "v mod 256 = z" unfolding v' using assms(3) by (subst mod_mult_self1) simp
  show "b64_val (v div 262144) (v div 4096 mod 64) (v div 64 mod 64) (v mod 64) = v"
  proof -
    have d: "v div 4096 = v div 64 div 64" "v div 262144 = v div 64 div 64 div 64"
      by (simp_all add: div_mult2_eq)
    show ?thesis
      unfolding b64_val_def d
      using div_mult_mod_eq [of v 64] div_mult_mod_eq [of "v div 64" 64]
        div_mult_mod_eq [of "v div 64 div 64" 64]
      by linarith
  qed
qed

lemma b64_out_val:
  assumes "v = unat (a::byte) * 65536 + unat (b::byte) * 256 + unat (c::byte)"
  shows "b64_out 3 v = [a, b, c]" and "b64_out 2 v = [a, b]" and "b64_out 1 v = [a]"
proof -
  note v = b64_split(2-4) [OF unat_byte_less unat_byte_less unat_byte_less assms]
  show "b64_out 3 v = [a, b, c]" "b64_out 2 v = [a, b]" "b64_out 1 v = [a]"
    by (simp_all add: b64_out_def v)
qed

lemma b64_val_short:
  "v = x * 65536 + y * 256 + (0::nat) \<Longrightarrow> v mod 64 = 0"
  "v = x * 65536 + 0 * 256 + (0::nat) \<Longrightarrow> v div 64 mod 64 = 0"
proof -
  show "v mod 64 = 0" if "v = x * 65536 + y * 256 + 0"
  proof -
    have "v = (x * 1024 + y * 4) * 64" using that by simp
    then show ?thesis by (simp only: mod_mult_self2_is_0)
  qed
  show "v div 64 mod 64 = 0" if "v = x * 65536 + 0 * 256 + 0"
  proof -
    have "v div 64 = (x * 16) * 64" using that by simp
    then show ?thesis by (simp only: mod_mult_self2_is_0)
  qed
qed

lemma b64_quanta_encode: "b64_wf e \<Longrightarrow> b64_quanta e (b64_EncodeToString e bs) = Some bs"
proof (induction e bs rule: b64_EncodeToString.induct)
  case (1 e)
  then show ?case by simp
next
  case (2 e a)
  define v where "v = unat a * 65536 + 0 * 256 + 0"
  have v: "unat a * 65536 = v" by (simp add: v_def)
  note sp = b64_split [OF unat_byte_less _ _ v_def]
  have out: "b64_out 1 v = [a]" using b64_out_val(3) [of v a 0 0] by (simp add: v_def)
  show ?case
    using 2 sp(1,5) out b64_val_short(1) [OF v_def] b64_val_short(2) [OF v_def]
    by (simp add: Let_def b64_sextet_chr b64_sextet_pad v)
next
  case (3 e a b)
  define v where "v = unat a * 65536 + unat b * 256 + 0"
  have v: "unat a * 65536 + unat b * 256 = v" by (simp add: v_def)
  note sp = b64_split [OF unat_byte_less unat_byte_less _ v_def]
  have out: "b64_out 2 v = [a, b]" using b64_out_val(2) [of v a b 0] by (simp add: v_def)
  show ?case
    using 3 sp(1,5) out b64_val_short(1) [OF v_def]
    by (simp add: Let_def b64_sextet_chr b64_sextet_pad v)
next
  case (4 e a b c r)
  define v where "v = unat a * 65536 + unat b * 256 + unat c"
  note sp = b64_split [OF unat_byte_less unat_byte_less unat_byte_less v_def]
  show ?case
    using 4 sp(1,5) b64_out_val(1) [OF v_def]
    by (simp add: Let_def b64_sextet_chr v_def [symmetric])
qed

lemma b64_chr_mem: "b64_wf e \<Longrightarrow> n < 64 \<Longrightarrow> b64_chr e n \<in> set (b64_alphabet e)"
  by (simp add: b64_chr_def b64_wf_def)

lemma set_b64_encode:
  "b64_wf e \<Longrightarrow> set (b64_EncodeToString e bs) \<subseteq> insert b64_pad (set (b64_alphabet e))"
proof (induction e bs rule: b64_EncodeToString.induct)
  case (2 e a)
  then show ?case
    using b64_split(1) [OF unat_byte_less [of a], of 0 0] by (auto simp: Let_def b64_chr_mem)
next
  case (3 e a b)
  then show ?case
    using b64_split(1) [OF unat_byte_less [of a] unat_byte_less [of b], of 0]
    by (auto simp: Let_def b64_chr_mem)
next
  case (4 e a b c r)
  then show ?case
    using b64_split(1) [OF unat_byte_less [of a] unat_byte_less [of b] unat_byte_less [of c] refl]
    by (auto simp: Let_def b64_chr_mem)
qed simp

lemma b64_decode_encode [codec_simps]:
  assumes "b64_wf e"
  shows "b64_DecodeString e (b64_EncodeToString e bs) = Some bs"
proof -
  have "filter (\<lambda>c. c \<noteq> CHR 0x0A \<and> c \<noteq> CHR 0x0D) (b64_EncodeToString e bs) = b64_EncodeToString e bs"
    using set_b64_encode [OF assms, of bs] assms by (intro filter_True) (auto simp: b64_wf_def)
  then show ?thesis
    using b64_quanta_encode [OF assms] by (simp add: b64_DecodeString_def)
qed

text \<open>Two alphabets that give every character they share the same value decode alike.\<close>

definition b64_agree :: "b64_encoding \<Rightarrow> b64_encoding \<Rightarrow> bool" where
  "b64_agree e e' \<longleftrightarrow>
     (\<forall>c \<in> set (b64_alphabet e). c \<in> set (b64_alphabet e') \<longrightarrow> b64_sextet e c = b64_sextet e' c)"

lemma b64_agreeD:
  "b64_agree e e' \<Longrightarrow> b64_sextet e c = Some m \<Longrightarrow> b64_sextet e' c = Some n \<Longrightarrow> m = n"
proof -
  assume a: "b64_agree e e'" "b64_sextet e c = Some m" "b64_sextet e' c = Some n"
  then have "c \<in> set (b64_alphabet e)" "c \<in> set (b64_alphabet e')"
    using index_byte_None [of "b64_alphabet e" c] index_byte_None [of "b64_alphabet e'" c]
    by (auto simp: b64_sextet_def)
  with a show ?thesis by (auto simp: b64_agree_def)
qed

lemma b64_quanta_agree:
  assumes "b64_quanta e s = Some x" and "b64_quanta e' s = Some y"
    and "b64_agree e e'" and "b64_wf e" and "b64_wf e'"
  shows "x = y"
  using assms
proof (induction e s arbitrary: x y rule: b64_quanta.induct)
  case (3 e a b)
  then show ?case by (auto split: option.splits if_splits dest: b64_agreeD)
next
  case (4 e a b c)
  then show ?case by (auto split: option.splits if_splits dest: b64_agreeD)
next
  case (5 e a b c d rest)
  have pad: "b64_sextet e b64_pad = None" "b64_sextet e' b64_pad = None"
    using 5 by (simp_all add: b64_sextet_pad)
  obtain p q where pq: "b64_sextet e a = Some p" "b64_sextet e b = Some q"
    using "5.prems"(1) by (auto split: option.splits)
  then have pq': "b64_sextet e' a = Some p" "b64_sextet e' b = Some q"
    using "5.prems"(2,3) by (auto split: option.splits dest: b64_agreeD)
  show ?case
  proof (cases "c = b64_pad \<or> d = b64_pad")
    case True
    show ?thesis
    proof (cases "c = b64_pad")
      case True
      then show ?thesis using "5.prems"(1,2) pq pq' pad by (simp split: if_splits)
    next
      case False
      with True have d: "d = b64_pad" by simp
      with False "5.prems"(1) pq pad obtain r where r: "b64_sextet e c = Some r"
        by (cases "b64_sextet e c") (simp_all split: if_splits)
      with False d "5.prems"(2,3) pq' pad have "b64_sextet e' c = Some r"
        using b64_agreeD [OF "5.prems"(3) r]
        by (cases "b64_sextet e' c") (simp_all split: if_splits)
      with r d "5.prems"(1,2) pq pq' pad show ?thesis by (simp split: if_splits)
    qed
  next
    case False
    with "5.prems"(1) pq obtain r s where rs: "b64_sextet e c = Some r" "b64_sextet e d = Some s"
      by (auto split: option.splits if_splits)
    with False "5.prems"(2,3) pq' have rs': "b64_sextet e' c = Some r" "b64_sextet e' d = Some s"
      by (auto split: option.splits if_splits dest: b64_agreeD)
    obtain x' y' where "b64_quanta e rest = Some x'" "x = b64_out 3 (b64_val p q r s) @ x'"
      "b64_quanta e' rest = Some y'" "y = b64_out 3 (b64_val p q r s) @ y'"
      using "5.prems"(1,2) pq pq' rs rs' by auto
    moreover from this have "x' = y'"
      using "5.IH" [OF refl pq rs _ _ "5.prems"(3-5)] by blast
    ultimately show ?thesis by simp
  qed
qed simp_all

interpretation b64_std: text_codec "\<lambda>_. True" "b64_EncodeToString StdEncoding" "b64_DecodeString StdEncoding"
  by unfold_locales (simp add: b64_decode_encode)

lemma b64_std_decode_encode [simp]:
  "b64_DecodeString StdEncoding (b64_EncodeToString StdEncoding bs) = Some bs"
  by (rule b64_std.decode_encode) simp

section \<open>Package strconv, decimal\<close>

definition digit_chr :: "nat \<Rightarrow> char" where
  "digit_chr n = ''0123456789'' ! n"

definition is_digit :: "char \<Rightarrow> bool" where
  "is_digit c = (48 \<le> (of_char c :: nat) \<and> (of_char c :: nat) \<le> 57)"

definition digit_val :: "char \<Rightarrow> nat" where
  "digit_val c = of_char c - 48"

fun show_nat :: "nat \<Rightarrow> string" where
  "show_nat n = (if n < 10 then [digit_chr n] else show_nat (n div 10) @ [digit_chr (n mod 10)])"

declare show_nat.simps [simp del]

definition dec_val :: "string \<Rightarrow> nat" where
  "dec_val s = foldl (\<lambda>v c. 10 * v + digit_val c) 0 s"

definition show_int :: "int \<Rightarrow> string" where
  "show_int i = (if i < 0 then CHR ''-'' # show_nat (nat (- i)) else show_nat (nat i))"

definition parse_uint :: "string \<Rightarrow> nat option" where
  "parse_uint l = (if l \<noteq> [] \<and> list_all is_digit l then Some (dec_val l) else None)"

definition parse_int :: "string \<Rightarrow> int option" where
  "parse_int l =
     (case l of
        c # r \<Rightarrow> (if c = CHR ''-'' then map_option (\<lambda>n. - int n) (parse_uint r)
                 else map_option int (parse_uint l))
      | [] \<Rightarrow> None)"

lemma digit_chr_facts:
  assumes "n < 10"
  shows "is_digit (digit_chr n)" and "digit_val (digit_chr n) = n"
    and "digit_chr n = CHR ''0'' \<longleftrightarrow> n = 0" and "digit_chr n \<noteq> CHR ''-''"
proof -
  have "list_all (\<lambda>n. is_digit (digit_chr n) \<and> digit_val (digit_chr n) = n \<and>
          (digit_chr n = CHR ''0'' \<longleftrightarrow> n = 0) \<and> digit_chr n \<noteq> CHR ''-'') [0..<10]"
    by code_simp
  then show "is_digit (digit_chr n)" "digit_val (digit_chr n) = n"
    "digit_chr n = CHR ''0'' \<longleftrightarrow> n = 0" "digit_chr n \<noteq> CHR ''-''"
    using assms by (simp_all add: list_all_iff)
qed

lemma show_nat_digits: "list_all is_digit (show_nat n)"
proof (induction n rule: show_nat.induct)
  case (1 n)
  then show ?case
    by (subst show_nat.simps) (simp add: digit_chr_facts)
qed

lemma dec_val_snoc: "dec_val (s @ [c]) = 10 * dec_val s + digit_val c"
  by (simp add: dec_val_def)

lemma dec_val_show_nat [simp, codec_simps]: "dec_val (show_nat n) = n"
proof (induction n rule: show_nat.induct)
  case (1 n)
  then show ?case
    by (subst show_nat.simps) (auto simp: dec_val_snoc digit_chr_facts, simp add: dec_val_def digit_chr_facts)
qed

lemma show_nat_nonempty [simp]: "show_nat n \<noteq> []"
  by (subst show_nat.simps) simp

text \<open>No leading zero: the first digit is \<open>0\<close> only for the number zero.\<close>

lemma hd_show_nat: "hd (show_nat n) = CHR ''0'' \<longleftrightarrow> n = 0"
proof (induction n rule: show_nat.induct)
  case (1 n)
  show ?case
  proof (cases "n < 10")
    case False
    then have "n div 10 \<noteq> 0" by simp
    with 1 False show ?thesis by (simp add: show_nat.simps [of n])
  qed (simp add: show_nat.simps [of n] digit_chr_facts)
qed

lemma parse_uint_show_nat [simp]: "parse_uint (show_nat n) = Some n"
  by (simp add: parse_uint_def show_nat_digits)

lemma show_nat_no_sign: "show_nat n = c # r \<Longrightarrow> c \<noteq> CHR ''-''"
  using show_nat_digits [of n] by (auto simp: is_digit_def)

lemma parse_int_show_int [simp]: "parse_int (show_int i) = Some i"
proof -
  obtain c r where cr: "show_nat (nat i) = c # r" using show_nat_nonempty by (meson neq_Nil_conv)
  from cr have "parse_uint (c # r) = Some (nat i)" using parse_uint_show_nat [of "nat i"] by simp
  with cr show_nat_no_sign [OF cr] show ?thesis by (auto simp: show_int_def parse_int_def)
qed

end
