(* ===== verification/GoNet.thy ===== *)
theory GoNet
  imports GoEncoding
begin

text \<open>
  Packages \<open>net\<close> and \<open>net/netip\<close>: \<open>SplitHostPort\<close>, the parsers for IPv4 and IPv6 addresses (zones,
  embedded IPv4, ellipsis) and CIDR prefixes, and \<open>Prefix.Contains\<close>.  A parser returns \<^const>\<open>None\<close>
  where Go returns an error, except \<open>SplitHostPort\<close>, whose errors are kept apart.
\<close>

section \<open>SplitHostPort\<close>

datatype addr_error =
    MissingPort | TooManyColons | MissingBracket | UnexpectedOpen | UnexpectedClose

definition SplitHostPort :: "string \<Rightarrow> addr_error + (string \<times> string)" where
  "SplitHostPort hp =
     (case last_index_byte hp (CHR '':'') of
        None \<Rightarrow> Inl MissingPort
      | Some i \<Rightarrow>
          (let finish = (\<lambda>host j k.
                 if CHR ''['' \<in> set (drop j hp) then Inl UnexpectedOpen
                 else if CHR '']'' \<in> set (drop k hp) then Inl UnexpectedClose
                 else Inr (host, drop (Suc i) hp))
           in if hp ! 0 = CHR ''['' then
                (case index_byte hp (CHR '']'') of
                   None \<Rightarrow> Inl MissingBracket
                 | Some e \<Rightarrow>
                     if e + 1 = length hp then Inl MissingPort
                     else if e + 1 = i then finish (take (e - 1) (drop 1 hp)) 1 (e + 1)
                     else if hp ! (e + 1) = CHR '':'' then Inl TooManyColons
                     else Inl MissingPort)
              else if CHR '':'' \<in> set (take i hp) then Inl TooManyColons
              else finish (take i hp) 0 0))"

section \<open>Addresses\<close>

datatype addr = IPv4 "32 word" | IPv6 "128 word" string

definition bytes_nat :: "nat list \<Rightarrow> nat" where
  "bytes_nat bs = foldl (\<lambda>v b. 256 * v + b) 0 bs"

text \<open>
  \<open>parseIPv4Fields\<close>: the current octet's value and digit count, the octets so far, and whether the
  previous character was a dot (or there was none).
\<close>

fun v4_loop :: "bool \<Rightarrow> nat \<Rightarrow> nat \<Rightarrow> nat list \<Rightarrow> string \<Rightarrow> nat list option" where
  "v4_loop dot val digLen fs [] = (if length fs < 3 then None else Some (fs @ [val]))"
| "v4_loop dot val digLen fs (c # s) =
     (if is_digit c then
        (if digLen = 1 \<and> val = 0 then None
         else if val * 10 + digit_val c > 255 then None
         else v4_loop False (val * 10 + digit_val c) (digLen + 1) fs s)
      else if c = CHR ''.'' then
        (if dot \<or> s = [] then None
         else if length fs = 3 then None
         else v4_loop True 0 0 (fs @ [val]) s)
      else None)"

definition parseIPv4Fields :: "string \<Rightarrow> nat list option" where
  "parseIPv4Fields s = v4_loop True 0 0 [] s"

definition parseIPv4 :: "string \<Rightarrow> addr option" where
  "parseIPv4 s = map_option (\<lambda>fs. IPv4 (word_of_nat (bytes_nat fs))) (parseIPv4Fields s)"

definition is_hex :: "char \<Rightarrow> bool" where
  "is_hex c = (hex_val c \<noteq> None)"

definition hex_group :: "string \<Rightarrow> nat" where
  "hex_group ds = foldl (\<lambda>v c. 16 * v + the (hex_val c)) 0 ds"

text \<open>
  The loop of \<open>parseIPv6\<close>: the bytes so far, where the ellipsis is, and what is left.  It stops with
  16 bytes, at the end of the string, or after an embedded IPv4 address.
\<close>

function v6_loop :: "nat list \<Rightarrow> nat option \<Rightarrow> string \<Rightarrow> (nat list \<times> nat option \<times> string) option" where
  "v6_loop ip ell s =
     (if 16 \<le> length ip then Some (ip, ell, s)
      else
        (let ds = takeWhile is_hex s; rest = dropWhile is_hex s in
         if ds = [] \<or> 4 < length ds then None
         else case rest of
                [] \<Rightarrow> Some (ip @ [hex_group ds div 256, hex_group ds mod 256], ell, [])
              | c # r \<Rightarrow>
                  if c = CHR ''.'' then
                    (if ell = None \<and> length ip \<noteq> 12 then None
                     else if length ip + 4 > 16 then None
                     else map_option (\<lambda>fs. (ip @ fs, ell, [])) (parseIPv4Fields s))
                  else if c \<noteq> CHR '':'' \<or> r = [] then None
                  else if hd r = CHR '':'' then
                    (if ell \<noteq> None then None
                     else if tl r = [] then
                       Some (ip @ [hex_group ds div 256, hex_group ds mod 256], Some (length ip + 2), [])
                     else v6_loop (ip @ [hex_group ds div 256, hex_group ds mod 256])
                            (Some (length ip + 2)) (tl r))
                  else v6_loop (ip @ [hex_group ds div 256, hex_group ds mod 256]) ell r))"
  by pat_completeness auto
termination by (relation "measure (\<lambda>(ip, ell, s). 16 - length ip)") auto

declare v6_loop.simps [simp del]

definition v6_expand :: "nat list \<Rightarrow> nat option \<Rightarrow> nat list option" where
  "v6_expand ip ell =
     (if length ip < 16 then
        (case ell of
           None \<Rightarrow> None
         | Some e \<Rightarrow> Some (take e ip @ replicate (16 - length ip) 0 @ drop e ip))
      else if ell \<noteq> None then None else Some ip)"

definition parseIPv6 :: "string \<Rightarrow> addr option" where
  "parseIPv6 inp =
     (let (s, zone, bad) =
        (case index_byte inp (CHR ''%'') of
           None \<Rightarrow> (inp, [], False)
         | Some i \<Rightarrow> (take i inp, drop (Suc i) inp, drop (Suc i) inp = []))
      in if bad then None
         else
           (let lead = (take 2 s = ''::'');
                s' = (if lead then drop 2 s else s)
            in if lead \<and> s' = [] then Some (IPv6 0 zone)
               else case v6_loop [] (if lead then Some 0 else None) s' of
                      None \<Rightarrow> None
                    | Some (ip, ell, left) \<Rightarrow>
                        if left \<noteq> [] then None
                        else map_option (\<lambda>bs. IPv6 (word_of_nat (bytes_nat bs)) zone) (v6_expand ip ell)))"

definition ParseAddr :: "string \<Rightarrow> addr option" where
  "ParseAddr s =
     (case find (\<lambda>c. c = CHR ''.'' \<or> c = CHR '':'' \<or> c = CHR ''%'') s of
        None \<Rightarrow> None
      | Some c \<Rightarrow>
          if c = CHR ''.'' then parseIPv4 s
          else if c = CHR '':'' then parseIPv6 s
          else None)"

section \<open>Prefixes\<close>

record Prefix =
  pfx_addr :: addr
  pfx_bits :: nat

fun addr_bits :: "addr \<Rightarrow> nat" where
  "addr_bits (IPv4 _) = 32"
| "addr_bits (IPv6 _ _) = 128"

fun addr_zone :: "addr \<Rightarrow> string" where
  "addr_zone (IPv4 _) = []"
| "addr_zone (IPv6 _ z) = z"

definition ParsePrefix :: "string \<Rightarrow> Prefix option" where
  "ParsePrefix s =
     (case last_index_byte s (CHR ''/'') of
        None \<Rightarrow> None
      | Some i \<Rightarrow>
          (case ParseAddr (take i s) of
             None \<Rightarrow> None
           | Some a \<Rightarrow>
               (let bs = drop (Suc i) s in
                if addr_zone a \<noteq> [] then None
                else if length bs > 1 \<and> \<not> (is_digit (hd bs) \<and> hd bs \<noteq> CHR ''0'') then None
                else case parse_uint bs of
                       None \<Rightarrow> None
                     | Some n \<Rightarrow>
                         if n > addr_bits a then None else Some \<lparr>pfx_addr = a, pfx_bits = n\<rparr>)))"

fun Contains :: "Prefix \<Rightarrow> addr \<Rightarrow> bool" where
  "Contains p (IPv4 a) =
     (case pfx_addr p of
        IPv4 b \<Rightarrow> drop_bit (32 - pfx_bits p) (a XOR b) = 0
      | IPv6 _ _ \<Rightarrow> False)"
| "Contains p (IPv6 a z) =
     (if z \<noteq> [] then False
      else case pfx_addr p of
             IPv6 b _ \<Rightarrow> drop_bit (128 - pfx_bits p) (a XOR b) = 0
           | IPv4 _ \<Rightarrow> False)"

section \<open>Lemmas\<close>

text \<open>The equations that evaluate the parsers on a given text.\<close>

lemmas net_eval = ParsePrefix_def ParseAddr_def parseIPv4_def parseIPv4Fields_def is_digit_def
  digit_val_def bytes_nat_def parse_uint_def dec_val_def Let_def

text \<open>A prefix contains the addresses of its family that agree with it on its leading bits.\<close>

lemma drop_bit_xor_eq_0_iff:
  fixes a b :: "'a::len word"
  shows "drop_bit k (a XOR b) = 0 \<longleftrightarrow> unat a div 2 ^ k = unat b div 2 ^ k"
proof -
  have xor0: "x XOR y = 0 \<longleftrightarrow> x = y" for x y :: "'a word"
    by (auto simp: bit_eq_iff bit_xor_iff)
  have "drop_bit k (a XOR b) = 0 \<longleftrightarrow> drop_bit k a = drop_bit k b"
    unfolding drop_bit_xor xor0 ..
  also have "\<dots> \<longleftrightarrow> unat (drop_bit k a) = unat (drop_bit k b)"
    by (simp add: word_unat_eq_iff)
  finally show ?thesis by (simp only: unat_drop_bit_eq drop_bit_nat_def)
qed

lemma ParsePrefix_bits: "ParsePrefix s = Some p \<Longrightarrow> pfx_bits p \<le> addr_bits (pfx_addr p) \<and> addr_zone (pfx_addr p) = []"
  by (auto simp: ParsePrefix_def Let_def split: option.splits if_splits)

lemma SplitHostPort_plain:
  assumes "CHR '':'' \<notin> set host" and "CHR '':'' \<notin> set port"
    and "CHR ''['' \<notin> set (host @ port)" and "CHR '']'' \<notin> set (host @ port)"
  shows "SplitHostPort (host @ CHR '':'' # port) = Inr (host, port)"
proof -
  have "(host @ CHR '':'' # port) ! 0 \<noteq> CHR ''[''"
    using assms(3) by (cases host) auto
  then show ?thesis using assms by (simp add: SplitHostPort_def Let_def)
qed

lemma SplitHostPort_bracketed:
  assumes "CHR '']'' \<notin> set (host @ port)" and "CHR ''['' \<notin> set (host @ port)" and "CHR '':'' \<notin> set port"
  shows "SplitHostPort (CHR ''['' # host @ CHR '']'' # CHR '':'' # port) = Inr (host, port)"
proof -
  let ?hp = "CHR ''['' # host @ CHR '']'' # CHR '':'' # port"
  have i: "last_index_byte ?hp (CHR '':'') = Some (length host + 2)"
    using last_index_byte_append [OF assms(3), of "CHR ''['' # host @ '']''"] by simp
  have e: "index_byte ?hp (CHR '']'') = Some (length host + 1)"
    using assms(1) index_byte_append [of "CHR '']''" "CHR ''['' # host"] by simp
  show ?thesis using assms i e by (simp add: SplitHostPort_def Let_def)
qed

end
