(* ===== verification/GoTime.thy ===== *)
theory GoTime
  imports Prelude
begin

text \<open>
  Package \<open>time\<close>: a \<open>Duration\<close> is an \<open>int64\<close> count of nanoseconds, a \<open>Time\<close> is a number of seconds
  since year 1 (\<open>int64\<close>, so \<open>time.Unix\<close> of an extreme argument wraps around) and a nanosecond
  part.  \<open>Time.Sub\<close> saturates, as documented, at the smallest and largest \<open>Duration\<close>.
\<close>

type_synonym Duration = int64

definition Nanosecond :: Duration where "Nanosecond = 1"
definition Second :: Duration where "Second = 1000000000"
definition Minute :: Duration where "Minute = 60 * Second"

definition minDuration :: int where "minDuration = - (2 ^ 63)"
definition maxDuration :: int where "maxDuration = 2 ^ 63 - 1"

lemmas duration_defs = Nanosecond_def Second_def Minute_def

record Time =
  t_sec :: int64
  t_nsec :: nat

definition unixToInternal :: int64 where
  "unixToInternal = 62135596800"

text \<open>\<open>time.Unix(sec, 0)\<close> and \<open>Time.Unix()\<close>.\<close>

definition Unix :: "int64 \<Rightarrow> Time" where
  "Unix sec = \<lparr>t_sec = sec + unixToInternal, t_nsec = 0\<rparr>"

definition unix_seconds :: "Time \<Rightarrow> int64" where
  "unix_seconds t = t_sec t - unixToInternal"

definition time_ns :: "Time \<Rightarrow> int" where
  "time_ns t = sint (t_sec t) * 1000000000 + int (t_nsec t)"

definition Sub :: "Time \<Rightarrow> Time \<Rightarrow> Duration" where
  "Sub t u =
     (let d = time_ns t - time_ns u in
      if d < minDuration then word_of_int minDuration
      else if d > maxDuration then word_of_int maxDuration
      else word_of_int d)"

text \<open>\<open>Time.Add\<close>: seconds saturate, as in the implementation.\<close>

definition time_Add :: "Time \<Rightarrow> Duration \<Rightarrow> Time" where
  "time_Add t d =
     (let n = int (t_nsec t) + sint d in
      \<lparr>t_sec = word_of_int (max minDuration (min maxDuration (sint (t_sec t) + n div 1000000000))),
       t_nsec = nat (n mod 1000000000)\<rparr>)"

lemma unix_seconds_Unix [simp]: "unix_seconds (Unix s) = s"
  by (simp add: unix_seconds_def Unix_def)

lemma sint_word_of_int_in_range:
  "- (2 ^ 63) \<le> i \<Longrightarrow> i < 2 ^ 63 \<Longrightarrow> sint (word_of_int i :: int64) = i"
  by (simp add: sint_sbintrunc' signed_take_bit_int_eq_self)

lemma sint_Sub:
  "sint (Sub t u) = max minDuration (min maxDuration (time_ns t - time_ns u))"
proof -
  have "sint (word_of_int (time_ns t - time_ns u) :: int64) = time_ns t - time_ns u"
    if "minDuration \<le> time_ns t - time_ns u" "time_ns t - time_ns u \<le> maxDuration"
    using that by (intro sint_word_of_int_in_range) (simp_all add: minDuration_def maxDuration_def)
  then show ?thesis
    by (simp add: Sub_def Let_def minDuration_def maxDuration_def sint_word_of_int_in_range)
qed

lemma sint_int64_sum:
  "- (2 ^ 63) \<le> sint a + sint b \<Longrightarrow> sint a + sint b < 2 ^ 63 \<Longrightarrow> sint (a + b) = sint a + sint (b :: int64)"
  by (simp add: sint_word_ariths signed_take_bit_int_eq_self)

lemma sint_int64_diff:
  "- (2 ^ 63) \<le> sint a - sint b \<Longrightarrow> sint a - sint b < 2 ^ 63 \<Longrightarrow> sint (a - b) = sint a - sint (b :: int64)"
  by (simp add: sint_word_ariths signed_take_bit_int_eq_self)

text \<open>Negation of an \<open>int64\<close> is exact except at the smallest value, which it maps to itself.\<close>

lemma sint_minus_int64:
  fixes d :: int64
  shows "sint (- d) = (if sint d = - (2 ^ 63) then - (2 ^ 63) else - sint d)"
proof -
  have r: "- (2 ^ 63) \<le> sint d" "sint d < 2 ^ 63" using sint_ge [of d] sint_lt [of d] by simp_all
  have e: "- d = word_of_int (- sint d)" by simp
  show ?thesis
  proof (cases "sint d = - (2 ^ 63)")
    case True
    then have "d = word_of_int (- (2 ^ 63))" by (metis scast_eq scast_id)
    then have "- d = word_of_int (- (2 ^ 63))" by simp
    then show ?thesis using True by (simp add: sint_word_of_int_in_range)
  next
    case False
    then show ?thesis unfolding e using r by (subst sint_word_of_int_in_range) simp_all
  qed
qed

end
