(* ===== verification/Config.thy ===== *)
theory Config
  imports GoFS GoNet GoTime
begin

text \<open>
  \<open>internal/config/config.go\<close>: the YAML configuration of the two ends, its defaults and its
  validation.  The YAML decoder (\<open>yaml.v3\<close>) is a parameter; what it hands to the program is a
  configuration record.  Every error message of the source is a constructor of \<open>config_error\<close>.
  The \<open>services\<close> map of a client is the list of its entries in the order in which Go's \<open>range\<close>
  visits them, which the language leaves open: the results that matter do not depend on it.
\<close>

section \<open>Configuration records\<close>

record TLSConfig =
  tls_Cert :: string
  tls_Key :: string

record ServiceEntry =
  se_Name :: string
  se_Listen :: string
  se_AllowedUserCIDRs :: "string list"

type_synonym StringOrSlice = "string list"

record ClientEntry =
  ce_ID :: string
  ce_Pubkey :: StringOrSlice
  ce_PQPubkey :: StringOrSlice
  ce_Services :: "ServiceEntry list"

record LimitsConfig =
  lim_MaxStreamsPerClient :: int64
  lim_HandshakeTimeout :: Duration
  lim_IdleTimeout :: Duration
  lim_HeartbeatInterval :: Duration

record ServerConfig =
  sc_Listen :: string
  sc_TLS :: TLSConfig
  sc_Clients :: "ClientEntry list"
  sc_Limits :: LimitsConfig

record IdentityConfig =
  id_ID :: string
  id_PrivkeyFile :: string
  id_PQPrivkeyFile :: string

record ReconnectConfig =
  rc_InitialBackoff :: Duration
  rc_MaxBackoff :: Duration
  rc_Jitter :: bool

record ClientConfig =
  cc_Remote :: string
  cc_ServerFingerprint :: string
  cc_Identity :: IdentityConfig
  cc_Services :: "(string \<times> string) list"
  cc_Reconnect :: ReconnectConfig

section \<open>Decoding\<close>

datatype yaml_kind = DocumentNode | SequenceNode | MappingNode | ScalarNode | AliasNode

datatype 'e slice_error = DecodeError 'e | BadKind yaml_kind

text \<open>The node's kind and its decodings as a string and as a list are the YAML library's.\<close>

definition UnmarshalYAML ::
  "('node \<Rightarrow> yaml_kind) \<Rightarrow> ('node \<Rightarrow> 'e + string) \<Rightarrow> ('node \<Rightarrow> 'e + string list)
     \<Rightarrow> 'node \<Rightarrow> 'e slice_error + StringOrSlice" where
  "UnmarshalYAML Kind Decode_string Decode_strings value =
     (case Kind value of
        ScalarNode \<Rightarrow>
          (case Decode_string value of
             Inl err \<Rightarrow> Inl (DecodeError err)
           | Inr single \<Rightarrow> Inr [single])
      | SequenceNode \<Rightarrow>
          (case Decode_strings value of
             Inl err \<Rightarrow> Inl (DecodeError err)
           | Inr many \<Rightarrow> Inr many)
      | k \<Rightarrow> Inl (BadKind k))"

text \<open>\<open>Decode\<close> is the YAML decoder, with its \<open>KnownFields\<close> switch.\<close>

definition strictUnmarshal :: "(bool \<Rightarrow> string \<Rightarrow> 'e + 'c) \<Rightarrow> bytes \<Rightarrow> 'e + 'c" where
  "strictUnmarshal Decode data = Decode True (bytes_str data)"

section \<open>Defaults\<close>

definition applyDefaults_limits :: "LimitsConfig \<Rightarrow> LimitsConfig" where
  "applyDefaults_limits l =
     (let l = (if lim_MaxStreamsPerClient l = 0 then l\<lparr>lim_MaxStreamsPerClient := 256\<rparr> else l);
          l = (if lim_HandshakeTimeout l = 0 then l\<lparr>lim_HandshakeTimeout := 10 * Second\<rparr> else l);
          l = (if lim_IdleTimeout l = 0 then l\<lparr>lim_IdleTimeout := 5 * Minute\<rparr> else l);
          l = (if lim_HeartbeatInterval l = 0 then l\<lparr>lim_HeartbeatInterval := 30 * Second\<rparr> else l)
      in l)"

definition applyDefaults :: "ServerConfig \<Rightarrow> ServerConfig" where
  "applyDefaults c = c\<lparr>sc_Limits := applyDefaults_limits (sc_Limits c)\<rparr>"

definition applyDefaults_reconnect :: "ReconnectConfig \<Rightarrow> ReconnectConfig" where
  "applyDefaults_reconnect r =
     (let r = (if rc_InitialBackoff r = 0 then r\<lparr>rc_InitialBackoff := 1 * Second\<rparr> else r);
          r = (if rc_MaxBackoff r = 0 then r\<lparr>rc_MaxBackoff := 60 * Second\<rparr> else r)
      in r)"

definition applyDefaults_client :: "ClientConfig \<Rightarrow> ClientConfig" where
  "applyDefaults_client c = c\<lparr>cc_Reconnect := applyDefaults_reconnect (cc_Reconnect c)\<rparr>"

section \<open>Validation of the server's configuration\<close>

datatype config_error =
    ListenRequired | ListenInvalid addr_error | TLSRequired | NoClients
  | ClientIDRequired nat | DuplicateClient string
  | NoPubkey string | BadPubkey string | NoPQPubkey string | BadPQPubkey string
  | NoService string
  | ServiceNameRequired string nat | DuplicateService string string
  | ServiceListen string string addr_error | ListenReused string string
  | BadCIDR string string string
  | MaxStreamsInvalid | HandshakeTimeoutInvalid | IdleTimeoutInvalid | HeartbeatInvalid
  | HeartbeatNotBelowIdle
  | RemoteRequired | RemoteInvalid addr_error | FingerprintPrefix | FingerprintLength
  | IdentityIDRequired | PrivkeyFileRequired | PQPrivkeyFileRequired | NoClientService
  | EmptyServiceName | TargetInvalid string addr_error
  | InitialBackoffInvalid | MaxBackoffInvalid | MaxBackoffBelowInitial

definition validate_cidrs :: "string \<Rightarrow> string \<Rightarrow> string list \<Rightarrow> config_error option" where
  "validate_cidrs cid svc cidrs =
     map_option (BadCIDR cid svc) (find (\<lambda>cidr. ParsePrefix cidr = None) cidrs)"

fun validate_services ::
  "string \<Rightarrow> nat \<Rightarrow> string set \<Rightarrow> (string \<rightharpoonup> string) \<Rightarrow> ServiceEntry list
     \<Rightarrow> config_error + (string \<rightharpoonup> string)" where
  "validate_services cid j seenSvc listens [] = Inr listens"
| "validate_services cid j seenSvc listens (s # ss) =
     (if se_Name s = [] then Inl (ServiceNameRequired cid j)
      else if se_Name s \<in> seenSvc then Inl (DuplicateService cid (se_Name s))
      else case SplitHostPort (se_Listen s) of
        Inl err \<Rightarrow> Inl (ServiceListen cid (se_Name s) err)
      | Inr _ \<Rightarrow>
        (case listens (se_Listen s) of
           Some owner \<Rightarrow> Inl (ListenReused (se_Listen s) owner)
         | None \<Rightarrow>
           (case validate_cidrs cid (se_Name s) (se_AllowedUserCIDRs s) of
              Some err \<Rightarrow> Inl err
            | None \<Rightarrow>
                validate_services cid (Suc j) (insert (se_Name s) seenSvc)
                  (listens(se_Listen s \<mapsto> cid @ ''/'' @ se_Name s)) ss)))"

fun validate_clients ::
  "nat \<Rightarrow> string set \<Rightarrow> (string \<rightharpoonup> string) \<Rightarrow> ClientEntry list \<Rightarrow> config_error option" where
  "validate_clients i seenIDs listens [] = None"
| "validate_clients i seenIDs listens (ce # ces) =
     (if ce_ID ce = [] then Some (ClientIDRequired i)
      else if ce_ID ce \<in> seenIDs then Some (DuplicateClient (ce_ID ce))
      else if ce_Pubkey ce = [] then Some (NoPubkey (ce_ID ce))
      else if \<not> list_all (\<lambda>pk. HasPrefix pk ''ed25519:'') (ce_Pubkey ce) then Some (BadPubkey (ce_ID ce))
      else if ce_PQPubkey ce = [] then Some (NoPQPubkey (ce_ID ce))
      else if \<not> list_all (\<lambda>pk. HasPrefix pk ''mldsa:'') (ce_PQPubkey ce) then Some (BadPQPubkey (ce_ID ce))
      else if ce_Services ce = [] then Some (NoService (ce_ID ce))
      else case validate_services (ce_ID ce) 0 {} listens (ce_Services ce) of
        Inl err \<Rightarrow> Some err
      | Inr listens' \<Rightarrow> validate_clients (Suc i) (insert (ce_ID ce) seenIDs) listens' ces)"

definition validate_limits :: "LimitsConfig \<Rightarrow> config_error option" where
  "validate_limits l =
     (if lim_MaxStreamsPerClient l <s 1 then Some MaxStreamsInvalid
      else if lim_HandshakeTimeout l \<le>s 0 then Some HandshakeTimeoutInvalid
      else if lim_IdleTimeout l \<le>s 0 then Some IdleTimeoutInvalid
      else if lim_HeartbeatInterval l \<le>s 0 then Some HeartbeatInvalid
      else if lim_IdleTimeout l \<le>s lim_HeartbeatInterval l then Some HeartbeatNotBelowIdle
      else None)"

definition Validate :: "ServerConfig \<Rightarrow> config_error option" where
  "Validate c =
     (if sc_Listen c = [] then Some ListenRequired
      else case SplitHostPort (sc_Listen c) of
        Inl err \<Rightarrow> Some (ListenInvalid err)
      | Inr _ \<Rightarrow>
        if tls_Cert (sc_TLS c) = [] \<or> tls_Key (sc_TLS c) = [] then Some TLSRequired
        else if sc_Clients c = [] then Some NoClients
        else case validate_clients 0 {} Map.empty (sc_Clients c) of
          Some err \<Rightarrow> Some err
        | None \<Rightarrow> validate_limits (sc_Limits c))"

section \<open>Validation of the client's configuration\<close>

fun validate_targets :: "(string \<times> string) list \<Rightarrow> config_error option" where
  "validate_targets [] = None"
| "validate_targets ((name, target) # ss) =
     (if name = [] then Some EmptyServiceName
      else case SplitHostPort target of
        Inl err \<Rightarrow> Some (TargetInvalid name err)
      | Inr _ \<Rightarrow> validate_targets ss)"

definition validate_reconnect :: "ReconnectConfig \<Rightarrow> config_error option" where
  "validate_reconnect r =
     (if rc_InitialBackoff r \<le>s 0 then Some InitialBackoffInvalid
      else if rc_MaxBackoff r \<le>s 0 then Some MaxBackoffInvalid
      else if rc_MaxBackoff r <s rc_InitialBackoff r then Some MaxBackoffBelowInitial
      else None)"

definition Validate_client :: "ClientConfig \<Rightarrow> config_error option" where
  "Validate_client c =
     (if cc_Remote c = [] then Some RemoteRequired
      else case SplitHostPort (cc_Remote c) of
        Inl err \<Rightarrow> Some (RemoteInvalid err)
      | Inr _ \<Rightarrow>
        if \<not> HasPrefix (cc_ServerFingerprint c) ''sha256:'' then Some FingerprintPrefix
        else if length (cc_ServerFingerprint c) \<noteq> length ''sha256:'' + 64 then Some FingerprintLength
        else if id_ID (cc_Identity c) = [] then Some IdentityIDRequired
        else if id_PrivkeyFile (cc_Identity c) = [] then Some PrivkeyFileRequired
        else if id_PQPrivkeyFile (cc_Identity c) = [] then Some PQPrivkeyFileRequired
        else if cc_Services c = [] then Some NoClientService
        else case validate_targets (cc_Services c) of
          Some err \<Rightarrow> Some err
        | None \<Rightarrow> validate_reconnect (cc_Reconnect c))"

definition ServiceNames :: "ClientConfig \<Rightarrow> string list" where
  "ServiceNames c = map fst (cc_Services c)"

section \<open>Loading\<close>

datatype 'e load_error =
    LoadOS os_error | LoadDecode string 'e | LoadInvalid string config_error

definition LoadServer ::
  "(bool \<Rightarrow> string \<Rightarrow> 'e + ServerConfig) \<Rightarrow> fs \<Rightarrow> string \<Rightarrow> 'e load_error + ServerConfig" where
  "LoadServer Decode s path =
     (case ReadFile s path of
        Inl err \<Rightarrow> Inl (LoadOS err)
      | Inr data \<Rightarrow>
          (case strictUnmarshal Decode data of
             Inl err \<Rightarrow> Inl (LoadDecode path err)
           | Inr c \<Rightarrow>
               (let c = applyDefaults c in
                case Validate c of
                  Some err \<Rightarrow> Inl (LoadInvalid path err)
                | None \<Rightarrow> Inr c)))"

definition LoadClient ::
  "(bool \<Rightarrow> string \<Rightarrow> 'e + ClientConfig) \<Rightarrow> fs \<Rightarrow> string \<Rightarrow> 'e load_error + ClientConfig" where
  "LoadClient Decode s path =
     (case ReadFile s path of
        Inl err \<Rightarrow> Inl (LoadOS err)
      | Inr data \<Rightarrow>
          (case strictUnmarshal Decode data of
             Inl err \<Rightarrow> Inl (LoadDecode path err)
           | Inr c \<Rightarrow>
               (let c = applyDefaults_client c in
                case Validate_client c of
                  Some err \<Rightarrow> Inl (LoadInvalid path err)
                | None \<Rightarrow> Inr c)))"

section \<open>What validation establishes\<close>

definition splits :: "string \<Rightarrow> bool" where
  "splits hp = (\<exists>h p. SplitHostPort hp = Inr (h, p))"

lemma splits_code [code]: "splits hp = (case SplitHostPort hp of Inr _ \<Rightarrow> True | Inl _ \<Rightarrow> False)"
  by (auto simp: splits_def split: sum.splits)

definition service_ok :: "ServiceEntry \<Rightarrow> bool" where
  "service_ok s \<longleftrightarrow> se_Name s \<noteq> [] \<and> splits (se_Listen s) \<and>
     (\<forall>cidr \<in> set (se_AllowedUserCIDRs s). ParsePrefix cidr \<noteq> None)"

definition client_ok :: "ClientEntry \<Rightarrow> bool" where
  "client_ok ce \<longleftrightarrow> ce_ID ce \<noteq> [] \<and>
     ce_Pubkey ce \<noteq> [] \<and> (\<forall>pk \<in> set (ce_Pubkey ce). HasPrefix pk ''ed25519:'') \<and>
     ce_PQPubkey ce \<noteq> [] \<and> (\<forall>pk \<in> set (ce_PQPubkey ce). HasPrefix pk ''mldsa:'') \<and>
     ce_Services ce \<noteq> [] \<and> (\<forall>s \<in> set (ce_Services ce). service_ok s) \<and>
     distinct (map se_Name (ce_Services ce))"

definition limits_ok :: "LimitsConfig \<Rightarrow> bool" where
  "limits_ok l \<longleftrightarrow> 1 \<le> sint (lim_MaxStreamsPerClient l) \<and> 0 < sint (lim_HandshakeTimeout l) \<and>
     0 < sint (lim_HeartbeatInterval l) \<and>
     sint (lim_HeartbeatInterval l) < sint (lim_IdleTimeout l)"

definition all_services :: "ClientEntry list \<Rightarrow> ServiceEntry list" where
  "all_services ces = concat (map ce_Services ces)"

definition server_config_ok :: "ServerConfig \<Rightarrow> bool" where
  "server_config_ok c \<longleftrightarrow> sc_Listen c \<noteq> [] \<and> splits (sc_Listen c) \<and>
     tls_Cert (sc_TLS c) \<noteq> [] \<and> tls_Key (sc_TLS c) \<noteq> [] \<and>
     sc_Clients c \<noteq> [] \<and> (\<forall>ce \<in> set (sc_Clients c). client_ok ce) \<and>
     distinct (map ce_ID (sc_Clients c)) \<and>
     distinct (map se_Listen (all_services (sc_Clients c))) \<and> limits_ok (sc_Limits c)"

definition reconnect_ok :: "ReconnectConfig \<Rightarrow> bool" where
  "reconnect_ok r \<longleftrightarrow> 0 < sint (rc_InitialBackoff r) \<and> sint (rc_InitialBackoff r) \<le> sint (rc_MaxBackoff r)"

definition client_config_ok :: "ClientConfig \<Rightarrow> bool" where
  "client_config_ok c \<longleftrightarrow> cc_Remote c \<noteq> [] \<and> splits (cc_Remote c) \<and>
     HasPrefix (cc_ServerFingerprint c) ''sha256:'' \<and> length (cc_ServerFingerprint c) = 71 \<and>
     id_ID (cc_Identity c) \<noteq> [] \<and> id_PrivkeyFile (cc_Identity c) \<noteq> [] \<and>
     id_PQPrivkeyFile (cc_Identity c) \<noteq> [] \<and> cc_Services c \<noteq> [] \<and>
     (\<forall>(name, target) \<in> set (cc_Services c). name \<noteq> [] \<and> splits target) \<and>
     reconnect_ok (cc_Reconnect c)"

lemma splits_Inr [simp]: "SplitHostPort hp = Inr x \<Longrightarrow> splits hp"
  and splits_Inl [simp]: "SplitHostPort hp = Inl e \<Longrightarrow> \<not> splits hp"
  by (auto simp: splits_def)

lemma validate_cidrs_None_iff:
  "validate_cidrs cid svc cidrs = None \<longleftrightarrow> (\<forall>cidr \<in> set cidrs. ParsePrefix cidr \<noteq> None)"
  by (auto simp: validate_cidrs_def find_None_iff)

text \<open>
  The listen addresses registered after a client's services; the client's loop succeeds exactly when
  the services are well formed and neither their names nor their addresses repeat.
\<close>

lemma validate_services_Cons:
  "validate_services cid j seen ls (s # ss) = Inr ls' \<longleftrightarrow>
     service_ok s \<and> se_Name s \<notin> seen \<and> se_Listen s \<notin> dom ls \<and>
     validate_services cid (Suc j) (insert (se_Name s) seen)
       (ls(se_Listen s \<mapsto> cid @ ''/'' @ se_Name s)) ss = Inr ls'"
  using validate_cidrs_None_iff [of cid "se_Name s" "se_AllowedUserCIDRs s"]
  by (cases "SplitHostPort (se_Listen s)"; cases "ls (se_Listen s)";
      cases "validate_cidrs cid (se_Name s) (se_AllowedUserCIDRs s)")
    (auto simp: service_ok_def)

definition listens_after :: "string \<Rightarrow> (string \<rightharpoonup> string) \<Rightarrow> ServiceEntry list \<Rightarrow> (string \<rightharpoonup> string)" where
  "listens_after cid = foldl (\<lambda>m s. m(se_Listen s \<mapsto> cid @ ''/'' @ se_Name s))"

lemma listens_after_simps [simp]:
  "listens_after cid ls [] = ls"
  "listens_after cid ls (s # ss) = listens_after cid (ls(se_Listen s \<mapsto> cid @ ''/'' @ se_Name s)) ss"
  by (simp_all add: listens_after_def)

lemma dom_listens_after: "dom (listens_after cid ls ss) = dom ls \<union> se_Listen ` set ss"
  by (induction ss arbitrary: ls) auto

lemma validate_services_Inr_iff:
  "validate_services cid j seen ls ss = Inr ls' \<longleftrightarrow>
     (\<forall>s \<in> set ss. service_ok s) \<and> distinct (map se_Name ss) \<and> se_Name ` set ss \<inter> seen = {} \<and>
     distinct (map se_Listen ss) \<and> se_Listen ` set ss \<inter> dom ls = {} \<and> ls' = listens_after cid ls ss"
proof (induction ss arbitrary: j seen ls)
  case (Cons s ss)
  show ?case
    unfolding validate_services_Cons Cons.IH by (auto simp del: fun_upd_apply)
qed auto

lemma validate_clients_None_iff:
  "validate_clients i seen ls ces = None \<longleftrightarrow>
     (\<forall>ce \<in> set ces. client_ok ce) \<and> distinct (map ce_ID ces) \<and> ce_ID ` set ces \<inter> seen = {} \<and>
     distinct (map se_Listen (all_services ces)) \<and> se_Listen ` set (all_services ces) \<inter> dom ls = {}"
proof (induction ces arbitrary: i seen ls)
  case (Cons ce ces)
  show ?case
  proof (cases "validate_services (ce_ID ce) 0 {} ls (ce_Services ce)")
    case (Inl e)
    have "\<not> (client_ok ce \<and> distinct (map se_Listen (ce_Services ce)) \<and> se_Listen ` set (ce_Services ce) \<inter> dom ls = {})"
      using Inl validate_services_Inr_iff [of "ce_ID ce" 0 "{}" ls "ce_Services ce"]
      by (auto simp: client_ok_def)
    with Inl show ?thesis by (auto simp: all_services_def)
  next
    case (Inr ls')
    from Inr [unfolded validate_services_Inr_iff]
    have *: "(\<forall>s \<in> set (ce_Services ce). service_ok s)" "distinct (map se_Name (ce_Services ce))"
      "distinct (map se_Listen (ce_Services ce))" "se_Listen ` set (ce_Services ce) \<inter> dom ls = {}"
      "dom ls' = dom ls \<union> se_Listen ` set (ce_Services ce)"
      by (simp_all add: dom_listens_after)
    have "client_ok ce \<longleftrightarrow> ce_ID ce \<noteq> [] \<and> ce_Pubkey ce \<noteq> [] \<and> list_all (\<lambda>pk. HasPrefix pk ''ed25519:'') (ce_Pubkey ce)
        \<and> ce_PQPubkey ce \<noteq> [] \<and> list_all (\<lambda>pk. HasPrefix pk ''mldsa:'') (ce_PQPubkey ce) \<and> ce_Services ce \<noteq> []"
      using * by (auto simp: client_ok_def list_all_iff)
    then have step: "validate_clients i seen ls (ce # ces) = None \<longleftrightarrow> client_ok ce \<and> ce_ID ce \<notin> seen \<and>
        validate_clients (Suc i) (insert (ce_ID ce) seen) ls' ces = None"
      using Inr by simp
    let ?A = "se_Listen ` set (ce_Services ce)" and ?B = "se_Listen ` set (all_services ces)"
    have 1: "distinct (map se_Listen (all_services (ce # ces))) \<longleftrightarrow>
        distinct (map se_Listen (all_services ces)) \<and> ?A \<inter> ?B = {}"
      using *(3) by (simp add: all_services_def)
    have 2: "se_Listen ` set (all_services (ce # ces)) \<inter> dom ls = {} \<longleftrightarrow> ?B \<inter> dom ls = {}"
      using *(4) by (simp add: all_services_def image_Un Int_Un_distrib2)
    have 3: "?B \<inter> dom ls' = {} \<longleftrightarrow> ?B \<inter> dom ls = {} \<and> ?A \<inter> ?B = {}"
      unfolding *(5) by blast
    have 4: "ce_ID ` set ces \<inter> insert (ce_ID ce) seen = {} \<longleftrightarrow>
        ce_ID ce \<notin> ce_ID ` set ces \<and> ce_ID ` set ces \<inter> seen = {}"
      and 5: "ce_ID ` insert ce (set ces) \<inter> seen = {} \<longleftrightarrow> ce_ID ce \<notin> seen \<and> ce_ID ` set ces \<inter> seen = {}"
      by auto
    show ?thesis unfolding step Cons.IH 1 2 3 4 list.set ball_simps list.map distinct.simps set_map 5
      by argo
  qed
qed (auto simp: all_services_def)

lemma validate_limits_None_iff: "validate_limits l = None \<longleftrightarrow> limits_ok l"
  by (auto simp: validate_limits_def limits_ok_def word_sless_alt word_sle_eq)

lemma Validate_None_iff: "Validate c = None \<longleftrightarrow> server_config_ok c"
  using validate_clients_None_iff [of 0 "{}" Map.empty "sc_Clients c"]
  by (cases "SplitHostPort (sc_Listen c)"; cases "validate_clients 0 {} Map.empty (sc_Clients c)")
    (auto simp: Validate_def server_config_ok_def validate_limits_None_iff)

lemma validate_targets_None_iff:
  "validate_targets ss = None \<longleftrightarrow> (\<forall>(name, target) \<in> set ss. name \<noteq> [] \<and> splits target)"
  by (induction ss rule: validate_targets.induct) (auto split: sum.splits)

lemma validate_reconnect_None_iff: "validate_reconnect r = None \<longleftrightarrow> reconnect_ok r"
  by (auto simp: validate_reconnect_def reconnect_ok_def word_sless_alt word_sle_eq)

lemma Validate_client_None_iff: "Validate_client c = None \<longleftrightarrow> client_config_ok c"
  using validate_targets_None_iff [of "cc_Services c"]
  by (cases "SplitHostPort (cc_Remote c)"; cases "validate_targets (cc_Services c)")
    (auto simp: Validate_client_def client_config_ok_def validate_reconnect_None_iff)

section \<open>Loading and defaults\<close>

lemma LoadServer_Inr_iff:
  "LoadServer Decode s path = Inr c \<longleftrightarrow>
     (\<exists>data c0. ReadFile s path = Inr data \<and> Decode True (bytes_str data) = Inr c0 \<and>
        c = applyDefaults c0 \<and> server_config_ok c)"
  by (auto simp: LoadServer_def strictUnmarshal_def Let_def Validate_None_iff [symmetric]
      split: sum.splits option.splits)

lemma LoadClient_Inr_iff:
  "LoadClient Decode s path = Inr c \<longleftrightarrow>
     (\<exists>data c0. ReadFile s path = Inr data \<and> Decode True (bytes_str data) = Inr c0 \<and>
        c = applyDefaults_client c0 \<and> client_config_ok c)"
  by (auto simp: LoadClient_def strictUnmarshal_def Let_def Validate_client_None_iff [symmetric]
      split: sum.splits option.splits)

lemma applyDefaults_limits_fields:
  "lim_MaxStreamsPerClient (applyDefaults_limits l) =
     (if lim_MaxStreamsPerClient l = 0 then 256 else lim_MaxStreamsPerClient l)"
  "lim_HandshakeTimeout (applyDefaults_limits l) =
     (if lim_HandshakeTimeout l = 0 then 10 * Second else lim_HandshakeTimeout l)"
  "lim_IdleTimeout (applyDefaults_limits l) =
     (if lim_IdleTimeout l = 0 then 5 * Minute else lim_IdleTimeout l)"
  "lim_HeartbeatInterval (applyDefaults_limits l) =
     (if lim_HeartbeatInterval l = 0 then 30 * Second else lim_HeartbeatInterval l)"
  by (simp_all add: applyDefaults_limits_def Let_def)

lemma applyDefaults_limits_idem: "applyDefaults_limits (applyDefaults_limits l) = applyDefaults_limits l"
  by (auto simp: applyDefaults_limits_def Let_def duration_defs)

text \<open>A configuration that leaves every limit out gets limits that pass validation.\<close>

lemma default_limits_ok:
  assumes "lim_MaxStreamsPerClient l = 0" "lim_HandshakeTimeout l = 0"
    "lim_IdleTimeout l = 0" "lim_HeartbeatInterval l = 0"
  shows "limits_ok (applyDefaults_limits l)"
  using assms by (simp add: limits_ok_def applyDefaults_limits_fields duration_defs)

lemma default_reconnect_ok:
  assumes "rc_InitialBackoff r = 0" "rc_MaxBackoff r = 0"
  shows "reconnect_ok (applyDefaults_reconnect r)"
  using assms by (simp add: reconnect_ok_def applyDefaults_reconnect_def duration_defs)

text \<open>The verdict on a client's services does not depend on the iteration order of the map.\<close>

lemma validate_targets_order:
  "set ss = set ss' \<Longrightarrow> validate_targets ss = None \<longleftrightarrow> validate_targets ss' = None"
  by (simp add: validate_targets_None_iff)

section \<open>Properties\<close>

text \<open>
  C19: the server's \<open>Validate\<close>, a loop with three tables and early returns, accepts exactly the
  configurations that satisfy the declarative specification: addresses that split, non-empty names
  and file names, prefixed keys of both kinds for every client, unique client ids, service names
  unique per client, listen addresses unique over all clients, prefixes that parse, and positive
  limits with the heartbeat below the idle timeout.
\<close>

theorem server_Validate_iff: "Validate c = None \<longleftrightarrow> server_config_ok c"
  by (rule Validate_None_iff)

text \<open>
  C20: the client's \<open>Validate\<close> accepts exactly the configurations that satisfy its specification, and
  its verdict does not depend on the order in which the map of services is visited.
\<close>

theorem client_Validate_iff:
  "(Validate_client c = None \<longleftrightarrow> client_config_ok c) \<and>
   (set ss = set (cc_Services c) \<longrightarrow>
      (Validate_client (c\<lparr>cc_Services := ss\<rparr>) = None \<longleftrightarrow> Validate_client c = None))"
proof -
  have "ss = [] \<longleftrightarrow> cc_Services c = []" if "set ss = set (cc_Services c)"
    using that by (metis set_empty)
  then show ?thesis by (auto simp: Validate_client_None_iff client_config_ok_def)
qed

definition alice_config :: ClientConfig where
  "alice_config =
     \<lparr>cc_Remote = ''h:1'', cc_ServerFingerprint = ''sha256:'' @ replicate 64 (CHR ''a''),
      cc_Identity = \<lparr>id_ID = ''alice'', id_PrivkeyFile = ''k'', id_PQPrivkeyFile = ''q''\<rparr>,
      cc_Services = [(''ssh'', ''h:22''), (''web'', ''h:80'')],
      cc_Reconnect = \<lparr>rc_InitialBackoff = 1 * Second, rc_MaxBackoff = 60 * Second, rc_Jitter = True\<rparr>\<rparr>"

lemma alice_config_ok: "client_config_ok alice_config"
proof -
  have "splits ''h:1''" "splits ''h:22''" "splits ''h:80''" by code_simp+
  then show ?thesis
    by (simp add: client_config_ok_def alice_config_def reconnect_ok_def duration_defs HasPrefix_def)
qed

theorem client_Validate_iff_witness:
  "Validate_client (alice_config\<lparr>cc_Services := [(''web'', ''h:80''), (''ssh'', ''h:22'')]\<rparr>) = None"
  using client_Validate_iff [of alice_config "[(''web'', ''h:80''), (''ssh'', ''h:22'')]"] alice_config_ok
  by (auto simp: alice_config_def)

text \<open>
  C21: a server configuration that \<open>LoadServer\<close> returns was read from the file, decoded with unknown
  fields refused, completed with the defaults 256, 10 s, 5 min and 30 s where the file gave none, and
  satisfies the specification; and every such file is loaded.
\<close>

theorem LoadServer_iff:
  "LoadServer Decode s path = Inr c \<longleftrightarrow>
     (\<exists>data c0. ReadFile s path = Inr data \<and> Decode True (bytes_str data) = Inr c0 \<and> server_config_ok c \<and>
        (let l = sc_Limits c0; d = (\<lambda>v default. if v = 0 then default else v) in
         c = c0\<lparr>sc_Limits :=
           \<lparr>lim_MaxStreamsPerClient = d (lim_MaxStreamsPerClient l) 256,
            lim_HandshakeTimeout = d (lim_HandshakeTimeout l) (10 * Second),
            lim_IdleTimeout = d (lim_IdleTimeout l) (5 * Minute),
            lim_HeartbeatInterval = d (lim_HeartbeatInterval l) (30 * Second)\<rparr>\<rparr>))"
proof -
  have D: "applyDefaults c0 = (let l = sc_Limits c0; d = (\<lambda>v default. if v = 0 then default else v) in
     c0\<lparr>sc_Limits :=
           \<lparr>lim_MaxStreamsPerClient = d (lim_MaxStreamsPerClient l) 256,
            lim_HandshakeTimeout = d (lim_HandshakeTimeout l) (10 * Second),
            lim_IdleTimeout = d (lim_IdleTimeout l) (5 * Minute),
            lim_HeartbeatInterval = d (lim_HeartbeatInterval l) (30 * Second)\<rparr>\<rparr>)" for c0
    by (simp add: applyDefaults_def applyDefaults_limits_def Let_def)
  show ?thesis unfolding LoadServer_Inr_iff D Let_def by blast
qed

text \<open>
  C22: loading a client configuration that leaves the backoffs out succeeds when the rest is well
  formed: the defaults of 1 s and 60 s pass the validation that follows them.
\<close>

theorem LoadClient_defaults:
  assumes "ReadFile s path = Inr data" and "Decode True (bytes_str data) = Inr c"
    and "rc_InitialBackoff (cc_Reconnect c) = 0" and "rc_MaxBackoff (cc_Reconnect c) = 0"
    and "client_config_ok (c\<lparr>cc_Reconnect := \<lparr>rc_InitialBackoff = 1, rc_MaxBackoff = 1, rc_Jitter = False\<rparr>\<rparr>)"
  shows "LoadClient Decode s path = Inr (c\<lparr>cc_Reconnect := \<lparr>rc_InitialBackoff = 1 * Second,
    rc_MaxBackoff = 60 * Second, rc_Jitter = rc_Jitter (cc_Reconnect c)\<rparr>\<rparr>)"
proof -
  have "applyDefaults_reconnect (cc_Reconnect c) = \<lparr>rc_InitialBackoff = 1 * Second,
      rc_MaxBackoff = 60 * Second, rc_Jitter = rc_Jitter (cc_Reconnect c)\<rparr>"
    using assms(3,4) by (simp add: applyDefaults_reconnect_def)
  moreover have "reconnect_ok (applyDefaults_reconnect (cc_Reconnect c))"
    by (rule default_reconnect_ok [OF assms(3,4)])
  ultimately show ?thesis
    using assms(1,2,5) unfolding LoadClient_Inr_iff by (auto simp: applyDefaults_client_def client_config_ok_def)
qed

theorem LoadClient_defaults_witness:
  "LoadClient (\<lambda>_ _. Inr (alice_config\<lparr>cc_Reconnect := \<lparr>rc_InitialBackoff = 0, rc_MaxBackoff = 0, rc_Jitter = True\<rparr>\<rparr>))
     \<lparr>nodes = [''c'' \<mapsto> File [] mode_0644], denied = (\<lambda>_. False)\<rparr> ''c'' = (Inr alice_config :: unit load_error + ClientConfig)"
proof -
  let ?c = "alice_config\<lparr>cc_Reconnect := \<lparr>rc_InitialBackoff = 0, rc_MaxBackoff = 0, rc_Jitter = True\<rparr>\<rparr>"
  have "client_config_ok (?c\<lparr>cc_Reconnect := \<lparr>rc_InitialBackoff = 1, rc_MaxBackoff = 1, rc_Jitter = False\<rparr>\<rparr>)"
    using alice_config_ok by (simp add: client_config_ok_def reconnect_ok_def)
  moreover have "?c\<lparr>cc_Reconnect := \<lparr>rc_InitialBackoff = 1 * Second,
    rc_MaxBackoff = 60 * Second, rc_Jitter = rc_Jitter (cc_Reconnect ?c)\<rparr>\<rparr> = alice_config"
    by (simp add: alice_config_def)
  ultimately show ?thesis
    using LoadClient_defaults [of "\<lparr>nodes = [''c'' \<mapsto> File [] mode_0644], denied = (\<lambda>_. False)\<rparr>"
        "''c''" "[]" "\<lambda>_ _. Inr ?c" ?c]
    by (simp add: ReadFile_def)
qed

end
