(* ===== verification/GoJson.thy ===== *)
theory GoJson
  imports GoEncoding
begin

text \<open>
  Package \<open>encoding/json\<close>, as far as the protocol's messages use it: the text syntax with Go's
  string escaping (HTML-safe, UTF-8 checked) and un-escaping (surrogate pairs, replacement
  characters), the number grammar, arrays, objects and the nesting limit of 10000.  The parser
  recurses with fuel; \<open>parse_value_fuel\<close> shows that the fuel \<open>json_parse\<close> gives it is enough, and
  \<open>json_parse_print\<close> is the round trip.
\<close>

datatype json =
    JNull
  | JBool bool
  | JNum string
  | JStr string
  | JArr "json list"
  | JObj "(string \<times> json) list"

abbreviation dquote :: char where "dquote \<equiv> CHR 0x22"
abbreviation bslash :: char where "bslash \<equiv> CHR 0x5C"

section \<open>UTF-8\<close>

definition byte_in :: "nat \<Rightarrow> nat \<Rightarrow> char \<Rightarrow> bool" where
  "byte_in lo hi c = (lo \<le> (of_char c :: nat) \<and> (of_char c :: nat) \<le> hi)"

text \<open>\<open>n\<close> continuation bytes, the first of them in a narrower range.\<close>

definition conts :: "nat \<Rightarrow> nat \<Rightarrow> nat \<Rightarrow> string \<Rightarrow> bool" where
  "conts n lo hi s =
     (n \<le> length s \<and>
      (case s of [] \<Rightarrow> False | c # r \<Rightarrow> byte_in lo hi c \<and> list_all (byte_in 128 191) (take (n - 1) r)))"

text \<open>
  \<open>utf8.DecodeRune\<close>: the length of the well-formed sequence at the head, \<^const>\<open>None\<close> for
  \<open>RuneError\<close> (of width 1).
\<close>

fun rune_len :: "string \<Rightarrow> nat option" where
  "rune_len [] = None"
| "rune_len (a # s) =
     (let x = (of_char a :: nat) in
      if x < 128 then Some 1
      else if 194 \<le> x \<and> x \<le> 223 then (if conts 1 128 191 s then Some 2 else None)
      else if x = 224 then (if conts 2 160 191 s then Some 3 else None)
      else if x = 237 then (if conts 2 128 159 s then Some 3 else None)
      else if 225 \<le> x \<and> x \<le> 239 then (if conts 2 128 191 s then Some 3 else None)
      else if x = 240 then (if conts 3 144 191 s then Some 4 else None)
      else if 241 \<le> x \<and> x \<le> 243 then (if conts 3 128 191 s then Some 4 else None)
      else if x = 244 then (if conts 3 128 143 s then Some 4 else None)
      else None)"

function utf8_valid :: "string \<Rightarrow> bool" where
  "utf8_valid [] = True"
| "utf8_valid (c # s) =
     (case rune_len (c # s) of None \<Rightarrow> False | Some n \<Rightarrow> utf8_valid (drop (n - 1) s))"
  by pat_completeness auto
termination by (relation "measure length") auto

definition encode_rune :: "nat \<Rightarrow> string" where
  "encode_rune r =
     map char_of
       (if r < 128 then [r]
        else if r < 2048 then [192 + r div 64, 128 + r mod 64]
        else if r < 65536 then [224 + r div 4096, 128 + r div 64 mod 64, 128 + r mod 64]
        else [240 + r div 262144, 128 + r div 4096 mod 64, 128 + r div 64 mod 64, 128 + r mod 64])"

text \<open>U+FFFD, the replacement character.\<close>

definition replacement :: string where
  "replacement = [CHR 0xEF, CHR 0xBF, CHR 0xBD]"

section \<open>Strings\<close>

definition esc_ascii :: "char \<Rightarrow> string" where
  "esc_ascii c =
     (if c = dquote \<or> c = bslash then [bslash, c]
      else if c = CHR 0x08 then [bslash, CHR ''b'']
      else if c = CHR 0x0C then [bslash, CHR ''f'']
      else if c = CHR 0x0A then [bslash, CHR ''n'']
      else if c = CHR 0x0D then [bslash, CHR ''r'']
      else if c = CHR 0x09 then [bslash, CHR ''t'']
      else if (of_char c :: nat) < 32 \<or> c = CHR ''<'' \<or> c = CHR ''>'' \<or> c = CHR ''&''
      then [bslash, CHR ''u'', CHR ''0'', CHR ''0'',
            hextable ! (of_char c div 16), hextable ! (of_char c mod 16)]
      else [c])"

function esc :: "string \<Rightarrow> string" where
  "esc [] = []"
| "esc (c # s) =
     (if (of_char c :: nat) < 128 then esc_ascii c @ esc s
      else (case rune_len (c # s) of
              None \<Rightarrow> bslash # ''ufffd'' @ esc s
            | Some n \<Rightarrow>
                (let r = take n (c # s) in
                 (if r = [CHR 0xE2, CHR 0x80, CHR 0xA8] then bslash # ''u2028''
                  else if r = [CHR 0xE2, CHR 0x80, CHR 0xA9] then bslash # ''u2029''
                  else r) @ esc (drop (n - 1) s))))"
  by pat_completeness auto
termination by (relation "measure length") auto

definition quote_str :: "string \<Rightarrow> string" where
  "quote_str s = dquote # esc s @ [dquote]"

definition getu4 :: "string \<Rightarrow> nat option" where
  "getu4 s =
     (case s of
        a # b # c # d # _ \<Rightarrow>
          (case (hex_val a, hex_val b, hex_val c, hex_val d) of
             (Some w, Some x, Some y, Some z) \<Rightarrow> Some (w * 4096 + x * 256 + y * 16 + z)
           | _ \<Rightarrow> None)
      | _ \<Rightarrow> None)"

definition simple_escape :: "char \<Rightarrow> char option" where
  "simple_escape e =
     (if e = dquote \<or> e = bslash \<or> e = CHR ''/'' then Some e
      else if e = CHR ''b'' then Some (CHR 0x08)
      else if e = CHR ''f'' then Some (CHR 0x0C)
      else if e = CHR ''n'' then Some (CHR 0x0A)
      else if e = CHR ''r'' then Some (CHR 0x0D)
      else if e = CHR ''t'' then Some (CHR 0x09)
      else None)"

text \<open>
  The rune of a \<open>\u\<close> escape whose four digits start at \<open>t\<close>, and how many characters it takes from
  there: a high surrogate takes a following \<open>\u\<close> low surrogate with it, any other surrogate is
  replaced.
\<close>

definition unicode_escape :: "string \<Rightarrow> (string \<times> nat) option" where
  "unicode_escape t =
     (case getu4 t of
        None \<Rightarrow> None
      | Some r \<Rightarrow>
          if 55296 \<le> r \<and> r < 57344 then
            (case drop 4 t of
               x # y # t' \<Rightarrow>
                 (case getu4 t' of
                    Some r2 \<Rightarrow>
                      (if x = bslash \<and> y = CHR ''u'' \<and> r < 56320 \<and> 56320 \<le> r2 \<and> r2 < 57344
                       then Some (encode_rune ((r - 55296) * 1024 + (r2 - 56320) + 65536), 10)
                       else Some (replacement, 4))
                  | None \<Rightarrow> Some (replacement, 4))
             | _ \<Rightarrow> Some (replacement, 4))
          else Some (encode_rune r, 4))"

text \<open>The content of a string literal after its opening quote, and what follows its closing one.\<close>

function unq :: "string \<Rightarrow> (string \<times> string) option" where
  "unq [] = None"
| "unq (c # s) =
     (if c = dquote then Some ([], s)
      else if c = bslash then
        (case s of
           [] \<Rightarrow> None
         | e # t \<Rightarrow>
             (case simple_escape e of
                Some x \<Rightarrow> map_option (apfst (\<lambda>u. x # u)) (unq t)
              | None \<Rightarrow>
                  (if e = CHR ''u'' then
                     (case unicode_escape t of
                        None \<Rightarrow> None
                      | Some (r, k) \<Rightarrow> map_option (apfst (\<lambda>u. r @ u)) (unq (drop k t)))
                   else None)))
      else if (of_char c :: nat) < 32 then None
      else if (of_char c :: nat) < 128 then map_option (apfst (\<lambda>u. c # u)) (unq s)
      else (case rune_len (c # s) of
              None \<Rightarrow> map_option (apfst (\<lambda>u. replacement @ u)) (unq s)
            | Some n \<Rightarrow> map_option (apfst (\<lambda>u. take n (c # s) @ u)) (unq (drop (n - 1) s))))"
  by pat_completeness auto
termination by (relation "measure length") auto

section \<open>Numbers, arrays, objects\<close>

definition is_ws :: "char \<Rightarrow> bool" where
  "is_ws c = (c = CHR 0x20 \<or> c = CHR 0x09 \<or> c = CHR 0x0D \<or> c = CHR 0x0A)"

definition skip_ws :: "string \<Rightarrow> string" where
  "skip_ws s = dropWhile is_ws s"

definition num_int :: "string \<Rightarrow> (string \<times> string) option" where
  "num_int s =
     (case s of
        [] \<Rightarrow> None
      | c # r \<Rightarrow>
          if c = CHR ''0'' then Some ([c], r)
          else if is_digit c then Some (takeWhile is_digit s, dropWhile is_digit s)
          else None)"

definition num_frac :: "string \<Rightarrow> (string \<times> string) option" where
  "num_frac s =
     (case s of
        [] \<Rightarrow> Some ([], s)
      | c # r \<Rightarrow>
          if c = CHR ''.'' then
            (if takeWhile is_digit r = [] then None
             else Some (c # takeWhile is_digit r, dropWhile is_digit r))
          else Some ([], s))"

definition num_exp :: "string \<Rightarrow> (string \<times> string) option" where
  "num_exp s =
     (case s of
        [] \<Rightarrow> Some ([], s)
      | c # r \<Rightarrow>
          if c = CHR ''e'' \<or> c = CHR ''E'' then
            (let (sg, r') = (case r of
                               x # y \<Rightarrow> (if x = CHR ''+'' \<or> x = CHR ''-'' then ([x], y) else ([], r))
                             | [] \<Rightarrow> ([], r))
             in if takeWhile is_digit r' = [] then None
                else Some (c # sg @ takeWhile is_digit r', dropWhile is_digit r'))
          else Some ([], s))"

definition parse_num :: "string \<Rightarrow> (string \<times> string) option" where
  "parse_num s =
     (let (sg, s1) = (case s of
                        c # r \<Rightarrow> (if c = CHR ''-'' then ([c], r) else ([], s))
                      | [] \<Rightarrow> ([], s))
      in case num_int s1 of
           None \<Rightarrow> None
         | Some (i, s2) \<Rightarrow>
             (case num_frac s2 of
                None \<Rightarrow> None
              | Some (f, s3) \<Rightarrow>
                  (case num_exp s3 of
                     None \<Rightarrow> None
                   | Some (e, s4) \<Rightarrow> Some (sg @ i @ f @ e, s4))))"

fun parse_value :: "nat \<Rightarrow> nat \<Rightarrow> string \<Rightarrow> (json \<times> string) option"
  and parse_elems :: "nat \<Rightarrow> nat \<Rightarrow> string \<Rightarrow> (json list \<times> string) option"
  and parse_members :: "nat \<Rightarrow> nat \<Rightarrow> string \<Rightarrow> ((string \<times> json) list \<times> string) option"
where
  "parse_value 0 d s = None"
| "parse_value (Suc f) d s =
     (case skip_ws s of
        [] \<Rightarrow> None
      | c # r \<Rightarrow>
          if c = dquote then map_option (apfst JStr) (unq r)
          else if c = CHR ''{'' then
            (if d = 0 then None
             else (case skip_ws r of
                     [] \<Rightarrow> None
                   | x # r' \<Rightarrow>
                       if x = CHR ''}'' then Some (JObj [], r')
                       else map_option (apfst JObj) (parse_members f (d - 1) (x # r'))))
          else if c = CHR ''['' then
            (if d = 0 then None
             else (case skip_ws r of
                     [] \<Rightarrow> None
                   | x # r' \<Rightarrow>
                       if x = CHR '']'' then Some (JArr [], r')
                       else map_option (apfst JArr) (parse_elems f (d - 1) (x # r'))))
          else if take 4 (c # r) = ''null'' then Some (JNull, drop 4 (c # r))
          else if take 4 (c # r) = ''true'' then Some (JBool True, drop 4 (c # r))
          else if take 5 (c # r) = ''false'' then Some (JBool False, drop 5 (c # r))
          else map_option (apfst JNum) (parse_num (c # r)))"
| "parse_elems 0 d s = None"
| "parse_elems (Suc f) d s =
     (case parse_value f d s of
        None \<Rightarrow> None
      | Some (v, r) \<Rightarrow>
          (case skip_ws r of
             [] \<Rightarrow> None
           | x # r' \<Rightarrow>
               if x = CHR '','' then map_option (apfst (\<lambda>vs. v # vs)) (parse_elems f d r')
               else if x = CHR '']'' then Some ([v], r')
               else None))"
| "parse_members 0 d s = None"
| "parse_members (Suc f) d s =
     (case skip_ws s of
        [] \<Rightarrow> None
      | q # r \<Rightarrow>
          if q \<noteq> dquote then None
          else (case unq r of
                  None \<Rightarrow> None
                | Some (k, r1) \<Rightarrow>
                    (case skip_ws r1 of
                       [] \<Rightarrow> None
                     | x # r2 \<Rightarrow>
                         if x \<noteq> CHR '':'' then None
                         else (case parse_value f d r2 of
                                 None \<Rightarrow> None
                               | Some (v, r3) \<Rightarrow>
                                   (case skip_ws r3 of
                                      [] \<Rightarrow> None
                                    | y # r4 \<Rightarrow>
                                        if y = CHR '','' then
                                          map_option (apfst (\<lambda>ms. (k, v) # ms)) (parse_members f d r4)
                                        else if y = CHR ''}'' then Some ([(k, v)], r4)
                                        else None)))))"

definition json_fuel :: "string \<Rightarrow> nat" where
  "json_fuel s = 2 * length s + 2"

definition maxNestingDepth :: nat where
  "maxNestingDepth = 10000"

definition json_parse :: "string \<Rightarrow> json option" where
  "json_parse s =
     (case parse_value (json_fuel s) maxNestingDepth s of
        Some (v, r) \<Rightarrow> (if skip_ws r = [] then Some v else None)
      | None \<Rightarrow> None)"

section \<open>Printing\<close>

fun intercalate :: "string list \<Rightarrow> string" where
  "intercalate [] = []"
| "intercalate [x] = x"
| "intercalate (x # y # xs) = x @ CHR '','' # intercalate (y # xs)"

fun json_print :: "json \<Rightarrow> string" where
  "json_print JNull = ''null''"
| "json_print (JBool True) = ''true''"
| "json_print (JBool False) = ''false''"
| "json_print (JNum l) = l"
| "json_print (JStr s) = quote_str s"
| "json_print (JArr vs) = CHR ''['' # intercalate (map json_print vs) @ '']''"
| "json_print (JObj ms) =
     CHR ''{'' # intercalate (map (\<lambda>(k, v). quote_str k @ CHR '':'' # json_print v) ms) @ ''}''"

section \<open>A string survives quoting\<close>

lemma rune_len_bounds: "rune_len (c # s) = Some n \<Longrightarrow> 1 \<le> n \<and> n \<le> Suc (length s)"
  by (auto simp: conts_def Let_def split: if_splits)

lemma conts_take: "conts n lo hi s \<Longrightarrow> 0 < n \<Longrightarrow> conts n lo hi (take n s @ t)"
  by (cases s; cases n) (auto simp: conts_def)

lemma conts_length: "conts n lo hi s \<Longrightarrow> n \<le> length s"
  by (simp add: conts_def)

lemma rune_len_take:
  assumes "rune_len (c # s) = Some n"
  shows "rune_len (take n (c # s) @ t) = Some n"
  using assms conts_take [of 1 _ _ s t] conts_take [of 2 _ _ s t] conts_take [of 3 _ _ s t]
  by (auto simp: Let_def numeral_3_eq_3 numeral_2_eq_2 split: if_splits)

lemma hex_val_zero: "hex_val (CHR ''0'') = Some 0"
  by code_simp

lemma unicode_escape_ascii:
  assumes "(of_char c :: nat) < 128"
  shows "unicode_escape (CHR ''0'' # CHR ''0'' # hextable ! (of_char c div 16)
           # hextable ! (of_char c mod 16) # t) = Some ([c], 4)"
proof -
  have "hex_val (hextable ! (of_char c div 16)) = Some (of_char c div 16)"
    using assms by (intro hex_val_hextable) simp
  moreover have "hex_val (hextable ! (of_char c mod 16)) = Some (of_char c mod 16)"
    by (intro hex_val_hextable) simp
  ultimately show ?thesis
    using assms by (simp add: unicode_escape_def getu4_def hex_val_zero encode_rune_def mult.commute)
qed

lemma simple_escape_facts:
  "simple_escape dquote = Some dquote" "simple_escape bslash = Some bslash"
  "simple_escape (CHR ''b'') = Some (CHR 0x08)" "simple_escape (CHR ''f'') = Some (CHR 0x0C)"
  "simple_escape (CHR ''n'') = Some (CHR 0x0A)" "simple_escape (CHR ''r'') = Some (CHR 0x0D)"
  "simple_escape (CHR ''t'') = Some (CHR 0x09)" "simple_escape (CHR ''u'') = None"
  by (simp_all add: simple_escape_def)

lemma append_single: "(@) [c] = (#) c"
  by (rule ext) simp

lemma unq_esc_ascii:
  assumes "(of_char c :: nat) < 128"
  shows "unq (esc_ascii c @ t) = map_option (apfst (\<lambda>u. c # u)) (unq t)"
  using assms
  by (auto simp: esc_ascii_def simple_escape_facts unicode_escape_ascii append_single)

lemma unq_rune:
  assumes "rune_len (c # s) = Some n" and "128 \<le> (of_char c :: nat)"
  shows "unq (take n (c # s) @ t) = map_option (apfst (\<lambda>u. take n (c # s) @ u)) (unq t)"
proof -
  have b: "1 \<le> n" "n \<le> Suc (length s)" using rune_len_bounds [OF assms(1)] by auto
  then have e: "take n (c # s) @ t = c # (take (n - 1) s @ t)" by (cases n) auto
  have "c \<noteq> dquote" "c \<noteq> bslash" using assms(2) by auto
  moreover have "rune_len (c # (take (n - 1) s @ t)) = Some n"
    using rune_len_take [OF assms(1), of t] e by simp
  moreover have "take n (c # (take (n - 1) s @ t)) = take n (c # s)"
    "drop (n - 1) (take (n - 1) s @ t) = t" using b by (cases n; simp)+
  ultimately show ?thesis using assms(2) unfolding e by (simp del: rune_len.simps)
qed

lemma line_sep_runes:
  "encode_rune 8232 = [CHR 0xE2, CHR 0x80, CHR 0xA8]"
  "encode_rune 8233 = [CHR 0xE2, CHR 0x80, CHR 0xA9]"
  by (simp_all add: encode_rune_def char_of_def bit_Suc_0_iff)

lemma unq_line_sep:
  "unq (bslash # CHR ''u'' # CHR ''2'' # CHR ''0'' # CHR ''2'' # CHR ''8'' # t) =
     map_option (apfst ((@) [CHR 0xE2, CHR 0x80, CHR 0xA8])) (unq t)"
  "unq (bslash # CHR ''u'' # CHR ''2'' # CHR ''0'' # CHR ''2'' # CHR ''9'' # t) =
     map_option (apfst ((@) [CHR 0xE2, CHR 0x80, CHR 0xA9])) (unq t)"
  by (simp_all add: unicode_escape_def getu4_def hex_val_def line_sep_runes simple_escape_facts)

lemma unq_esc:
  "utf8_valid s \<Longrightarrow> unq (esc s @ dquote # rest) = Some (s, rest)"
proof (induction s rule: esc.induct)
  case (2 c s)
  show ?case
  proof (cases "(of_char c :: nat) < 128")
    case True
    then have "rune_len (c # s) = Some 1" by simp
    with 2 True show ?thesis by (simp add: unq_esc_ascii)
  next
    case False
    with "2.prems" obtain n where n: "rune_len (c # s) = Some n" "utf8_valid (drop (n - 1) s)"
      by (auto split: option.splits)
    have IH: "unq (esc (drop (n - 1) s) @ dquote # rest) = Some (drop (n - 1) s, rest)"
      using "2.IH"(3) [OF False n(1) refl n(2)] by simp
    have tk: "take n (c # s) @ drop (n - 1) s = c # s"
      using rune_len_bounds [OF n(1)] by (cases n) auto
    show ?thesis
      using False n(1) IH tk unq_rune [OF n(1)]
      by (auto simp: Let_def unq_line_sep simp del: rune_len.simps unq.simps)
  qed
qed simp

section \<open>The parser consumes its input and has fuel enough\<close>

lemma length_skip_ws: "length (skip_ws s) \<le> length s"
  by (simp add: skip_ws_def length_dropWhile_le)

lemma skip_ws_Cons_length: "skip_ws s = x # r \<Longrightarrow> length r < length s"
  using length_skip_ws [of s] by simp

lemma unq_shrinks: "unq s = Some (u, r) \<Longrightarrow> length r < length s"
proof (induction s arbitrary: u r rule: unq.induct)
  case (2 c s)
  then show ?case
    by (fastforce split: if_splits list.splits option.splits simp del: rune_len.simps
        simp: less_Suc_eq_le dest: order_less_imp_le)
qed simp

lemma num_int_shrinks: "num_int s = Some (i, r) \<Longrightarrow> length r < length s"
  using length_dropWhile_le [of is_digit]
  by (auto simp: num_int_def le_imp_less_Suc split: list.splits if_splits)

lemma num_frac_le: "num_frac s = Some (i, r) \<Longrightarrow> length r \<le> length s"
  using length_dropWhile_le [of is_digit]
  by (auto simp: num_frac_def le_SucI split: list.splits if_splits)

lemma num_exp_le: "num_exp s = Some (i, r) \<Longrightarrow> length r \<le> length s"
  using length_dropWhile_le [of is_digit]
  by (auto simp: num_exp_def le_SucI Let_def split: list.splits if_splits prod.splits)

lemma parse_num_shrinks: "parse_num s = Some (l, r) \<Longrightarrow> length r < length s"
  by (auto simp: parse_num_def Let_def split: list.splits if_splits option.splits prod.splits
      dest!: num_int_shrinks num_frac_le num_exp_le)

lemma parse_shrinks:
  "parse_value f d s = Some (v, r) \<Longrightarrow> length r < length s"
  "parse_elems f d s = Some (vs, r) \<Longrightarrow> length r < length s"
  "parse_members f d s = Some (ms, r) \<Longrightarrow> length r < length s"
proof (induction f d s and f d s and f d s arbitrary: v r and vs r and ms r
    rule: parse_value_parse_elems_parse_members.induct)
  case (2 f d s)
  show ?case
  proof (cases "skip_ws s")
    case (Cons c t)
    note t = skip_ws_Cons_length [OF Cons]
    show ?thesis
      using 2 Cons t length_skip_ws [of t]
      by (fastforce split: if_splits list.splits dest: unq_shrinks parse_num_shrinks)
  qed (use 2 in simp)
next
  case (4 f d s)
  then show ?case
    by (fastforce split: option.splits list.splits if_splits dest: skip_ws_Cons_length)
next
  case (6 f d s)
  then show ?case
    by (fastforce split: option.splits list.splits if_splits dest: skip_ws_Cons_length unq_shrinks)
qed simp_all

lemma parse_fuel:
  "(\<forall>d s g. 2 * length s + 1 \<le> f \<longrightarrow> 2 * length s + 1 \<le> g \<longrightarrow>
      parse_value f d s = parse_value g d s) \<and>
   (\<forall>d s g. 2 * length s + 2 \<le> f \<longrightarrow> 2 * length s + 2 \<le> g \<longrightarrow>
      parse_elems f d s = parse_elems g d s) \<and>
   (\<forall>d s g. 2 * length s + 2 \<le> f \<longrightarrow> 2 * length s + 2 \<le> g \<longrightarrow>
      parse_members f d s = parse_members g d s)"
  (is "?V f \<and> ?E f \<and> ?M f")
proof (induction f)
  case (Suc f)
  then have V: "?V f" and E: "?E f" and M: "?M f" by auto
  have "?V (Suc f)"
  proof (intro allI impI)
    fix d :: nat and s :: string and g :: nat
    assume "2 * length s + 1 \<le> Suc f" "2 * length s + 1 \<le> g"
    then obtain g' where g: "g = Suc g'" and b: "2 * length s \<le> f" "2 * length s \<le> g'"
      by (cases g) auto
    show "parse_value (Suc f) d s = parse_value g d s"
    proof (cases "skip_ws s")
      case (Cons c r)
      show ?thesis
      proof (cases "skip_ws r")
        case Nil
        with Cons show ?thesis by (simp add: g)
      next
        case inner: (Cons x t)
        have "length (x # t) < length s"
          using skip_ws_Cons_length [OF Cons] length_skip_ws [of r] inner by simp
        then have "parse_elems f e (x # t) = parse_elems g' e (x # t)"
          "parse_members f e (x # t) = parse_members g' e (x # t)" for e
          using b by (intro E [rule_format] M [rule_format]; simp)+
        with Cons inner show ?thesis by (simp add: g)
      qed
    qed (simp add: g)
  qed
  moreover have "?E (Suc f)"
  proof (intro allI impI)
    fix d :: nat and s :: string and g :: nat
    assume "2 * length s + 2 \<le> Suc f" "2 * length s + 2 \<le> g"
    then obtain g' where g: "g = Suc g'" and b: "2 * length s + 1 \<le> f" "2 * length s + 1 \<le> g'"
      by (cases g) auto
    have "parse_elems f e t = parse_elems g' e t" if "length t < length s" for e t
      using that b by (intro E [rule_format]) simp_all
    moreover have "length t < length s" if "parse_value g' d s = Some (v, r)" "skip_ws r = x # t" for v r x t
      using parse_shrinks(1) [OF that(1)] skip_ws_Cons_length [OF that(2)] by simp
    moreover have "parse_value f d s = parse_value g' d s" using b by (intro V [rule_format])
    ultimately show "parse_elems (Suc f) d s = parse_elems g d s"
      unfolding g by (auto split: list.split option.split)
  qed
  moreover have "?M (Suc f)"
  proof (intro allI impI)
    fix d :: nat and s :: string and g :: nat
    assume "2 * length s + 2 \<le> Suc f" "2 * length s + 2 \<le> g"
    then obtain g' where g: "g = Suc g'" and b: "2 * length s + 1 \<le> f" "2 * length s + 1 \<le> g'"
      by (cases g) auto
    have sub: "parse_members f e t = parse_members g' e t" "parse_value f e t = parse_value g' e t"
      if "length t < length s" for e t
      using that b by (intro M [rule_format] V [rule_format]; simp)+
    have val: "parse_value f d r2 = parse_value g' d r2"
      and mem: "parse_value g' d r2 = Some (v, r3) \<Longrightarrow> skip_ws r3 = y # t \<Longrightarrow>
        parse_members f d t = parse_members g' d t"
      if "skip_ws s = q # r" "unq r = Some (k, r1)" "skip_ws r1 = x # r2" for q r k r1 x r2 v r3 y t
    proof -
      have len: "length r2 < length s"
        using skip_ws_Cons_length [OF that(1)] unq_shrinks [OF that(2)] skip_ws_Cons_length [OF that(3)]
        by simp
      then show "parse_value f d r2 = parse_value g' d r2" by (rule sub)
      show "parse_members f d t = parse_members g' d t"
        if "parse_value g' d r2 = Some (v, r3)" "skip_ws r3 = y # t"
        using len parse_shrinks(1) [OF that(1)] skip_ws_Cons_length [OF that(2)] by (intro sub) simp
    qed
    show "parse_members (Suc f) d s = parse_members g d s"
      unfolding g by (simp add: val mem split: list.split option.split)
  qed
  ultimately show ?case by simp
qed simp

text \<open>With the fuel \<open>json_fuel\<close> gives it, the parser's answer is the one any larger fuel gives.\<close>

lemma parse_value_fuel: "json_fuel s \<le> f \<Longrightarrow> parse_value f d s = parse_value (json_fuel s) d s"
  using conjunct1 [OF parse_fuel [of f], rule_format, of s "json_fuel s" d]
  by (simp add: json_fuel_def del: parse_value.simps)

section \<open>Parsing what was printed\<close>

definition int_lit :: "string \<Rightarrow> bool" where
  "int_lit l =
     (let ds = (case l of c # r \<Rightarrow> (if c = CHR ''-'' then r else l) | [] \<Rightarrow> []) in
      ds \<noteq> [] \<and> list_all is_digit ds \<and> (hd ds = CHR ''0'' \<longrightarrow> tl ds = []))"

text \<open>What may follow a number literal without becoming part of it.\<close>

definition delim :: "string \<Rightarrow> bool" where
  "delim s = (case s of [] \<Rightarrow> True | c # _ \<Rightarrow> \<not> is_digit c \<and> c \<notin> {CHR ''.'', CHR ''e'', CHR ''E''})"

fun json_ok :: "nat \<Rightarrow> json \<Rightarrow> bool" where
  "json_ok d JNull = True"
| "json_ok d (JBool b) = True"
| "json_ok d (JNum l) = int_lit l"
| "json_ok d (JStr s) = utf8_valid s"
| "json_ok d (JArr vs) = (0 < d \<and> list_all (json_ok (d - 1)) vs)"
| "json_ok d (JObj ms) = (0 < d \<and> list_all (\<lambda>(k, v). utf8_valid k \<and> json_ok (d - 1) v) ms)"

lemma digits_append:
  assumes "list_all is_digit ds" and "delim rest"
  shows "takeWhile is_digit (ds @ rest) = ds" and "dropWhile is_digit (ds @ rest) = rest"
proof -
  have "takeWhile is_digit rest = []" "dropWhile is_digit rest = rest"
    using assms(2) by (cases rest; simp add: delim_def)+
  then show "takeWhile is_digit (ds @ rest) = ds" "dropWhile is_digit (ds @ rest) = rest"
    using assms(1) by (simp_all add: list_all_iff)
qed

lemma num_int_digits:
  assumes "ds \<noteq> []" and "list_all is_digit ds" and "hd ds = CHR ''0'' \<longrightarrow> tl ds = []"
    and "delim rest"
  shows "num_int (ds @ rest) = Some (ds, rest)"
  using assms digits_append [OF assms(2,4)] by (cases ds) (auto simp: num_int_def)

lemma parse_num_int_lit:
  assumes "int_lit l" and "delim rest"
  shows "parse_num (l @ rest) = Some (l, rest)"
proof -
  have fe: "num_frac rest = Some ([], rest)" "num_exp rest = Some ([], rest)"
    using assms(2) by (cases rest; simp add: num_frac_def num_exp_def delim_def)+
  show ?thesis
  proof (cases l)
    case (Cons c r)
    show ?thesis
      using assms Cons num_int_digits [of r rest] num_int_digits [of l rest] fe
      by (cases "c = CHR ''-''") (auto simp: parse_num_def int_lit_def Let_def)
  qed (use assms in \<open>simp add: int_lit_def\<close>)
qed

lemma int_lit_hd: "int_lit l \<Longrightarrow> \<exists>c t. l = c # t \<and> (c = CHR ''-'' \<or> is_digit c)"
  by (auto simp: int_lit_def Let_def split: list.splits if_splits)

lemma hd_not_special:
  assumes "c = CHR ''-'' \<or> is_digit c"
  shows "\<not> is_ws c" "c \<noteq> CHR '']''" "c \<noteq> dquote" "c \<noteq> CHR ''{''" "c \<noteq> CHR ''[''" "c \<noteq> CHR ''n''"
    "c \<noteq> CHR ''t''" "c \<noteq> CHR ''f''"
  using assms by (auto simp: is_digit_def is_ws_def)

lemma json_print_hd:
  assumes "json_ok d j"
  shows "\<exists>c t. json_print j = c # t \<and> \<not> is_ws c \<and> c \<noteq> CHR '']''"
proof (cases j)
  case (JNum l)
  with assms obtain c t where "l = c # t" "c = CHR ''-'' \<or> is_digit c"
    using int_lit_hd [of l] by (metis json_ok.simps(3))
  with JNum hd_not_special(1,2) [of c] show ?thesis by simp
next
  case (JBool b)
  then show ?thesis by (cases b) (simp_all add: is_ws_def)
qed (simp_all add: quote_str_def is_ws_def)

lemma skip_ws_nonblank: "\<not> is_ws c \<Longrightarrow> skip_ws (c # t) = c # t"
  by (simp add: skip_ws_def)

lemma int_lit_show_int [simp]: "int_lit (show_int i)"
proof -
  have nat: "int_lit (show_nat n)" "int_lit (CHR ''-'' # show_nat n)" for n
  proof -
    obtain c t where ct: "show_nat n = c # t" using show_nat_nonempty [of n] by (cases "show_nat n") auto
    have dig: "is_digit c" "list_all is_digit t" using show_nat_digits [of n] ct by auto
    have "t = []" if "c = CHR ''0''"
      using that hd_show_nat [of n] ct by (auto simp: show_nat.simps digit_chr_def)
    moreover have "c \<noteq> CHR ''-''" using dig by (auto simp: is_digit_def)
    ultimately show "int_lit (show_nat n)" "int_lit (CHR ''-'' # show_nat n)"
      using dig ct by (auto simp: int_lit_def)
  qed
  then show ?thesis by (simp add: show_int_def)
qed

lemma parse_elems_print:
  assumes IH: "\<And>v f d rest. v \<in> set vs \<Longrightarrow> json_ok d v \<Longrightarrow> delim rest \<Longrightarrow>
      2 * length (json_print v) \<le> f \<Longrightarrow> parse_value f d (json_print v @ rest) = Some (v, rest)"
    and "vs \<noteq> []" and "list_all (json_ok d) vs"
    and "2 * length (intercalate (map json_print vs)) + 1 \<le> f"
  shows "parse_elems f d (intercalate (map json_print vs) @ CHR '']'' # rest) = Some (vs, rest)"
  using assms
proof (induction vs arbitrary: f rule: induct_list012)
  case (2 v)
  then obtain g where g: "f = Suc g" by (cases f) auto
  have "parse_value g d (json_print v @ CHR '']'' # rest) = Some (v, CHR '']'' # rest)"
    using 2 g by (intro "2.prems"(1)) (auto simp: delim_def is_digit_def)
  then show ?case by (simp add: g skip_ws_nonblank is_ws_def)
next
  case (3 v w vs)
  then obtain g where g: "f = Suc g" by (cases f) auto
  let ?t = "intercalate (map json_print (w # vs)) @ CHR '']'' # rest"
  have "parse_value g d (json_print v @ CHR '','' # ?t) = Some (v, CHR '','' # ?t)"
    using 3 g by (intro "3.prems"(1)) (auto simp: delim_def is_digit_def)
  moreover have "parse_elems g d ?t = Some (w # vs, rest)"
    using "3.prems" g by (intro "3.IH") (auto simp del: parse_value.simps)
  ultimately show ?case by (simp add: g skip_ws_nonblank is_ws_def)
qed simp

lemma unq_quoted: "utf8_valid k \<Longrightarrow> unq (esc k @ dquote # t) = Some (k, t)"
  by (rule unq_esc)

lemma parse_members_print:
  assumes IH: "\<And>k v f d rest. (k, v) \<in> set ms \<Longrightarrow> json_ok d v \<Longrightarrow> delim rest \<Longrightarrow>
      2 * length (json_print v) \<le> f \<Longrightarrow> parse_value f d (json_print v @ rest) = Some (v, rest)"
    and "ms \<noteq> []" and "list_all (\<lambda>(k, v). utf8_valid k \<and> json_ok d v) ms"
    and "2 * length (intercalate (map (\<lambda>(k, v). quote_str k @ CHR '':'' # json_print v) ms)) \<le> f"
  shows "parse_members f d
    (intercalate (map (\<lambda>(k, v). quote_str k @ CHR '':'' # json_print v) ms) @ CHR ''}'' # rest)
    = Some (ms, rest)"
  using assms
proof (induction ms arbitrary: f rule: induct_list012)
  case (2 m)
  obtain k v where m: "m = (k, v)" by fastforce
  from 2 m obtain g where g: "f = Suc g" by (cases f) (auto simp: quote_str_def)
  have "parse_value g d (json_print v @ CHR ''}'' # rest) = Some (v, CHR ''}'' # rest)"
    using 2 g m by (intro "2.prems"(1)) (auto simp: delim_def is_digit_def quote_str_def)
  with 2 m show ?case by (simp add: g skip_ws_nonblank is_ws_def quote_str_def unq_quoted)
next
  case (3 m n ms)
  obtain k v where m: "m = (k, v)" by fastforce
  from 3 m obtain g where g: "f = Suc g" by (cases f) (auto simp: quote_str_def)
  let ?t = "intercalate (map (\<lambda>(k, v). quote_str k @ CHR '':'' # json_print v) (n # ms)) @ CHR ''}'' # rest"
  have "parse_value g d (json_print v @ CHR '','' # ?t) = Some (v, CHR '','' # ?t)"
    using 3 g m by (intro "3.prems"(1)) (auto simp: delim_def is_digit_def quote_str_def)
  moreover have "parse_members g d ?t = Some (n # ms, rest)"
  proof (rule "3.IH"(2))
    show "parse_value f d (json_print v @ rest) = Some (v, rest)"
      if "(k, v) \<in> set (n # ms)" "json_ok d v" "delim rest" "2 * length (json_print v) \<le> f" for k v f d rest
      using that by (intro "3.prems"(1) [of k]) simp_all
  qed (use "3.prems" g m in \<open>simp_all add: quote_str_def\<close>)
  ultimately show ?case
    using "3.prems"(3) m by (simp add: g skip_ws_nonblank is_ws_def quote_str_def unq_quoted)
qed simp

lemma intercalate_hd: "x = c # t \<Longrightarrow> \<exists>u. intercalate (x # xs) = c # u"
  by (cases xs) auto

lemma parse_value_print:
  "json_ok d j \<Longrightarrow> delim rest \<Longrightarrow> 2 * length (json_print j) \<le> f \<Longrightarrow>
     parse_value f d (json_print j @ rest) = Some (j, rest)"
proof (induction j arbitrary: f d rest)
  case JNull
  then show ?case by (cases f) (simp_all add: skip_ws_nonblank is_ws_def)
next
  case (JBool b)
  then show ?case by (cases f; cases b) (simp_all add: skip_ws_nonblank is_ws_def)
next
  case (JNum l)
  then obtain c t where c: "l = c # t" "c = CHR ''-'' \<or> is_digit c" using int_lit_hd [of l] by fastforce
  note ns = hd_not_special [OF c(2)]
  obtain g where "f = Suc g" using JNum c by (cases f) auto
  moreover have "parse_num (c # (t @ rest)) = Some (l, rest)"
    using parse_num_int_lit [of l rest] JNum c(1) by simp
  ultimately show ?case using c(1) ns by (simp add: skip_ws_nonblank)
next
  case (JStr s)
  then show ?case
    by (cases f) (simp_all add: quote_str_def skip_ws_nonblank is_ws_def unq_quoted)
next
  case (JArr vs)
  then obtain g where g: "f = Suc g" by (cases f) auto
  show ?case
  proof (cases vs)
    case Nil
    with JArr g show ?thesis by (simp add: skip_ws_nonblank is_ws_def)
  next
    case (Cons v ws)
    then obtain c t where "json_print v = c # t" and c: "\<not> is_ws c" "c \<noteq> CHR '']''"
      using JArr.prems(1) json_print_hd [of "d - 1" v] by auto
    then obtain u where u: "intercalate (map json_print vs) = c # u"
      using intercalate_hd [of "json_print v" c t] Cons by auto
    have "parse_elems g (d - 1) (intercalate (map json_print vs) @ CHR '']'' # rest) = Some (vs, rest)"
      using JArr Cons g by (intro parse_elems_print) auto
    then show ?thesis using JArr.prems(1) u c g by (simp add: skip_ws_nonblank is_ws_def)
  qed
next
  case (JObj ms)
  then obtain g where g: "f = Suc g" by (cases f) auto
  show ?case
  proof (cases ms)
    case Nil
    with JObj g show ?thesis by (simp add: skip_ws_nonblank is_ws_def)
  next
    case (Cons m ns)
    obtain k v where "m = (k, v)" by fastforce
    then obtain u where u: "intercalate (map (\<lambda>(k, v). quote_str k @ CHR '':'' # json_print v) ms) = dquote # u"
      using intercalate_hd [of "quote_str k @ CHR '':'' # json_print v" dquote] Cons
      by (auto simp: quote_str_def)
    have IH: "parse_value f d (json_print v @ rest) = Some (v, rest)"
      if "(k, v) \<in> set ms" "json_ok d v" "delim rest" "2 * length (json_print v) \<le> f" for k v f d rest
      using that by (intro JObj.IH [of "(k, v)" v]) (simp_all add: snds.simps)
    have "parse_members g (d - 1)
      (intercalate (map (\<lambda>(k, v). quote_str k @ CHR '':'' # json_print v) ms) @ CHR ''}'' # rest)
      = Some (ms, rest)"
      using JObj.prems Cons g by (intro parse_members_print IH) simp_all
    then show ?thesis using JObj.prems(1) u g by (simp add: skip_ws_nonblank is_ws_def)
  qed
qed

lemma json_parse_print: "json_ok maxNestingDepth j \<Longrightarrow> json_parse (json_print j) = Some j"
proof -
  assume "json_ok maxNestingDepth j"
  then have "parse_value (json_fuel (json_print j)) maxNestingDepth (json_print j) = Some (j, [])"
    using parse_value_print [of maxNestingDepth j "[]" "json_fuel (json_print j)"]
    by (simp add: delim_def json_fuel_def)
  then show ?thesis by (simp add: json_parse_def skip_ws_def)
qed

end
