(* ===== verification/Framing.thy ===== *)
theory Framing
  imports Prelude
begin

text \<open>
  Package \<open>internal/proto\<close>, file \<open>framing.go\<close>: a message is a 4-byte big-endian length followed by
  that many bytes of JSON, at most \<open>MaxMessageSize\<close>.  The Go functions take \<open>v any\<close> and call
  \<open>json.Marshal\<close> and \<open>json.Unmarshal\<close>; here the two are arguments, and the interface
  \<open>message_codec\<close> states the round trip framing relies on.  It is interpreted on the JSON codecs of
  the protocol's messages in theory \<open>Messages\<close>.
\<close>

section \<open>Readers and writers\<close>

datatype io_error = EOF | ErrUnexpectedEOF | IOFail string

text \<open>
  An \<open>io.Reader\<close> is the bytes it will still deliver and the error it then returns (\<open>EOF\<close>, or a
  deadline or network error).
\<close>

record reader =
  rd_data :: bytes
  rd_end :: io_error

definition ReadFull :: "reader \<Rightarrow> nat \<Rightarrow> (io_error + bytes) \<times> reader" where
  "ReadFull r n =
     (if n \<le> length (rd_data r) then (Inr (take n (rd_data r)), r\<lparr>rd_data := drop n (rd_data r)\<rparr>)
      else (Inl (if rd_data r \<noteq> [] \<and> rd_end r = EOF then ErrUnexpectedEOF else rd_end r),
            r\<lparr>rd_data := []\<rparr>))"

text \<open>
  An \<open>io.Writer\<close> is what it has taken so far, the number of bytes it will still take before it
  fails (\<^const>\<open>None\<close>: no limit) and the error it then returns.
\<close>

record writer =
  wr_out :: bytes
  wr_room :: "nat option"
  wr_err :: io_error

definition Write :: "writer \<Rightarrow> bytes \<Rightarrow> io_error option \<times> writer" where
  "Write w bs =
     (case wr_room w of
        None \<Rightarrow> (None, w\<lparr>wr_out := wr_out w @ bs\<rparr>)
      | Some k \<Rightarrow>
          (if length bs \<le> k
           then (None, w\<lparr>wr_out := wr_out w @ bs, wr_room := Some (k - length bs)\<rparr>)
           else (Some (wr_err w), w\<lparr>wr_out := wr_out w @ take k bs, wr_room := Some 0\<rparr>)))"

section \<open>WriteMessage and ReadMessage\<close>

definition MaxMessageSize :: nat where
  "MaxMessageSize = 64 * 1024"

datatype proto_error =
    MarshalError string
  | ErrMessageTooLarge
  | UnmarshalError string
  | IOError io_error

definition WriteMessage ::
  "('v \<Rightarrow> string + bytes) \<Rightarrow> writer \<Rightarrow> 'v \<Rightarrow> proto_error option \<times> writer" where
  "WriteMessage marshal w v =
     (case marshal v of
        Inl e \<Rightarrow> (Some (MarshalError e), w)
      | Inr body \<Rightarrow>
          if length body > MaxMessageSize then (Some ErrMessageTooLarge, w)
          else (case Write w (PutUint32 (word_of_nat (length body))) of
                  (Some e, w') \<Rightarrow> (Some (IOError e), w')
                | (None, w') \<Rightarrow>
                    (case Write w' body of
                       (Some e, w'') \<Rightarrow> (Some (IOError e), w'')
                     | (None, w'') \<Rightarrow> (None, w''))))"

definition ReadMessage ::
  "(bytes \<Rightarrow> string + 'v) \<Rightarrow> reader \<Rightarrow> (proto_error + 'v) \<times> reader" where
  "ReadMessage unmarshal r =
     (case ReadFull r 4 of
        (Inl e, r') \<Rightarrow> (Inl (IOError e), r')
      | (Inr hdr, r') \<Rightarrow>
          let n = unat (Uint32 hdr) in
          if n > MaxMessageSize then (Inl ErrMessageTooLarge, r')
          else (case ReadFull r' n of
                  (Inl e, r'') \<Rightarrow> (Inl (IOError e), r'')
                | (Inr body, r'') \<Rightarrow>
                    (case unmarshal body of
                       Inl e \<Rightarrow> (Inl (UnmarshalError e), r'')
                     | Inr v \<Rightarrow> (Inr v, r''))))"

text \<open>The bytes of one frame.\<close>

definition frame :: "bytes \<Rightarrow> bytes" where
  "frame body = PutUint32 (word_of_nat (length body)) @ body"

section \<open>Lemmas\<close>

lemma MaxMessageSize_less: "n \<le> MaxMessageSize \<Longrightarrow> n < 2 ^ 32"
  by (simp add: MaxMessageSize_def)

lemma length_frame [simp, codec_simps]: "length (frame body) = 4 + length body"
  by (simp add: frame_def)

lemma ReadFull_append:
  "rd_data r = x @ y \<Longrightarrow> ReadFull r (length x) = (Inr x, r\<lparr>rd_data := y\<rparr>)"
  by (simp add: ReadFull_def)

lemma ReadFull_short:
  "length (rd_data r) < n \<Longrightarrow>
     ReadFull r n = (Inl (if rd_data r \<noteq> [] \<and> rd_end r = EOF then ErrUnexpectedEOF else rd_end r),
                     r\<lparr>rd_data := []\<rparr>)"
  by (simp add: ReadFull_def)

lemma ReadMessage_header:
  assumes "rd_data r = PutUint32 v @ y"
  shows "ReadMessage unmarshal r =
     (if unat v > MaxMessageSize then (Inl ErrMessageTooLarge, r\<lparr>rd_data := y\<rparr>)
      else (case ReadFull (r\<lparr>rd_data := y\<rparr>) (unat v) of
              (Inl e, r'') \<Rightarrow> (Inl (IOError e), r'')
            | (Inr body, r'') \<Rightarrow>
                (case unmarshal body of
                   Inl e \<Rightarrow> (Inl (UnmarshalError e), r'')
                 | Inr x \<Rightarrow> (Inr x, r''))))"
  using ReadFull_append [OF assms] by (simp add: ReadMessage_def Let_def)

lemma ReadMessage_frame:
  assumes "rd_data r = frame body @ y" and "length body \<le> MaxMessageSize"
  shows "ReadMessage unmarshal r =
     (case unmarshal body of
        Inl e \<Rightarrow> (Inl (UnmarshalError e), r\<lparr>rd_data := y\<rparr>)
      | Inr x \<Rightarrow> (Inr x, r\<lparr>rd_data := y\<rparr>))"
proof -
  have hdr: "rd_data r = PutUint32 (word_of_nat (length body)) @ (body @ y)"
    using assms(1) by (simp add: frame_def)
  have "unat (word_of_nat (length body) :: uint32) = length body"
    using MaxMessageSize_less [OF assms(2)] by simp
  moreover have "ReadFull (r\<lparr>rd_data := body @ y\<rparr>) (length body) = (Inr body, r\<lparr>rd_data := y\<rparr>)"
    using ReadFull_append [of "r\<lparr>rd_data := body @ y\<rparr>" body y] by simp
  ultimately show ?thesis
    using ReadMessage_header [OF hdr, of unmarshal] assms(2) by (simp split: sum.split)
qed

lemma Write_unlimited [simp]:
  "wr_room w = None \<Longrightarrow> Write w bs = (None, w\<lparr>wr_out := wr_out w @ bs\<rparr>)"
  by (simp add: Write_def)

lemma Write_ok:
  "Write w bs = (None, w') \<Longrightarrow> wr_out w' = wr_out w @ bs \<and> wr_err w' = wr_err w"
  by (auto simp: Write_def split: option.splits if_splits)

lemma Write_fail:
  "Write w bs = (Some e, w') \<Longrightarrow>
     \<exists>k < length bs. e = wr_err w \<and> wr_out w' = wr_out w @ take k bs"
  by (force simp: Write_def not_le split: option.splits if_splits)

lemma WriteMessage_ok:
  assumes "WriteMessage marshal w v = (None, w')"
  shows "\<exists>body. marshal v = Inr body \<and> length body \<le> MaxMessageSize \<and>
           wr_out w' = wr_out w @ frame body"
  using assms
  by (auto simp: WriteMessage_def frame_def Write_def
      split: sum.splits if_splits prod.splits option.splits)

text \<open>
  Once the body has been marshalled and is small enough only the two writes can fail, and what
  reached the peer then is a proper prefix of the frame.
\<close>

lemma WriteMessage_error:
  assumes "WriteMessage marshal w v = (Some e, w')" and "marshal v = Inr body"
    and "length body \<le> MaxMessageSize"
  shows "\<exists>k < length (frame body). e = IOError (wr_err w) \<and>
           wr_out w' = wr_out w @ take k (frame body)"
proof -
  let ?hdr = "PutUint32 (word_of_nat (length body))"
  obtain r1 w1 where w1: "Write w ?hdr = (r1, w1)" by fastforce
  show ?thesis
  proof (cases r1)
    case (Some e1)
    from Write_fail w1 Some obtain k where
      k: "k < 4" "e1 = wr_err w" "wr_out w1 = wr_out w @ take k ?hdr" by fastforce
    from assms w1 Some have "e = IOError e1" "w' = w1" by (auto simp: WriteMessage_def)
    with k show ?thesis by (intro exI [of _ k]) (simp add: frame_def)
  next
    case None
    note ok = Write_ok [OF w1 [unfolded None]]
    from assms w1 None obtain e2 where e2: "Write w1 body = (Some e2, w')" "e = IOError e2"
      by (auto simp: WriteMessage_def split: prod.splits option.splits)
    from Write_fail [OF e2(1)] obtain k where
      "k < length body" "e2 = wr_err w1" "wr_out w' = wr_out w1 @ take k body" by blast
    with ok e2(2) show ?thesis by (intro exI [of _ "4 + k"]) (simp add: frame_def)
  qed
qed

section \<open>The interface to the message codecs\<close>

locale message_codec =
  fixes valid :: "'v \<Rightarrow> bool"
    and marshal :: "'v \<Rightarrow> string + bytes"
    and unmarshal :: "bytes \<Rightarrow> string + 'v"
  assumes marshal_total: "\<exists>body. marshal v = Inr body"
    and unmarshal_marshal: "valid v \<Longrightarrow> marshal v = Inr body \<Longrightarrow> unmarshal body = Inr v"
begin

text \<open>What one side writes is what the other side reads, and the rest of the stream is kept.\<close>

lemma read_written:
  assumes "WriteMessage marshal w v = (None, w')" and "valid v"
    and "rd_data r = drop (length (wr_out w)) (wr_out w') @ rest"
  shows "ReadMessage unmarshal r = (Inr v, r\<lparr>rd_data := rest\<rparr>)"
proof -
  obtain body where b: "marshal v = Inr body" "length body \<le> MaxMessageSize"
    "wr_out w' = wr_out w @ frame body"
    using WriteMessage_ok [OF assms(1)] by blast
  with assms(3) have "rd_data r = frame body @ rest" by simp
  from ReadMessage_frame [OF this b(2), of unmarshal] show ?thesis
    using unmarshal_marshal [OF assms(2) b(1)] by simp
qed

lemma write_unlimited:
  assumes "wr_room w = None"
  shows "WriteMessage marshal w v =
     (let body = projr (marshal v) in
      if length body > MaxMessageSize then (Some ErrMessageTooLarge, w)
      else (None, w\<lparr>wr_out := wr_out w @ frame body\<rparr>))"
proof -
  obtain body where "marshal v = Inr body" using marshal_total by blast
  with assms show ?thesis by (simp add: WriteMessage_def frame_def Let_def)
qed

end

section \<open>Properties\<close>

text \<open>
  C35: a frame whose header announces more than \<open>MaxMessageSize\<close> bytes is refused at once, whatever
  follows: only the four bytes of the header have been taken from the stream.
\<close>

theorem oversized_refused:
  assumes "rd_data r = PutUint32 n @ rest" and "MaxMessageSize < unat n"
  shows "ReadMessage unmarshal r = (Inl ErrMessageTooLarge, r\<lparr>rd_data := rest\<rparr>)"
  using ReadMessage_header [OF assms(1), of unmarshal] assms(2) by simp

theorem oversized_refused_witness:
  "ReadMessage (\<lambda>b. Inr b) \<lparr>rd_data = [0, 1, 0, 1, 7], rd_end = EOF\<rparr> =
     (Inl ErrMessageTooLarge, \<lparr>rd_data = [7], rd_end = EOF\<rparr>)"
  using oversized_refused [of "\<lparr>rd_data = [0, 1, 0, 1, 7], rd_end = EOF\<rparr>" 65537 "[7]" "\<lambda>b. Inr b"]
  by (simp add: PutUint32_def MaxMessageSize_def)

text \<open>
  A stream that ends inside a frame gives an I/O error and never a message: \<open>EOF\<close> when it ends
  before the header, \<open>ErrUnexpectedEOF\<close> when it ends inside the header or inside the body, and the
  connection's own error (a deadline, a reset) when that is what ended it.
\<close>

theorem truncated_frame:
  assumes "rd_data r = take k (frame body)" and "k < length (frame body)"
    and "length body \<le> MaxMessageSize"
  shows "fst (ReadMessage unmarshal r) =
    Inl (IOError (if rd_end r = EOF \<and> k \<noteq> 0 \<and> k \<noteq> 4 then ErrUnexpectedEOF else rd_end r))"
proof (cases "k < 4")
  case True
  then have "length (rd_data r) < 4" using assms(1) by simp
  moreover have "rd_data r = [] \<longleftrightarrow> k = 0" using assms(1,2) by (auto simp del: length_frame)
  ultimately show ?thesis using True ReadFull_short [of r 4] by (simp add: ReadMessage_def)
next
  case False
  then have hdr: "rd_data r = PutUint32 (word_of_nat (length body)) @ take (k - 4) body"
    using assms(1) by (simp add: frame_def)
  have short: "length (rd_data (r\<lparr>rd_data := take (k - 4) body\<rparr>)) < length body"
    using assms(2) False by simp
  have "take (k - 4) body = [] \<longleftrightarrow> k = 4" using False assms(2) by auto
  with ReadMessage_header [OF hdr, of unmarshal] ReadFull_short [OF short] assms(3)
    MaxMessageSize_less [OF assms(3)] False show ?thesis by auto
qed

theorem truncated_frame_witness:
  "fst (ReadMessage (\<lambda>b. Inr b) \<lparr>rd_data = [0, 0, 0, 2, 7], rd_end = EOF\<rparr>) =
     (Inl (IOError ErrUnexpectedEOF) :: proto_error + bytes)"
  using truncated_frame [of "\<lparr>rd_data = [0, 0, 0, 2, 7], rd_end = EOF\<rparr>" 5 "[7, 8]" "\<lambda>b. Inr b"]
  by (simp add: frame_def PutUint32_def MaxMessageSize_def)

end
