(* ===== verification/Messages.thy ===== *)
theory Messages
  imports GoJson Framing
begin

text \<open>
  Package \<open>internal/proto\<close>, file \<open>messages.go\<close>: the handshake and stream messages, with the JSON
  that \<open>json.Marshal\<close> and \<open>json.Unmarshal\<close> give the tagged structs.  Decoding follows Go: members
  are matched to fields by exact name and then case-insensitively, unknown members are skipped,
  \<open>null\<close> leaves a field alone, a later duplicate wins, and a member of the wrong type makes the
  whole call fail.  Each message's codec is an instance of \<open>message_codec\<close>, so framing delivers it.
  A slice is a list: Go's \<open>nil\<close> slice, which \<open>Marshal\<close> prints as \<open>null\<close>, is not told apart from an
  empty one (every slice the program sends is non-nil).
\<close>

section \<open>The messages\<close>

definition TypeOpen :: string where "TypeOpen = ''open''"
definition TypeHeartbeat :: string where "TypeHeartbeat = ''heartbeat''"
definition AuthLabel :: string where "AuthLabel = ''passage-auth-v1''"
definition proto_PQAuthLabel :: string where "proto_PQAuthLabel = ''passage-client-auth-v2''"
definition ExporterLength :: nat where "ExporterLength = 32"

record ServerHello =
  sh_Nonce :: bytes
  sh_ServerTime :: int64

record ClientAuth =
  ca_ClientID :: string
  ca_ClientTime :: int64
  ca_Signature :: bytes
  ca_RequestedServices :: "string list"
  ca_PQAlgorithm :: string
  ca_PQSignature :: bytes

record Accepted =
  ac_SessionID :: string

record AuthFailed =
  af_Reason :: string

record Open =
  op_Type :: string
  op_StreamID :: uint64
  op_ServiceName :: string

record Heartbeat =
  hb_Type :: string
  hb_Timestamp :: int64

section \<open>Decoding single fields\<close>

fun dec_string :: "json \<Rightarrow> string \<Rightarrow> string option" where
  "dec_string (JStr s) _ = Some s"
| "dec_string JNull old = Some old"
| "dec_string _ _ = None"

fun dec_int64 :: "json \<Rightarrow> int64 \<Rightarrow> int64 option" where
  "dec_int64 (JNum l) _ =
     (case parse_int l of
        Some i \<Rightarrow> (if - (2 ^ 63) \<le> i \<and> i < 2 ^ 63 then Some (word_of_int i) else None)
      | None \<Rightarrow> None)"
| "dec_int64 JNull old = Some old"
| "dec_int64 _ _ = None"

fun dec_uint64 :: "json \<Rightarrow> uint64 \<Rightarrow> uint64 option" where
  "dec_uint64 (JNum l) _ =
     (case parse_uint l of
        Some n \<Rightarrow> (if n < 2 ^ 64 then Some (word_of_nat n) else None)
      | None \<Rightarrow> None)"
| "dec_uint64 JNull old = Some old"
| "dec_uint64 _ _ = None"

fun dec_uint8 :: "json \<Rightarrow> byte option" where
  "dec_uint8 (JNum l) =
     (case parse_uint l of Some n \<Rightarrow> (if n < 256 then Some (word_of_nat n) else None) | None \<Rightarrow> None)"
| "dec_uint8 JNull = Some 0"
| "dec_uint8 _ = None"

fun dec_list :: "(json \<Rightarrow> 'a option) \<Rightarrow> json list \<Rightarrow> 'a list option" where
  "dec_list f [] = Some []"
| "dec_list f (v # vs) =
     (case f v of
        None \<Rightarrow> None
      | Some x \<Rightarrow> map_option (\<lambda>xs. x # xs) (dec_list f vs))"

fun dec_bytes :: "json \<Rightarrow> bytes option" where
  "dec_bytes (JStr s) = b64_DecodeString StdEncoding s"
| "dec_bytes JNull = Some []"
| "dec_bytes (JArr vs) = dec_list dec_uint8 vs"
| "dec_bytes _ = None"

fun dec_strings :: "json \<Rightarrow> string list option" where
  "dec_strings (JArr vs) = dec_list (\<lambda>v. dec_string v []) vs"
| "dec_strings JNull = Some []"
| "dec_strings _ = None"

section \<open>Matching members to fields\<close>

text \<open>
  \<open>encoding/json\<close>'s \<open>foldName\<close> on names that are compared with ASCII ones: letters become upper
  case, and the two non-ASCII characters that fold to ASCII letters (long s, Kelvin sign) do too.
\<close>

definition to_upper :: "char \<Rightarrow> char" where
  "to_upper c =
     (if 97 \<le> (of_char c :: nat) \<and> (of_char c :: nat) \<le> 122 then char_of ((of_char c :: nat) - 32) else c)"

fun foldName :: "string \<Rightarrow> string" where
  "foldName [] = []"
| "foldName (a # s) =
     (if a = CHR 0xC5 \<and> take 1 s = [CHR 0xBF] then CHR ''S'' # foldName (drop 1 s)
      else if a = CHR 0xE2 \<and> take 2 s = [CHR 0x84, CHR 0xAA] then CHR ''K'' # foldName (drop 2 s)
      else to_upper a # foldName s)"

type_synonym 'r field = "string \<times> (json \<Rightarrow> 'r \<Rightarrow> 'r option)"

definition find_field :: "'r field list \<Rightarrow> string \<Rightarrow> (json \<Rightarrow> 'r \<Rightarrow> 'r option) option" where
  "find_field fs k =
     (case find (\<lambda>(n, _). n = k) fs of
        Some (_, set_f) \<Rightarrow> Some set_f
      | None \<Rightarrow> map_option snd (find (\<lambda>(n, _). foldName n = foldName k) fs))"

fun decode_members :: "'r field list \<Rightarrow> (string \<times> json) list \<Rightarrow> 'r \<Rightarrow> 'r option" where
  "decode_members fs [] r = Some r"
| "decode_members fs ((k, v) # ms) r =
     (case find_field fs k of
        None \<Rightarrow> decode_members fs ms r
      | Some set_f \<Rightarrow>
          (case set_f v r of None \<Rightarrow> None | Some r' \<Rightarrow> decode_members fs ms r'))"

definition Unmarshal :: "'r field list \<Rightarrow> 'r \<Rightarrow> bytes \<Rightarrow> string + 'r" where
  "Unmarshal fs zero body =
     (case json_parse (bytes_str body) of
        Some (JObj ms) \<Rightarrow>
          (case decode_members fs ms zero of
             Some r \<Rightarrow> Inr r
           | None \<Rightarrow> Inl ''json: cannot unmarshal value into Go struct field'')
      | Some JNull \<Rightarrow> Inr zero
      | Some _ \<Rightarrow> Inl ''json: cannot unmarshal value into Go value''
      | None \<Rightarrow> Inl ''invalid JSON'')"

definition Marshal :: "(string \<times> json) list \<Rightarrow> string + bytes" where
  "Marshal ms = Inr (str_bytes (json_print (JObj ms)))"

definition int64_json :: "int64 \<Rightarrow> json" where
  "int64_json t = JNum (show_int (sint t))"

definition uint64_json :: "uint64 \<Rightarrow> json" where
  "uint64_json t = JNum (show_nat (unat t))"

definition bytes_json :: "bytes \<Rightarrow> json" where
  "bytes_json b = JStr (b64_EncodeToString StdEncoding b)"

section \<open>The messages' codecs\<close>

definition marshal_ServerHello :: "ServerHello \<Rightarrow> string + bytes" where
  "marshal_ServerHello m =
     Marshal [(''nonce'', bytes_json (sh_Nonce m)), (''server_time'', int64_json (sh_ServerTime m))]"

definition fields_ServerHello :: "ServerHello field list" where
  "fields_ServerHello =
     [(''nonce'', \<lambda>v r. map_option (\<lambda>x. r\<lparr>sh_Nonce := x\<rparr>) (dec_bytes v)),
      (''server_time'', \<lambda>v r. map_option (\<lambda>x. r\<lparr>sh_ServerTime := x\<rparr>) (dec_int64 v (sh_ServerTime r)))]"

definition unmarshal_ServerHello :: "bytes \<Rightarrow> string + ServerHello" where
  "unmarshal_ServerHello = Unmarshal fields_ServerHello \<lparr>sh_Nonce = [], sh_ServerTime = 0\<rparr>"

definition marshal_ClientAuth :: "ClientAuth \<Rightarrow> string + bytes" where
  "marshal_ClientAuth m =
     Marshal
       ([(''client_id'', JStr (ca_ClientID m)), (''client_time'', int64_json (ca_ClientTime m)),
         (''signature'', bytes_json (ca_Signature m)),
         (''requested_services'', JArr (map JStr (ca_RequestedServices m)))]
        @ (if ca_PQAlgorithm m = [] then [] else [(''pq_algorithm'', JStr (ca_PQAlgorithm m))])
        @ (if ca_PQSignature m = [] then [] else [(''pq_signature'', bytes_json (ca_PQSignature m))]))"

definition fields_ClientAuth :: "ClientAuth field list" where
  "fields_ClientAuth =
     [(''client_id'', \<lambda>v r. map_option (\<lambda>x. r\<lparr>ca_ClientID := x\<rparr>) (dec_string v (ca_ClientID r))),
      (''client_time'', \<lambda>v r. map_option (\<lambda>x. r\<lparr>ca_ClientTime := x\<rparr>) (dec_int64 v (ca_ClientTime r))),
      (''signature'', \<lambda>v r. map_option (\<lambda>x. r\<lparr>ca_Signature := x\<rparr>) (dec_bytes v)),
      (''requested_services'', \<lambda>v r. map_option (\<lambda>x. r\<lparr>ca_RequestedServices := x\<rparr>) (dec_strings v)),
      (''pq_algorithm'', \<lambda>v r. map_option (\<lambda>x. r\<lparr>ca_PQAlgorithm := x\<rparr>) (dec_string v (ca_PQAlgorithm r))),
      (''pq_signature'', \<lambda>v r. map_option (\<lambda>x. r\<lparr>ca_PQSignature := x\<rparr>) (dec_bytes v))]"

definition zero_ClientAuth :: ClientAuth where
  "zero_ClientAuth =
     \<lparr>ca_ClientID = [], ca_ClientTime = 0, ca_Signature = [], ca_RequestedServices = [],
      ca_PQAlgorithm = [], ca_PQSignature = []\<rparr>"

definition unmarshal_ClientAuth :: "bytes \<Rightarrow> string + ClientAuth" where
  "unmarshal_ClientAuth = Unmarshal fields_ClientAuth zero_ClientAuth"

definition marshal_Accepted :: "Accepted \<Rightarrow> string + bytes" where
  "marshal_Accepted m = Marshal [(''session_id'', JStr (ac_SessionID m))]"

definition fields_Accepted :: "Accepted field list" where
  "fields_Accepted =
     [(''session_id'', \<lambda>v r. map_option (\<lambda>x. r\<lparr>ac_SessionID := x\<rparr>) (dec_string v (ac_SessionID r)))]"

definition unmarshal_Accepted :: "bytes \<Rightarrow> string + Accepted" where
  "unmarshal_Accepted = Unmarshal fields_Accepted \<lparr>ac_SessionID = []\<rparr>"

definition marshal_AuthFailed :: "AuthFailed \<Rightarrow> string + bytes" where
  "marshal_AuthFailed m = Marshal [(''reason'', JStr (af_Reason m))]"

definition fields_AuthFailed :: "AuthFailed field list" where
  "fields_AuthFailed =
     [(''reason'', \<lambda>v r. map_option (\<lambda>x. r\<lparr>af_Reason := x\<rparr>) (dec_string v (af_Reason r)))]"

definition unmarshal_AuthFailed :: "bytes \<Rightarrow> string + AuthFailed" where
  "unmarshal_AuthFailed = Unmarshal fields_AuthFailed \<lparr>af_Reason = []\<rparr>"

definition marshal_Open :: "Open \<Rightarrow> string + bytes" where
  "marshal_Open m =
     Marshal [(''type'', JStr (op_Type m)), (''stream_id'', uint64_json (op_StreamID m)),
              (''service_name'', JStr (op_ServiceName m))]"

definition fields_Open :: "Open field list" where
  "fields_Open =
     [(''type'', \<lambda>v r. map_option (\<lambda>x. r\<lparr>op_Type := x\<rparr>) (dec_string v (op_Type r))),
      (''stream_id'', \<lambda>v r. map_option (\<lambda>x. r\<lparr>op_StreamID := x\<rparr>) (dec_uint64 v (op_StreamID r))),
      (''service_name'', \<lambda>v r. map_option (\<lambda>x. r\<lparr>op_ServiceName := x\<rparr>) (dec_string v (op_ServiceName r)))]"

definition unmarshal_Open :: "bytes \<Rightarrow> string + Open" where
  "unmarshal_Open = Unmarshal fields_Open \<lparr>op_Type = [], op_StreamID = 0, op_ServiceName = []\<rparr>"

definition marshal_Heartbeat :: "Heartbeat \<Rightarrow> string + bytes" where
  "marshal_Heartbeat m =
     Marshal [(''type'', JStr (hb_Type m)), (''timestamp'', int64_json (hb_Timestamp m))]"

definition fields_Heartbeat :: "Heartbeat field list" where
  "fields_Heartbeat =
     [(''type'', \<lambda>v r. map_option (\<lambda>x. r\<lparr>hb_Type := x\<rparr>) (dec_string v (hb_Type r))),
      (''timestamp'', \<lambda>v r. map_option (\<lambda>x. r\<lparr>hb_Timestamp := x\<rparr>) (dec_int64 v (hb_Timestamp r)))]"

definition unmarshal_Heartbeat :: "bytes \<Rightarrow> string + Heartbeat" where
  "unmarshal_Heartbeat = Unmarshal fields_Heartbeat \<lparr>hb_Type = [], hb_Timestamp = 0\<rparr>"

section \<open>Round trips\<close>

definition valid_ClientAuth :: "ClientAuth \<Rightarrow> bool" where
  "valid_ClientAuth m \<longleftrightarrow> utf8_valid (ca_ClientID m) \<and> list_all utf8_valid (ca_RequestedServices m) \<and>
     utf8_valid (ca_PQAlgorithm m)"

lemma ascii_utf8_valid: "list_all (\<lambda>c. (of_char c :: nat) < 128) s \<Longrightarrow> utf8_valid s"
proof (induction s)
  case (Cons c s)
  then have "rune_len (c # s) = Some 1" by simp
  with Cons show ?case by (simp del: rune_len.simps)
qed simp

lemma b64_std_utf8 [simp]: "utf8_valid (b64_EncodeToString StdEncoding bs)"
proof (rule ascii_utf8_valid)
  have "list_all (\<lambda>c. (of_char c :: nat) < 128) (b64_pad # b64_alphabet StdEncoding)" by code_simp
  moreover have "set (b64_EncodeToString StdEncoding bs) \<subseteq> set (b64_pad # b64_alphabet StdEncoding)"
    using set_b64_encode [of StdEncoding bs] by simp
  ultimately show "list_all (\<lambda>c. (of_char c :: nat) < 128) (b64_EncodeToString StdEncoding bs)"
    unfolding list_all_iff by blast
qed

lemma dec_int64_json [simp]: "dec_int64 (int64_json t) old = Some t"
  using sint_ge [of t] sint_lt [of t] by (simp add: int64_json_def)

lemma dec_uint64_json [simp]: "dec_uint64 (uint64_json t) old = Some t"
  using unsigned_less [of t] by (simp add: uint64_json_def)

lemma dec_bytes_json [simp]: "dec_bytes (bytes_json b) = Some b"
  by (simp add: bytes_json_def)

lemma dec_strings_json [simp]: "dec_list (\<lambda>v. dec_string v []) (map JStr xs) = Some xs"
  by (induction xs) auto

lemma json_ok_fields [simp]:
  "json_ok d (int64_json t)" "json_ok d (bytes_json b)" "json_ok d (uint64_json u)"
  "list_all (json_ok d) (map JStr xs) = list_all utf8_valid xs"
proof -
  show "json_ok d (uint64_json u)"
    using int_lit_show_int [of "int (unat u)"] by (simp add: show_int_def uint64_json_def)
qed (simp_all add: int64_json_def bytes_json_def list_all_iff)

lemma Unmarshal_Marshal:
  assumes "Marshal ms = Inr body" and "list_all (\<lambda>(k, v). utf8_valid k \<and> json_ok 9999 v) ms"
    and "decode_members fs ms zero = Some r"
  shows "Unmarshal fs zero body = Inr r"
proof -
  have "json_parse (json_print (JObj ms)) = Some (JObj ms)"
    using assms(2) by (intro json_parse_print) (simp add: maxNestingDepth_def)
  with assms(1,3) show ?thesis by (auto simp: Unmarshal_def Marshal_def)
qed

lemma Marshal_total: "\<exists>body. Marshal ms = Inr body"
  by (simp add: Marshal_def)

text \<open>The field names themselves, exact and folded.\<close>

lemma names_utf8:
  "utf8_valid ''nonce''" "utf8_valid ''server_time''" "utf8_valid ''client_id''"
  "utf8_valid ''client_time''" "utf8_valid ''signature''" "utf8_valid ''requested_services''"
  "utf8_valid ''pq_algorithm''" "utf8_valid ''pq_signature''" "utf8_valid ''session_id''"
  "utf8_valid ''reason''" "utf8_valid ''type''" "utf8_valid ''stream_id''"
  "utf8_valid ''service_name''" "utf8_valid ''timestamp''"
  by (rule ascii_utf8_valid, simp)+

lemmas codec_unfold = find_field_def names_utf8 valid_ClientAuth_def

interpretation hello: message_codec "\<lambda>_. True" marshal_ServerHello unmarshal_ServerHello
proof
  show "unmarshal_ServerHello body = Inr m" if "marshal_ServerHello m = Inr body" for m body
    unfolding unmarshal_ServerHello_def
    by (rule Unmarshal_Marshal [OF that(1) [unfolded marshal_ServerHello_def]])
       (use that in \<open>simp_all add: codec_unfold fields_ServerHello_def\<close>)
qed (simp add: marshal_ServerHello_def Marshal_total)

interpretation client_auth: message_codec valid_ClientAuth marshal_ClientAuth unmarshal_ClientAuth
proof
  show "unmarshal_ClientAuth body = Inr m" if "valid_ClientAuth m" "marshal_ClientAuth m = Inr body" for m body
    unfolding unmarshal_ClientAuth_def
    by (rule Unmarshal_Marshal [OF that(2) [unfolded marshal_ClientAuth_def]])
       (use that in \<open>simp_all add: codec_unfold fields_ClientAuth_def zero_ClientAuth_def\<close>)
qed (simp add: marshal_ClientAuth_def Marshal_total)

interpretation accepted: message_codec "\<lambda>m. utf8_valid (ac_SessionID m)" marshal_Accepted unmarshal_Accepted
proof
  show "unmarshal_Accepted body = Inr m" if "utf8_valid (ac_SessionID m)" "marshal_Accepted m = Inr body" for m body
    unfolding unmarshal_Accepted_def
    by (rule Unmarshal_Marshal [OF that(2) [unfolded marshal_Accepted_def]])
       (use that in \<open>simp_all add: codec_unfold fields_Accepted_def\<close>)
qed (simp add: marshal_Accepted_def Marshal_total)

interpretation auth_failed: message_codec "\<lambda>m. utf8_valid (af_Reason m)" marshal_AuthFailed unmarshal_AuthFailed
proof
  show "unmarshal_AuthFailed body = Inr m" if "utf8_valid (af_Reason m)" "marshal_AuthFailed m = Inr body" for m body
    unfolding unmarshal_AuthFailed_def
    by (rule Unmarshal_Marshal [OF that(2) [unfolded marshal_AuthFailed_def]])
       (use that in \<open>simp_all add: codec_unfold fields_AuthFailed_def\<close>)
qed (simp add: marshal_AuthFailed_def Marshal_total)

interpretation open_msg: message_codec "\<lambda>m. utf8_valid (op_Type m) \<and> utf8_valid (op_ServiceName m)" marshal_Open unmarshal_Open
proof
  show "unmarshal_Open body = Inr m" if "utf8_valid (op_Type m) \<and> utf8_valid (op_ServiceName m)" "marshal_Open m = Inr body" for m body
    unfolding unmarshal_Open_def
    by (rule Unmarshal_Marshal [OF that(2) [unfolded marshal_Open_def]])
       (use that in \<open>simp_all add: codec_unfold fields_Open_def\<close>)
qed (simp add: marshal_Open_def Marshal_total)

interpretation heartbeat: message_codec "\<lambda>m. utf8_valid (hb_Type m)" marshal_Heartbeat unmarshal_Heartbeat
proof
  show "unmarshal_Heartbeat body = Inr m" if "utf8_valid (hb_Type m)" "marshal_Heartbeat m = Inr body" for m body
    unfolding unmarshal_Heartbeat_def
    by (rule Unmarshal_Marshal [OF that(2) [unfolded marshal_Heartbeat_def]])
       (use that in \<open>simp_all add: codec_unfold fields_Heartbeat_def\<close>)
qed (simp add: marshal_Heartbeat_def Marshal_total)

text \<open>A refusal read as an acceptance has no session id.\<close>

lemma AuthFailed_as_Accepted:
  assumes "marshal_AuthFailed m = Inr body" and "utf8_valid (af_Reason m)"
  shows "unmarshal_Accepted body = Inr \<lparr>ac_SessionID = []\<rparr>"
proof -
  have "foldName ''session_id'' \<noteq> foldName ''reason''" by code_simp
  then show ?thesis
    unfolding unmarshal_Accepted_def
    by (intro Unmarshal_Marshal [OF assms(1) [unfolded marshal_AuthFailed_def]])
       (use assms(2) in \<open>simp_all add: codec_unfold fields_Accepted_def del: foldName.simps\<close>)
qed

section \<open>Properties\<close>

text \<open>What a successful \<open>WriteMessage\<close> appended is read back, and the stream goes on behind it.\<close>

definition survives :: "('v \<Rightarrow> bool) \<Rightarrow> ('v \<Rightarrow> string + bytes) \<Rightarrow> (bytes \<Rightarrow> string + 'v) \<Rightarrow> bool" where
  "survives valid marshal unmarshal \<longleftrightarrow>
     (\<forall>v w w' r rest. valid v \<longrightarrow> WriteMessage marshal w v = (None, w') \<longrightarrow>
        rd_data r = drop (length (wr_out w)) (wr_out w') @ rest \<longrightarrow>
        ReadMessage unmarshal r = (Inr v, r\<lparr>rd_data := rest\<rparr>))"

lemmas survivesI = survives_def [THEN iffD2, rule_format]

text \<open>
  C34: whatever message one end writes successfully the other end reads back unchanged, and the rest
  of its stream is left as it was, for each of the six messages of the protocol, provided its texts
  are valid UTF-8 (byte fields and numbers are not restricted).
\<close>

theorem protocol_roundtrip:
  "survives (\<lambda>_. True) marshal_ServerHello unmarshal_ServerHello \<and>
   survives valid_ClientAuth marshal_ClientAuth unmarshal_ClientAuth \<and>
   survives (\<lambda>m. utf8_valid (ac_SessionID m)) marshal_Accepted unmarshal_Accepted \<and>
   survives (\<lambda>m. utf8_valid (af_Reason m)) marshal_AuthFailed unmarshal_AuthFailed \<and>
   survives (\<lambda>m. utf8_valid (op_Type m) \<and> utf8_valid (op_ServiceName m)) marshal_Open unmarshal_Open \<and>
   survives (\<lambda>m. utf8_valid (hb_Type m)) marshal_Heartbeat unmarshal_Heartbeat"
  by (intro conjI survivesI)
    (erule (2) hello.read_written client_auth.read_written accepted.read_written
      auth_failed.read_written open_msg.read_written heartbeat.read_written | simp)+

theorem protocol_roundtrip_witness:
  "ReadMessage unmarshal_Accepted
     \<lparr>rd_data = frame (str_bytes (json_print (JObj [(''session_id'', JStr ''ab'')]))) @ [1], rd_end = EOF\<rparr> =
   (Inr \<lparr>ac_SessionID = ''ab''\<rparr>, \<lparr>rd_data = [1], rd_end = EOF\<rparr>)"
proof -
  let ?body = "str_bytes (json_print (JObj [(''session_id'', JStr ''ab'')]))"
  let ?w = "\<lparr>wr_out = [], wr_room = None, wr_err = EOF\<rparr>"
  have len: "length ?body = 19" by code_simp
  have w: "WriteMessage marshal_Accepted ?w \<lparr>ac_SessionID = ''ab''\<rparr> = (None, ?w\<lparr>wr_out := frame ?body\<rparr>)"
    using len by (simp add: WriteMessage_def marshal_Accepted_def Marshal_def MaxMessageSize_def frame_def
        del: json_print.simps)
  have u: "utf8_valid (ac_SessionID \<lparr>ac_SessionID = ''ab''\<rparr>)" by code_simp
  have "survives (\<lambda>m. utf8_valid (ac_SessionID m)) marshal_Accepted unmarshal_Accepted"
    using protocol_roundtrip by blast
  then have "ReadMessage unmarshal_Accepted r = (Inr \<lparr>ac_SessionID = ''ab''\<rparr>, r\<lparr>rd_data := [1]\<rparr>)"
    if "rd_data r = frame ?body @ [1]" for r
    using u w that unfolding survives_def by (metis drop0 list.size(3) writer.select_convs(1) writer.update_convs(1))
  then show ?thesis by simp
qed

text \<open>
  The server's refusal, read by a client that expects an acceptance, is an acceptance without a
  session id; so the client, which insists on one, never takes a refusal for success.
\<close>

theorem refusal_has_no_session_id:
  assumes "marshal_AuthFailed m = Inr body" and "utf8_valid (af_Reason m)"
  shows "unmarshal_Accepted body = Inr \<lparr>ac_SessionID = []\<rparr>"
  using AuthFailed_as_Accepted [OF assms] .

theorem refusal_has_no_session_id_witness:
  "unmarshal_Accepted (str_bytes (json_print (JObj [(''reason'', JStr ''no'')]))) = Inr \<lparr>ac_SessionID = []\<rparr>"
proof (rule refusal_has_no_session_id)
  show "utf8_valid (af_Reason \<lparr>af_Reason = ''no''\<rparr>)" by code_simp
qed (simp add: marshal_AuthFailed_def Marshal_def)

end
