(* ===== verification/Auth.thy ===== *)
theory Auth
  imports GoEncoding GoTime GoFS Messages
begin

text \<open>
  Package \<open>internal/auth\<close>, file \<open>auth.go\<close>: the Ed25519 half of client authentication, the clock-skew
  window, key texts and key files.  The signature scheme (\<open>crypto/ed25519\<close>), the random source and
  the PEM container are arguments; sizes are Go's constants.
\<close>

section \<open>Constants and errors\<close>

definition PubkeyPrefix :: string where "PubkeyPrefix = ''ed25519:''"
definition PrivkeyPEMType :: string where "PrivkeyPEMType = ''PASSAGE ED25519 PRIVATE KEY''"
definition MaxClockSkew :: Duration where "MaxClockSkew = 60 * Second"
definition ExporterLabel :: string where "ExporterLabel = AuthLabel"

definition ed_PublicKeySize :: nat where "ed_PublicKeySize = 32"
definition ed_PrivateKeySize :: nat where "ed_PrivateKeySize = 64"
definition ed_SignatureSize :: nat where "ed_SignatureSize = 64"
definition ed_SeedSize :: nat where "ed_SeedSize = 32"

lemmas ed_sizes = ed_PublicKeySize_def ed_PrivateKeySize_def ed_SignatureSize_def ed_SeedSize_def

datatype auth_error =
    ErrUnknownClient
  | ErrBadSignature
  | ErrClockSkew
  | ErrServiceNotAllow
  | ErrBadKeyFormat string
  | ErrKeyLength nat
  | ErrRandom string
  | ErrOS os_error
  | ErrPQUnknownAlgorithm
  | ErrPQRequired
  | ErrPQBadSignature
  | ErrPQSign string

section \<open>Signing\<close>

definition SigningInput :: "bytes \<Rightarrow> bytes \<Rightarrow> string \<Rightarrow> int64 \<Rightarrow> bytes" where
  "SigningInput nonce exporter clientID clientTime =
     nonce @ exporter @ str_bytes clientID @ PutUint64 clientTime"

definition Sign ::
  "('sk \<Rightarrow> bytes \<Rightarrow> bytes) \<Rightarrow> 'sk \<Rightarrow> bytes \<Rightarrow> bytes \<Rightarrow> string \<Rightarrow> int64 \<Rightarrow> bytes" where
  "Sign ed_sign priv nonce exporter clientID clientTime =
     ed_sign priv (SigningInput nonce exporter clientID clientTime)"

fun verify_any :: "(bytes \<Rightarrow> bytes \<Rightarrow> bytes \<Rightarrow> bool) \<Rightarrow> bytes list \<Rightarrow> bytes \<Rightarrow> bytes \<Rightarrow> auth_error option" where
  "verify_any ed_verify [] msg sig = Some ErrBadSignature"
| "verify_any ed_verify (pub # pubs) msg sig =
     (if length pub = ed_PublicKeySize \<and> ed_verify pub msg sig then None
      else verify_any ed_verify pubs msg sig)"

definition Verify ::
  "(bytes \<Rightarrow> bytes \<Rightarrow> bytes \<Rightarrow> bool) \<Rightarrow> bytes list \<Rightarrow> bytes \<Rightarrow> bytes \<Rightarrow> bytes \<Rightarrow> string \<Rightarrow> int64
     \<Rightarrow> auth_error option" where
  "Verify ed_verify pubs sig nonce exporter clientID clientTime =
     (if length sig \<noteq> ed_SignatureSize then Some ErrBadSignature
      else verify_any ed_verify pubs (SigningInput nonce exporter clientID clientTime) sig)"

definition CheckClockSkew :: "Time \<Rightarrow> int64 \<Rightarrow> auth_error option" where
  "CheckClockSkew serverNow clientTime =
     (let delta = Sub serverNow (Unix clientTime);
          delta = (if sint delta < 0 then - delta else delta)
      in if sint delta > sint MaxClockSkew then Some ErrClockSkew else None)"

text \<open>\<open>rand.Read\<close> on a 32-byte buffer either fails or fills it.\<close>

definition NewNonce :: "(nat \<Rightarrow> string + bytes) \<Rightarrow> auth_error + bytes" where
  "NewNonce rand_read = (case rand_read 32 of Inl e \<Rightarrow> Inl (ErrRandom e) | Inr b \<Rightarrow> Inr b)"

section \<open>Key texts\<close>

definition EncodePubkey :: "bytes \<Rightarrow> string" where
  "EncodePubkey pub = PubkeyPrefix @ b64_EncodeToString StdEncoding pub"

definition key_encodings :: "b64_encoding list" where
  "key_encodings = [StdEncoding, RawStdEncoding, URLEncoding, RawURLEncoding]"

text \<open>The loop over the four encodings: the first one that decodes to something acceptable.\<close>

fun decode_first :: "b64_encoding list \<Rightarrow> (bytes \<Rightarrow> 'k option) \<Rightarrow> string \<Rightarrow> 'k option" where
  "decode_first [] accept body = None"
| "decode_first (e # es) accept body =
     (case b64_DecodeString e body of
        Some raw \<Rightarrow>
          (case accept raw of Some k \<Rightarrow> Some k | None \<Rightarrow> decode_first es accept body)
      | None \<Rightarrow> decode_first es accept body)"

definition DecodePubkey :: "string \<Rightarrow> auth_error + bytes" where
  "DecodePubkey s =
     (if \<not> HasPrefix s PubkeyPrefix then Inl (ErrBadKeyFormat ''missing prefix'')
      else case decode_first key_encodings
                  (\<lambda>raw. if length raw = ed_PublicKeySize then Some raw else None)
                  (TrimPrefix s PubkeyPrefix) of
             Some pub \<Rightarrow> Inr pub
           | None \<Rightarrow> Inl (ErrBadKeyFormat ''invalid base64 or wrong length''))"

section \<open>Key files\<close>

text \<open>
  \<open>pem_encode\<close> and \<open>pem_decode\<close> stand for \<open>pem.EncodeToMemory\<close> and the block \<open>pem.Decode\<close> finds;
  \<open>seed_of\<close> and \<open>key_of\<close> for \<open>PrivateKey.Seed\<close> and \<open>ed25519.NewKeyFromSeed\<close>.
\<close>

type_synonym pem_block = "string \<times> bytes"

text \<open>\<open>generate\<close> is \<open>ed25519.GenerateKey\<close> on the system's random source: public and private key.\<close>

definition GenerateKeypair :: "(unit \<Rightarrow> string + bytes \<times> bytes) \<Rightarrow> auth_error + bytes \<times> bytes" where
  "GenerateKeypair generate =
     (case generate () of Inl e \<Rightarrow> Inl (ErrRandom e) | Inr ks \<Rightarrow> Inr ks)"

definition WritePrivkeyPEM ::
  "(pem_block \<Rightarrow> bytes) \<Rightarrow> (bytes \<Rightarrow> bytes) \<Rightarrow> fs \<Rightarrow> string \<Rightarrow> bytes \<Rightarrow> auth_error + fs" where
  "WritePrivkeyPEM pem_encode seed_of s path priv =
     (if length priv \<noteq> ed_PrivateKeySize then Inl (ErrKeyLength (length priv))
      else case WriteFile s path (pem_encode (PrivkeyPEMType, seed_of priv)) mode_0600 of
             Inl e \<Rightarrow> Inl (ErrOS e)
           | Inr s' \<Rightarrow> Inr s')"

definition LoadPrivkeyPEM ::
  "(bytes \<Rightarrow> pem_block option) \<Rightarrow> (bytes \<Rightarrow> bytes) \<Rightarrow> fs \<Rightarrow> string \<Rightarrow> auth_error + bytes" where
  "LoadPrivkeyPEM pem_decode key_of s path =
     (case ReadFile s path of
        Inl e \<Rightarrow> Inl (ErrOS e)
      | Inr data \<Rightarrow>
          (case pem_decode data of
             None \<Rightarrow> Inl (ErrBadKeyFormat ''expected PEM block'')
           | Some (ty, seed) \<Rightarrow>
               if ty \<noteq> PrivkeyPEMType then Inl (ErrBadKeyFormat ''expected PEM block'')
               else if length seed \<noteq> ed_SeedSize then Inl (ErrBadKeyFormat ''seed length'')
               else Inr (key_of seed)))"

definition FormatFingerprint :: "bytes \<Rightarrow> string" where
  "FormatFingerprint digest = ''sha256:'' @ hex_EncodeToString digest"

section \<open>Lemmas\<close>

text \<open>
  A client's registered keys: a signature is accepted when one of them accepts it.  This is what
  key rotation rests on (a list with the old and the new key).
\<close>

locale key_ring =
  fixes accepts :: "'k list \<Rightarrow> bool"
    and good :: "'k \<Rightarrow> bool"
  assumes accepts_iff: "accepts ks \<longleftrightarrow> (\<exists>k \<in> set ks. good k)"
begin

lemma no_keys: "\<not> accepts []"
  by (simp add: accepts_iff)

lemma accepts_mono: "accepts ks \<Longrightarrow> set ks \<subseteq> set ls \<Longrightarrow> accepts ls"
  by (auto simp: accepts_iff)

lemma accepts_overlap: "accepts (ks @ ls) \<longleftrightarrow> accepts ks \<or> accepts ls"
  by (auto simp: accepts_iff)

lemma accepts_retired: "accepts (removeAll k ks) \<longleftrightarrow> (\<exists>k' \<in> set ks. k' \<noteq> k \<and> good k')"
  by (auto simp: accepts_iff)

end

lemma verify_any_iff:
  "verify_any ver pubs msg sig = None \<longleftrightarrow>
     (\<exists>pub \<in> set pubs. length pub = ed_PublicKeySize \<and> ver pub msg sig)"
  by (induction pubs) auto

lemma verify_any_error: "verify_any ver pubs msg sig = Some e \<Longrightarrow> e = ErrBadSignature"
  by (induction pubs) (auto split: if_splits)

lemma Verify_iff:
  "Verify ver pubs sig nonce exporter cid t = None \<longleftrightarrow>
     (\<exists>pub \<in> set pubs. length sig = ed_SignatureSize \<and> length pub = ed_PublicKeySize \<and>
        ver pub (SigningInput nonce exporter cid t) sig)"
  by (auto simp: Verify_def verify_any_iff)

interpretation ed_keys: key_ring
  "\<lambda>pubs. Verify ver pubs sig nonce exporter cid t = None"
  "\<lambda>pub. length sig = ed_SignatureSize \<and> length pub = ed_PublicKeySize \<and>
     ver pub (SigningInput nonce exporter cid t) sig"
  for ver sig nonce exporter cid t
  by unfold_locales (rule Verify_iff)

subsection \<open>The signed bytes\<close>

lemma length_SigningInput [simp]:
  "length (SigningInput nonce exporter cid t) = length nonce + length exporter + length cid + 8"
  by (simp add: SigningInput_def)

lemma SigningInput_inj:
  assumes "SigningInput n e i t = SigningInput n' e' i' t'"
    and "length n = length n'" and "length e = length e'"
  shows "n = n' \<and> e = e' \<and> i = i' \<and> t = t'"
proof -
  from assms have "n = n' \<and> e = e' \<and> str_bytes i @ PutUint64 t = str_bytes i' @ PutUint64 t'"
    by (simp add: SigningInput_def)
  then show ?thesis
    by (auto simp: append_eq_append_conv dest: u64.enc_inject)
qed

subsection \<open>The clock-skew window\<close>

lemma CheckClockSkew_iff:
  "CheckClockSkew now ct = None \<longleftrightarrow>
     \<bar>time_ns now - time_ns (Unix ct)\<bar> \<le> 60 * 1000000000 \<or>
     time_ns now - time_ns (Unix ct) \<le> minDuration"
proof -
  define d where "d = Sub now (Unix ct)"
  define x where "x = time_ns now - time_ns (Unix ct)"
  have sd: "sint d = max minDuration (min maxDuration x)"
    unfolding d_def x_def by (rule sint_Sub)
  have skew: "sint MaxClockSkew = 60 * 1000000000"
    by (simp add: MaxClockSkew_def Second_def)
  have C: "CheckClockSkew now ct = None \<longleftrightarrow>
      sint (if sint d < 0 then - d else d) \<le> 60 * 1000000000"
    unfolding CheckClockSkew_def Let_def d_def [symmetric] skew by (simp add: not_less)
  consider "x \<le> minDuration" | "minDuration < x" "x < 0" | "0 \<le> x" by linarith
  then show ?thesis
  proof cases
    case 1
    then have "sint d = - (2 ^ 63)" using sd by (simp add: minDuration_def maxDuration_def)
    then have "sint (- d) = - (2 ^ 63)" "sint d < 0" by (simp_all add: sint_minus_int64)
    then show ?thesis using 1 C by (simp add: x_def)
  next
    case 2
    then have "sint d = x" using sd by (simp add: maxDuration_def)
    moreover from this 2 have "sint (- d) = - x" by (simp add: sint_minus_int64 minDuration_def)
    ultimately show ?thesis using 2 C by (simp add: x_def [symmetric])
  next
    case 3
    then have "sint d = min maxDuration x" using sd by (simp add: minDuration_def maxDuration_def)
    then have d: "\<not> sint d < 0" "sint d \<le> 60 * 1000000000 \<longleftrightarrow> x \<le> 60 * 1000000000"
      using 3 by (auto simp: maxDuration_def)
    have "\<not> x \<le> minDuration" using 3 by (simp add: minDuration_def)
    then show ?thesis
      unfolding C x_def [symmetric] abs_of_nonneg [OF 3] if_not_P [OF d(1)] d(2) by blast
  qed
qed

subsection \<open>Key texts\<close>

lemma decode_first_sound:
  "decode_first es accept body = Some k \<Longrightarrow>
     \<exists>e \<in> set es. \<exists>raw. b64_DecodeString e body = Some raw \<and> accept raw = Some k"
  by (induction es) (auto split: option.splits)

lemma decode_first_unique:
  assumes "e \<in> set es" and "b64_DecodeString e body = Some raw" and "accept raw = Some k"
    and "\<And>e' raw'. e' \<in> set es \<Longrightarrow> b64_DecodeString e' body = Some raw' \<Longrightarrow> raw' = raw"
  shows "decode_first es accept body = Some k"
  using assms(1,4)
proof (induction es)
  case (Cons e' es)
  show ?case
  proof (cases "b64_DecodeString e' body")
    case None
    with Cons.prems assms(2) have "e \<in> set es" by auto
    then have "decode_first es accept body = Some k"
      by (rule Cons.IH) (use Cons.prems(2) in auto)
    with None show ?thesis by simp
  next
    case (Some raw')
    with Cons.prems(2) [of e'] have "raw' = raw" by simp
    with Some assms(3) show ?thesis by simp
  qed
qed simp

lemma key_encodings_wf: "e \<in> set key_encodings \<Longrightarrow> b64_wf e"
  by (auto simp: key_encodings_def)

lemma key_encodings_agree: "e \<in> set key_encodings \<Longrightarrow> e' \<in> set key_encodings \<Longrightarrow> b64_agree e e'"
proof -
  have "list_all (\<lambda>e. list_all (\<lambda>e'. b64_agree e e') key_encodings) key_encodings" by code_simp
  then show "e \<in> set key_encodings \<Longrightarrow> e' \<in> set key_encodings \<Longrightarrow> b64_agree e e'"
    by (simp add: list_all_iff)
qed

lemma decode_first_encoded:
  assumes "e \<in> set key_encodings" and "accept raw = Some k"
  shows "decode_first key_encodings accept (b64_EncodeToString e raw) = Some k"
proof (rule decode_first_unique [where raw = raw and e = e and accept = accept, OF assms(1) _ assms(2)])
  show dec: "b64_DecodeString e (b64_EncodeToString e raw) = Some raw"
    using assms(1) by (intro b64_decode_encode key_encodings_wf)
  fix e' raw'
  assume "e' \<in> set key_encodings" "b64_DecodeString e' (b64_EncodeToString e raw) = Some raw'"
  with dec assms(1) show "raw' = raw"
    unfolding b64_DecodeString_def
    by (metis b64_quanta_agree key_encodings_agree key_encodings_wf)
qed

lemma DecodePubkey_encoded:
  assumes "length pub = ed_PublicKeySize" and "e \<in> set key_encodings"
  shows "DecodePubkey (PubkeyPrefix @ b64_EncodeToString e pub) = Inr pub"
  using decode_first_encoded [OF assms(2), of "\<lambda>raw. if length raw = ed_PublicKeySize then Some raw else None" pub pub]
    assms(1)
  by (simp add: DecodePubkey_def)

lemma DecodePubkey_sound:
  assumes "DecodePubkey s = Inr pub"
  shows "HasPrefix s PubkeyPrefix \<and> length pub = ed_PublicKeySize"
  using assms by (auto simp: DecodePubkey_def split: if_splits option.splits dest!: decode_first_sound)
subsection \<open>Key files\<close>

lemma LoadPrivkeyPEM_Write:
  assumes "WritePrivkeyPEM pem_encode seed_of s path priv = Inr s'"
    and "\<And>seed. pem_decode (pem_encode (PrivkeyPEMType, seed)) = Some (PrivkeyPEMType, seed)"
    and "length (seed_of priv) = ed_SeedSize" and "key_of (seed_of priv) = priv"
  shows "LoadPrivkeyPEM pem_decode key_of s' path = Inr priv"
proof -
  from assms(1) have "WriteFile s path (pem_encode (PrivkeyPEMType, seed_of priv)) mode_0600 = Inr s'"
    by (auto simp: WritePrivkeyPEM_def split: if_splits sum.splits)
  from WriteFile_result(1) [OF this] show ?thesis
    by (simp add: LoadPrivkeyPEM_def assms(2-4))
qed

lemma WritePrivkeyPEM_mode:
  assumes "WritePrivkeyPEM pem_encode seed_of s path priv = Inr s'"
  shows "mode_of s' path = Some (case mode_of s path of Some m \<Rightarrow> m | None \<Rightarrow> mode_0600)"
  using assms by (auto simp: WritePrivkeyPEM_def WriteFile_result(2) split: if_splits sum.splits)

section \<open>Properties\<close>

text \<open>
  C28: for nonces and exporters of fixed lengths the bytes signed with Ed25519 determine the nonce,
  the exporter, the client's name and its clock: a signature made for one handshake is about no other.
\<close>

theorem SigningInput_injective:
  assumes "length n = length n'" and "length e = length e'"
  shows "SigningInput n e i t = SigningInput n' e' i' t' \<longleftrightarrow> n = n' \<and> e = e' \<and> i = i' \<and> t = t'"
  using SigningInput_inj [of n e i t n' e' i' t'] assms by blast

theorem SigningInput_injective_witness:
  "SigningInput [1] [2] ''a'' 3 \<noteq> SigningInput [1] [2] ''a'' 4"
  using SigningInput_injective [of "[1]" "[1]" "[2]" "[2]" "''a''" 3 "''a''" 4] by simp

text \<open>
  C29: the clock check accepts exactly the client times within 60 seconds of the server's clock,
  to the nanosecond and on both sides, and in addition every client time so far in the future that
  the difference saturates at the smallest \<open>Duration\<close> (its negation overflows).
\<close>

theorem CheckClockSkew_window:
  "CheckClockSkew now ct = None \<longleftrightarrow>
     \<bar>time_ns now - time_ns (Unix ct)\<bar> \<le> 60 * 1000000000 \<or>
     time_ns now - time_ns (Unix ct) \<le> minDuration"
  by (rule CheckClockSkew_iff)

text \<open>
  The saturated case is real, for every clock after year 1 and every client time that
  \<open>time.Unix\<close> can represent.  A client whose clock is 61 seconds ahead of the server's or more is
  refused as long as the difference is at most 9223372036 seconds, and from 9223372038 seconds on (some
  292 years) it passes the 60-second window.
\<close>

theorem CheckClockSkew_far_future:
  assumes "0 \<le> sint (t_sec now)" and "t_nsec now < 1000000000"
    and "sint ct < 2 ^ 63 - 62135596800" and "ahead = sint ct - sint (unix_seconds now)"
  shows "(61 \<le> ahead \<and> ahead \<le> 9223372036 \<longrightarrow> CheckClockSkew now ct = Some ErrClockSkew) \<and>
    (9223372038 \<le> ahead \<longrightarrow> CheckClockSkew now ct = None)"
proof -
  have now: "sint (unix_seconds now) = sint (t_sec now) - 62135596800"
    using sint_int64_diff [of "t_sec now" unixToInternal] assms(1) sint_lt [of "t_sec now"]
    by (simp add: unix_seconds_def unixToInternal_def)
  have x: "time_ns now - time_ns (Unix ct) = int (t_nsec now) - ahead * 1000000000"
    if "61 \<le> ahead"
  proof -
    have "sint (ct + unixToInternal) = sint ct + 62135596800"
      using that assms(3,4) now assms(1) sint_ge [of ct]
      by (subst sint_int64_sum) (simp_all add: unixToInternal_def)
    then show ?thesis using assms(4) now by (simp add: time_ns_def Unix_def algebra_simps)
  qed
  have "CheckClockSkew now ct \<noteq> None" if "61 \<le> ahead" "ahead \<le> 9223372036"
    using x assms(2) that unfolding CheckClockSkew_iff by (simp add: minDuration_def)
  moreover have "CheckClockSkew now ct = None" if "9223372038 \<le> ahead"
    using x assms(2) that unfolding CheckClockSkew_iff by (simp add: minDuration_def)
  ultimately show ?thesis by (auto simp: CheckClockSkew_def Let_def split: if_splits)
qed

theorem CheckClockSkew_far_future_witness:
  "CheckClockSkew (Unix 1700000000) (1700000000 + 10000000000) = None \<and>
   CheckClockSkew (Unix 1700000000) (1700000000 + 3600) = Some ErrClockSkew"
  using CheckClockSkew_far_future [of "Unix 1700000000" "1700000000 + 10000000000" 10000000000]
    CheckClockSkew_far_future [of "Unix 1700000000" "1700000000 + 3600" 3600]
  by (simp add: Unix_def unixToInternal_def unix_seconds_def)

text \<open>
  C30: key rotation.  A signature is accepted under a list of keys joined from two lists exactly when
  it is accepted under one of them, so both keys validate during the overlap; and once a key is taken
  off the list, only what another listed key verifies is accepted.
\<close>

theorem ed25519_key_rotation:
  "(Verify ver (olds @ news) sig nonce exporter cid t = None \<longleftrightarrow>
      Verify ver olds sig nonce exporter cid t = None \<or> Verify ver news sig nonce exporter cid t = None) \<and>
   (Verify ver (removeAll old news) sig nonce exporter cid t = None \<longleftrightarrow>
      (\<exists>k \<in> set news. k \<noteq> old \<and> length sig = 64 \<and> length k = 32 \<and>
         ver k (SigningInput nonce exporter cid t) sig))"
  using ed_keys.accepts_overlap ed_keys.accepts_retired
  by (simp add: ed_SignatureSize_def ed_PublicKeySize_def)

text \<open>
  C31: a public key written in any of the four base64 alphabets and paddings, behind its prefix, is
  decoded to itself, whichever of the four is tried first.
\<close>

theorem DecodePubkey_roundtrip:
  assumes "length pub = 32" and "e \<in> {StdEncoding, RawStdEncoding, URLEncoding, RawURLEncoding}"
  shows "DecodePubkey (''ed25519:'' @ b64_EncodeToString e pub) = Inr pub \<and>
    DecodePubkey (EncodePubkey pub) = Inr pub"
  using DecodePubkey_encoded [of pub e] DecodePubkey_encoded [of pub StdEncoding] assms
  by (auto simp: EncodePubkey_def PubkeyPrefix_def key_encodings_def ed_PublicKeySize_def)

theorem DecodePubkey_roundtrip_witness:
  "DecodePubkey (''ed25519:'' @ b64_EncodeToString URLEncoding (replicate 32 255)) = Inr (replicate 32 255)"
  using DecodePubkey_roundtrip [of "replicate 32 255" URLEncoding] by simp

text \<open>
  C32: a private key that was written to a file is what is loaded from it, for every PEM codec that
  decodes the blocks of this type it encodes and every key that is recovered from its seed; the file is created with
  mode 0600, but a file that was there before keeps the mode it had.
\<close>

theorem privkey_file_roundtrip:
  assumes "WritePrivkeyPEM pem_encode seed_of s path priv = Inr s'"
    and "\<And>seed. pem_decode (pem_encode (PrivkeyPEMType, seed)) = Some (PrivkeyPEMType, seed)"
    and "length (seed_of priv) = 32" and "key_of (seed_of priv) = priv"
  shows "LoadPrivkeyPEM pem_decode key_of s' path = Inr priv \<and>
    mode_of s' path = Some (case mode_of s path of Some m \<Rightarrow> m | None \<Rightarrow> mode_0600)"
  using LoadPrivkeyPEM_Write [OF assms(1)] WritePrivkeyPEM_mode [OF assms(1)] assms(2-4)
  by (simp add: ed_SeedSize_def)

text \<open>A container codec that satisfies the hypothesis, for the witness: tagged characters, then the data.\<close>

fun ex_pem_encode :: "pem_block \<Rightarrow> bytes" where
  "ex_pem_encode ([], b) = 0 # b"
| "ex_pem_encode (c # cs, b) = 1 # of_char c # ex_pem_encode (cs, b)"

fun ex_pem_decode :: "bytes \<Rightarrow> pem_block option" where
  "ex_pem_decode (x # r) =
     (if x = 0 then Some ([], r)
      else case r of
        [] \<Rightarrow> None
      | c # r' \<Rightarrow> map_option (\<lambda>(t, b). (char_of (unat c) # t, b)) (ex_pem_decode r'))"
| "ex_pem_decode [] = None"

lemma ex_pem_roundtrip [simp]: "ex_pem_decode (ex_pem_encode b) = Some b"
  by (induction b rule: ex_pem_encode.induct) simp_all

definition empty_fs :: fs where
  "empty_fs = \<lparr>nodes = Map.empty, denied = (\<lambda>_. False)\<rparr>"

theorem privkey_file_roundtrip_witness:
  "\<exists>s'. WritePrivkeyPEM ex_pem_encode (take 32) empty_fs ''k'' (replicate 64 7) = Inr s' \<and>
     LoadPrivkeyPEM ex_pem_decode (\<lambda>s. s @ s) s' ''k'' = Inr (replicate 64 7) \<and> mode_of s' ''k'' = Some mode_0600"
proof -
  have "\<exists>s'. WritePrivkeyPEM ex_pem_encode (take 32) empty_fs ''k'' (replicate 64 7) = Inr s'"
    by (simp add: WritePrivkeyPEM_def ed_PrivateKeySize_def WriteFile_def empty_fs_def is_dir_def dirname_def)
  moreover have "replicate 32 7 @ replicate 32 7 = (replicate 64 7 :: bytes)"
    by (simp add: replicate_add [symmetric])
  ultimately show ?thesis
    using privkey_file_roundtrip [of ex_pem_encode "take 32" empty_fs "''k''" "replicate 64 7" _ ex_pem_decode "\<lambda>s. s @ s"]
    by (auto simp: mode_of_def empty_fs_def)
qed

end
