(* ===== verification/PqAuth.thy ===== *)
theory PqAuth
  imports Auth
begin

text \<open>
  Package \<open>internal/auth\<close>, file \<open>pq.go\<close>: the ML-DSA-65 half of client authentication.  The scheme
  itself (\<open>circl/sign/mldsa/mldsa65\<close>) is an argument: key and signature types, \<open>SignTo\<close>, \<open>Verify\<close>,
  \<open>MarshalBinary\<close> and \<open>UnmarshalBinary\<close>.  A \<open>*mldsa65.PublicKey\<close> may be nil, hence the
  \<^typ>\<open>'pk option\<close> in key lists.
\<close>

section \<open>Constants\<close>

definition PQAlgorithmMLDSA :: string where "PQAlgorithmMLDSA = ''mldsa''"
definition PQPubkeyPrefix :: string where "PQPubkeyPrefix = ''mldsa:''"
definition PQPrivkeyPEMType :: string where "PQPrivkeyPEMType = ''PASSAGE ML-DSA-65 PRIVATE KEY''"
definition PQAuthLabel :: string where "PQAuthLabel = proto_PQAuthLabel"
definition PQSeedSize :: nat where "PQSeedSize = 32"

text \<open>Sizes fixed by ML-DSA-65 (FIPS 204).\<close>

definition ml_SignatureSize :: nat where "ml_SignatureSize = 3309"
definition ml_PublicKeySize :: nat where "ml_PublicKeySize = 1952"

lemma PQAuthLabel_text: "''passage-client-auth-v2'' = PQAuthLabel"
  by (simp add: PQAuthLabel_def proto_PQAuthLabel_def)

lemmas ml_sizes = ml_SignatureSize_def ml_PublicKeySize_def PQSeedSize_def

section \<open>Signing\<close>

definition appendLengthPrefixed :: "bytes \<Rightarrow> bytes \<Rightarrow> bytes" where
  "appendLengthPrefixed dst src = dst @ PutUint32 (word_of_nat (length src)) @ src"

definition PQSigningInput ::
  "bytes \<Rightarrow> bytes \<Rightarrow> string \<Rightarrow> int64 \<Rightarrow> string list \<Rightarrow> bytes" where
  "PQSigningInput nonce exporter clientID clientTime requested =
     (let b = [];
          b = appendLengthPrefixed b nonce;
          b = appendLengthPrefixed b exporter;
          b = appendLengthPrefixed b (str_bytes clientID);
          b = b @ PutUint64 clientTime;
          b = b @ PutUint32 (word_of_nat (length requested))
      in foldl (\<lambda>b s. appendLengthPrefixed b (str_bytes s)) b requested)"

definition PQSign ::
  "('sk \<Rightarrow> bytes \<Rightarrow> bytes \<Rightarrow> bool \<Rightarrow> string + bytes) \<Rightarrow> 'sk \<Rightarrow> bytes \<Rightarrow> bytes \<Rightarrow> string \<Rightarrow> int64
     \<Rightarrow> string list \<Rightarrow> auth_error + bytes" where
  "PQSign ml_sign_to sk nonce exporter clientID clientTime requested =
     (let msg = PQSigningInput nonce exporter clientID clientTime requested in
      case ml_sign_to sk msg (str_bytes PQAuthLabel) False of
        Inl e \<Rightarrow> Inl (ErrPQSign e)
      | Inr sig \<Rightarrow> Inr sig)"

fun pq_verify_any ::
  "('pk \<Rightarrow> bytes \<Rightarrow> bytes \<Rightarrow> bytes \<Rightarrow> bool) \<Rightarrow> 'pk option list \<Rightarrow> bytes \<Rightarrow> bytes \<Rightarrow> auth_error option" where
  "pq_verify_any ml_verify [] msg sig = Some ErrPQBadSignature"
| "pq_verify_any ml_verify (None # pubs) msg sig = pq_verify_any ml_verify pubs msg sig"
| "pq_verify_any ml_verify (Some pk # pubs) msg sig =
     (if ml_verify pk msg (str_bytes PQAuthLabel) sig then None
      else pq_verify_any ml_verify pubs msg sig)"

definition PQVerify ::
  "('pk \<Rightarrow> bytes \<Rightarrow> bytes \<Rightarrow> bytes \<Rightarrow> bool) \<Rightarrow> 'pk option list \<Rightarrow> bytes \<Rightarrow> bytes \<Rightarrow> bytes \<Rightarrow> string
     \<Rightarrow> int64 \<Rightarrow> string list \<Rightarrow> auth_error option" where
  "PQVerify ml_verify pubs sig nonce exporter clientID clientTime requested =
     (if length sig \<noteq> ml_SignatureSize then Some ErrPQBadSignature
      else pq_verify_any ml_verify pubs
             (PQSigningInput nonce exporter clientID clientTime requested) sig)"

section \<open>Key texts and key files\<close>

definition EncodePQPubkey :: "('pk \<Rightarrow> bytes) \<Rightarrow> 'pk \<Rightarrow> string" where
  "EncodePQPubkey marshal_binary pub = PQPubkeyPrefix @ b64_EncodeToString StdEncoding (marshal_binary pub)"

definition DecodePQPubkey :: "(bytes \<Rightarrow> 'pk option) \<Rightarrow> string \<Rightarrow> auth_error + 'pk" where
  "DecodePQPubkey unmarshal_binary s =
     (if \<not> HasPrefix s PQPubkeyPrefix then Inl (ErrBadKeyFormat ''missing prefix'')
      else case decode_first key_encodings
                  (\<lambda>raw. if length raw = ml_PublicKeySize then unmarshal_binary raw else None)
                  (TrimPrefix s PQPubkeyPrefix) of
             Some pk \<Rightarrow> Inr pk
           | None \<Rightarrow> Inl (ErrBadKeyFormat ''invalid base64 or wrong length for ML-DSA-65 public key''))"

definition GeneratePQKeypair ::
  "(nat \<Rightarrow> string + bytes) \<Rightarrow> (bytes \<Rightarrow> 'pk \<times> 'sk) \<Rightarrow> auth_error + ('pk \<times> 'sk \<times> bytes)" where
  "GeneratePQKeypair rand_read new_key_from_seed =
     (case rand_read PQSeedSize of
        Inl e \<Rightarrow> Inl (ErrRandom e)
      | Inr seed \<Rightarrow> (let (pk, sk) = new_key_from_seed seed in Inr (pk, sk, seed)))"

definition WritePQPrivkeyPEM ::
  "(pem_block \<Rightarrow> bytes) \<Rightarrow> fs \<Rightarrow> string \<Rightarrow> bytes \<Rightarrow> auth_error + fs" where
  "WritePQPrivkeyPEM pem_encode s path seed =
     (if length seed \<noteq> PQSeedSize then Inl (ErrKeyLength (length seed))
      else case WriteFile s path (pem_encode (PQPrivkeyPEMType, seed)) mode_0600 of
             Inl e \<Rightarrow> Inl (ErrOS e)
           | Inr s' \<Rightarrow> Inr s')"

definition LoadPQPrivkeyPEM ::
  "(bytes \<Rightarrow> pem_block option) \<Rightarrow> (bytes \<Rightarrow> 'pk \<times> 'sk) \<Rightarrow> fs \<Rightarrow> string \<Rightarrow> auth_error + ('pk \<times> 'sk)" where
  "LoadPQPrivkeyPEM pem_decode new_key_from_seed s path =
     (case ReadFile s path of
        Inl e \<Rightarrow> Inl (ErrOS e)
      | Inr data \<Rightarrow>
          (case pem_decode data of
             None \<Rightarrow> Inl (ErrBadKeyFormat ''expected PEM block'')
           | Some (ty, seed) \<Rightarrow>
               if ty \<noteq> PQPrivkeyPEMType then Inl (ErrBadKeyFormat ''expected PEM block'')
               else if length seed \<noteq> PQSeedSize then Inl (ErrBadKeyFormat ''ML-DSA seed length'')
               else Inr (new_key_from_seed seed)))"

section \<open>Lemmas\<close>

definition length_prefixed :: "bytes \<Rightarrow> bytes" where
  "length_prefixed b = PutUint32 (word_of_nat (length b)) @ b"

lemma appendLengthPrefixed_eq: "appendLengthPrefixed dst src = dst @ length_prefixed src"
  by (simp add: appendLengthPrefixed_def length_prefixed_def)

lemma foldl_appendLengthPrefixed:
  "foldl (\<lambda>b s. b @ length_prefixed (str_bytes s)) b ss =
     b @ concat (map (\<lambda>s. length_prefixed (str_bytes s)) ss)"
  by (induction ss arbitrary: b) simp_all

lemma PQSigningInput_eq:
  "PQSigningInput nonce exporter cid t requested =
     length_prefixed nonce @ length_prefixed exporter @ length_prefixed (str_bytes cid) @
     PutUint64 t @ PutUint32 (word_of_nat (length requested)) @
     concat (map (\<lambda>s. length_prefixed (str_bytes s)) requested)"
  by (simp add: PQSigningInput_def Let_def foldl_appendLengthPrefixed appendLengthPrefixed_eq)

text \<open>A length-prefixed field is a prefix code as long as its length fits the 32-bit prefix.\<close>

interpretation field_code: prefix_code "\<lambda>b. length b < 2 ^ 32" length_prefixed
proof
  fix x y r s :: bytes
  assume len: "length x < 2 ^ 32" "length y < 2 ^ 32"
    and eq: "length_prefixed x @ r = length_prefixed y @ s"
  from eq have "PutUint32 (word_of_nat (length x)) @ (x @ r) = PutUint32 (word_of_nat (length y)) @ (y @ s)"
    by (simp add: length_prefixed_def)
  then have "(word_of_nat (length x) :: uint32) = word_of_nat (length y)" "x @ r = y @ s"
    using u32.enc_cancel by blast+
  then show "x = y \<and> r = s"
    using len by (simp add: word_of_nat_uint32_inject)
qed

interpretation name_code: prefix_code "\<lambda>s. length s < 2 ^ 32" "\<lambda>s. length_prefixed (str_bytes s)"
proof
  fix x y :: string and r s :: bytes
  assume "length x < 2 ^ 32" "length y < 2 ^ 32"
    and "length_prefixed (str_bytes x) @ r = length_prefixed (str_bytes y) @ s"
  then have "str_bytes x = str_bytes y \<and> r = s" by (intro field_code.enc_cancel) simp_all
  then show "x = y \<and> r = s" by simp
qed

lemma PQSigningInput_inj:
  assumes eq: "PQSigningInput n e i t rs = PQSigningInput n' e' i' t' rs'"
    and len: "length n < 2 ^ 32" "length e < 2 ^ 32" "length i < 2 ^ 32" "length rs < 2 ^ 32"
      "list_all (\<lambda>s. length s < 2 ^ 32) rs"
    and len': "length n' < 2 ^ 32" "length e' < 2 ^ 32" "length i' < 2 ^ 32" "length rs' < 2 ^ 32"
      "list_all (\<lambda>s. length s < 2 ^ 32) rs'"
  shows "n = n' \<and> e = e' \<and> i = i' \<and> t = t' \<and> rs = rs'"
proof -
  note eq1 = eq [unfolded PQSigningInput_eq]
  note s1 = field_code.enc_cancel [OF len(1) len'(1) eq1]
  note s2 = field_code.enc_cancel [OF len(2) len'(2) conjunct2 [OF s1]]
  have s3: "i = i' \<and> PutUint64 t @ PutUint32 (word_of_nat (length rs)) @
      concat (map (\<lambda>s. length_prefixed (str_bytes s)) rs) =
      PutUint64 t' @ PutUint32 (word_of_nat (length rs')) @
      concat (map (\<lambda>s. length_prefixed (str_bytes s)) rs')"
    by (rule name_code.enc_cancel [OF len(3) len'(3) conjunct2 [OF s2]])
  note s4 = u64.enc_cancel [OF TrueI TrueI conjunct2 [OF s3]]
  note s5 = u32.enc_cancel [OF TrueI TrueI conjunct2 [OF s4]]
  from s5 len len' have "length rs = length rs'" by (simp add: word_of_nat_uint32_inject)
  then have "rs = rs'"
    using name_code.concat_enc_cancel [of rs rs' "[]" "[]"] len(5) len'(5) conjunct2 [OF s5] by simp
  with s1 s2 s3 s4 show ?thesis by blast
qed

lemma pq_verify_any_iff:
  "pq_verify_any ver pubs msg sig = None \<longleftrightarrow>
     (\<exists>pk. Some pk \<in> set pubs \<and> ver pk msg (str_bytes PQAuthLabel) sig)"
  by (induction ver pubs msg sig rule: pq_verify_any.induct) auto

lemma PQVerify_iff:
  "PQVerify ver pubs sig nonce exporter cid t rs = None \<longleftrightarrow>
     (\<exists>k \<in> set pubs. \<exists>pk. k = Some pk \<and> length sig = ml_SignatureSize \<and>
        ver pk (PQSigningInput nonce exporter cid t rs) (str_bytes PQAuthLabel) sig)"
  by (auto simp: PQVerify_def pq_verify_any_iff)

interpretation ml_keys: key_ring
  "\<lambda>pubs. PQVerify ver pubs sig nonce exporter cid t rs = None"
  "\<lambda>k. \<exists>pk. k = Some pk \<and> length sig = ml_SignatureSize \<and>
     ver pk (PQSigningInput nonce exporter cid t rs) (str_bytes PQAuthLabel) sig"
  for ver sig nonce exporter cid t rs
  by unfold_locales (rule PQVerify_iff)

lemma DecodePQPubkey_encoded:
  assumes "unmarshal_binary (marshal_binary pub) = Some pub"
    and "length (marshal_binary pub) = ml_PublicKeySize" and "e \<in> set key_encodings"
  shows "DecodePQPubkey unmarshal_binary (PQPubkeyPrefix @ b64_EncodeToString e (marshal_binary pub)) = Inr pub"
  using decode_first_encoded [OF assms(3),
      of "\<lambda>raw. if length raw = ml_PublicKeySize then unmarshal_binary raw else None"
         "marshal_binary pub" pub] assms(1,2)
  by (simp add: DecodePQPubkey_def)

lemma LoadPQPrivkeyPEM_Write:
  assumes "WritePQPrivkeyPEM pem_encode s path seed = Inr s'"
    and "\<And>sd. pem_decode (pem_encode (PQPrivkeyPEMType, sd)) = Some (PQPrivkeyPEMType, sd)"
  shows "LoadPQPrivkeyPEM pem_decode new_key s' path = Inr (new_key seed)"
proof -
  from assms(1) have "length seed = PQSeedSize"
    and w: "WriteFile s path (pem_encode (PQPrivkeyPEMType, seed)) mode_0600 = Inr s'"
    by (auto simp: WritePQPrivkeyPEM_def split: if_splits sum.splits)
  with WriteFile_result(1) [OF w] show ?thesis
    by (simp add: LoadPQPrivkeyPEM_def assms(2))
qed

section \<open>Properties\<close>

text \<open>The inputs whose lengths fit a length prefix.\<close>

definition encodable :: "bytes \<Rightarrow> bytes \<Rightarrow> string \<Rightarrow> string list \<Rightarrow> bool" where
  "encodable n e i rs \<longleftrightarrow> length n < 2 ^ 32 \<and> length e < 2 ^ 32 \<and> length i < 2 ^ 32 \<and>
     length rs < 2 ^ 32 \<and> list_all (\<lambda>s. length s < 2 ^ 32) rs"

text \<open>
  C7: the bytes signed with ML-DSA determine the nonce, the exporter, the client's name, its clock
  and the list of requested services, of whatever lengths (below the 4 GiB a length prefix can
  express): no two different handshakes are signed alike, and in particular a client's signature is
  about exactly the services it asked for.
\<close>

theorem PQSigningInput_injective:
  assumes "encodable n e i rs" and "encodable n' e' i' rs'"
  shows "PQSigningInput n e i t rs = PQSigningInput n' e' i' t' rs' \<longleftrightarrow>
    n = n' \<and> e = e' \<and> i = i' \<and> t = t' \<and> rs = rs'"
  using PQSigningInput_inj [of n e i t rs n' e' i' t' rs'] assms by (auto simp: encodable_def)

theorem PQSigningInput_injective_witness:
  "PQSigningInput [] [] ''a'' 0 [''b'', ''c''] \<noteq> PQSigningInput [] [] ''a'' 0 [''bc'']"
  using PQSigningInput_injective [of "[]" "[]" "''a''" "[''b'', ''c'']" "[]" "[]" "''a''" "[''bc'']" 0 0]
  by (simp add: encodable_def)

text \<open>
  The ML-DSA public key rotates like the Ed25519 one, and a nil entry in the list of keys never
  verifies anything.
\<close>

theorem mldsa_key_rotation:
  "(PQVerify ver (olds @ news) sig nonce exporter cid t rs = None \<longleftrightarrow>
      PQVerify ver olds sig nonce exporter cid t rs = None \<or> PQVerify ver news sig nonce exporter cid t rs = None) \<and>
   (PQVerify ver (removeAll old news) sig nonce exporter cid t rs = None \<longleftrightarrow>
      (\<exists>pk. Some pk \<in> set news \<and> Some pk \<noteq> old \<and> length sig = 3309 \<and>
         ver pk (PQSigningInput nonce exporter cid t rs) (str_bytes ''passage-client-auth-v2'') sig))"
proof -
  have label: "''passage-client-auth-v2'' = PQAuthLabel" by (simp add: PQAuthLabel_def proto_PQAuthLabel_def)
  show ?thesis
    unfolding ml_keys.accepts_overlap ml_keys.accepts_retired label ml_SignatureSize_def by blast
qed

text \<open>
  An ML-DSA public key written in any of the four base64 variants decodes to itself, for every
  key format that reads what it writes and writes 1952 bytes; and a seed written to a key file is the
  seed the key pair is loaded from.
\<close>

theorem pq_key_roundtrips:
  assumes "unmarshal_binary (marshal_binary pub) = Some pub" and "length (marshal_binary pub) = 1952"
    and "e \<in> {StdEncoding, RawStdEncoding, URLEncoding, RawURLEncoding}"
    and "WritePQPrivkeyPEM pem_encode s path seed = Inr s'" and "\<And>sd. pem_decode (pem_encode (PQPrivkeyPEMType, sd)) = Some (PQPrivkeyPEMType, sd)"
  shows "DecodePQPubkey unmarshal_binary (''mldsa:'' @ b64_EncodeToString e (marshal_binary pub)) = Inr pub \<and>
    LoadPQPrivkeyPEM pem_decode new_key s' path = Inr (new_key seed)"
  using DecodePQPubkey_encoded [of unmarshal_binary marshal_binary pub e] assms(1-3)
    LoadPQPrivkeyPEM_Write [OF assms(4,5)]
  by (auto simp: PQPubkeyPrefix_def key_encodings_def ml_PublicKeySize_def)

theorem pq_key_roundtrips_witness:
  "\<exists>s'. WritePQPrivkeyPEM ex_pem_encode empty_fs ''k'' (replicate 32 7) = Inr s' \<and>
     DecodePQPubkey Some (''mldsa:'' @ b64_EncodeToString StdEncoding (replicate 1952 9)) = Inr (replicate 1952 9) \<and>
     LoadPQPrivkeyPEM ex_pem_decode (\<lambda>s. (s, s)) s' ''k'' = Inr (replicate 32 7, replicate 32 7)"
proof -
  have "\<exists>s'. WritePQPrivkeyPEM ex_pem_encode empty_fs ''k'' (replicate 32 7) = Inr s'"
    by (simp add: WritePQPrivkeyPEM_def PQSeedSize_def WriteFile_def empty_fs_def is_dir_def dirname_def)
  then show ?thesis
    using pq_key_roundtrips [of Some id "replicate 1952 9" StdEncoding ex_pem_encode empty_fs "''k''"
        "replicate 32 7" _ ex_pem_decode "\<lambda>s. (s, s)"] by auto
qed

end
