(* ===== verification/TlsConfig.thy ===== *)
theory TlsConfig
  imports Auth
begin

text \<open>
  \<open>internal/tunnel/tls.go\<close>: the TLS configurations of the two ends, the check of the negotiated
  key exchange, and the pinning of the server's certificate.  The TLS stack itself is not modelled:
  what the program gives it is the configuration record with its \<open>VerifyConnection\<close> callback, and
  what it gives back is a connection state.  SHA-256, PEM and the X.509 parser are arguments.
\<close>

section \<open>Configurations and connection states\<close>

definition VersionTLS13 :: "16 word" where "VersionTLS13 = 0x0304"
definition TLS_AES_256_GCM_SHA384 :: "16 word" where "TLS_AES_256_GCM_SHA384 = 0x1302"
definition TLS_CHACHA20_POLY1305_SHA256 :: "16 word" where "TLS_CHACHA20_POLY1305_SHA256 = 0x1303"
definition X25519MLKEM768 :: "16 word" where "X25519MLKEM768 = 4588"

text \<open>A parsed certificate is known by its DER bytes (\<open>Raw\<close>).\<close>

record Certificate =
  Raw :: bytes

record ConnectionState =
  CurveID :: "16 word"
  PeerCertificates :: "Certificate list"

datatype tls_error =
    LoadKeypair string | NoPeerCertificate | FingerprintMismatch bytes string | NonPQCurve "16 word"
  | FingerprintMissingPrefix | FingerprintNotHex | FingerprintSize nat
  | CertOS os_error | ExpectedCertificate | ParseCertificate string

record 'kp tls_Config =
  MinVersion :: "16 word"
  CipherSuites :: "16 word list"
  CurvePreferences :: "16 word list"
  Certificates :: "'kp list"
  InsecureSkipVerify :: bool
  VerifyConnection :: "ConnectionState \<Rightarrow> tls_error option"

section \<open>Operations\<close>

definition pqCurvePreferences :: "16 word list" where
  "pqCurvePreferences = [X25519MLKEM768]"

definition requirePQCurve :: "ConnectionState \<Rightarrow> tls_error option" where
  "requirePQCurve cs = (if CurveID cs \<noteq> X25519MLKEM768 then Some (NonPQCurve (CurveID cs)) else None)"

definition serverTLSConfig ::
  "(string \<Rightarrow> string \<Rightarrow> string + 'kp) \<Rightarrow> string \<Rightarrow> string \<Rightarrow> tls_error + 'kp tls_Config" where
  "serverTLSConfig load_keypair certFile keyFile =
     (case load_keypair certFile keyFile of
        Inl err \<Rightarrow> Inl (LoadKeypair err)
      | Inr cert \<Rightarrow>
          Inr \<lparr>MinVersion = VersionTLS13,
               CipherSuites = [TLS_AES_256_GCM_SHA384, TLS_CHACHA20_POLY1305_SHA256],
               CurvePreferences = pqCurvePreferences,
               Certificates = [cert],
               InsecureSkipVerify = False,
               VerifyConnection = requirePQCurve\<rparr>)"

definition parseFingerprint :: "string \<Rightarrow> tls_error + bytes" where
  "parseFingerprint s =
     (if \<not> HasPrefix s ''sha256:'' then Inl FingerprintMissingPrefix
      else case hex_DecodeString (TrimPrefix s ''sha256:'') of
        None \<Rightarrow> Inl FingerprintNotHex
      | Some raw \<Rightarrow>
          if length raw \<noteq> 32 then Inl (FingerprintSize (length raw)) else Inr raw)"

text \<open>The callback that pins the server's certificate.\<close>

definition verify_pinned ::
  "(bytes \<Rightarrow> bytes) \<Rightarrow> string \<Rightarrow> bytes \<Rightarrow> ConnectionState \<Rightarrow> tls_error option" where
  "verify_pinned sha256 expectedFingerprint want cs =
     (case PeerCertificates cs of
        [] \<Rightarrow> Some NoPeerCertificate
      | cert # _ \<Rightarrow>
          (let got = sha256 (Raw cert) in
           if got \<noteq> want then Some (FingerprintMismatch got expectedFingerprint)
           else requirePQCurve cs))"

definition clientTLSConfig :: "(bytes \<Rightarrow> bytes) \<Rightarrow> string \<Rightarrow> tls_error + 'kp tls_Config" where
  "clientTLSConfig sha256 expectedFingerprint =
     (case parseFingerprint expectedFingerprint of
        Inl err \<Rightarrow> Inl err
      | Inr want \<Rightarrow>
          Inr \<lparr>MinVersion = VersionTLS13,
               CipherSuites = [TLS_AES_256_GCM_SHA384, TLS_CHACHA20_POLY1305_SHA256],
               CurvePreferences = pqCurvePreferences,
               Certificates = [],
               InsecureSkipVerify = True,
               VerifyConnection = verify_pinned sha256 expectedFingerprint want\<rparr>)"

definition FingerprintFromCertFile ::
  "(bytes \<Rightarrow> pem_block option) \<Rightarrow> (bytes \<Rightarrow> string + Certificate) \<Rightarrow> (bytes \<Rightarrow> bytes) \<Rightarrow> fs \<Rightarrow> string
     \<Rightarrow> tls_error + string" where
  "FingerprintFromCertFile pem_decode parse_certificate sha256 s path =
     (case ReadFile s path of
        Inl err \<Rightarrow> Inl (CertOS err)
      | Inr data \<Rightarrow>
          (case pem_decode data of
             None \<Rightarrow> Inl ExpectedCertificate
           | Some (ty, der) \<Rightarrow>
               if ty \<noteq> ''CERTIFICATE'' then Inl ExpectedCertificate
               else case parse_certificate der of
                 Inl err \<Rightarrow> Inl (ParseCertificate err)
               | Inr cert \<Rightarrow> Inr (''sha256:'' @ hex_EncodeToString (sha256 (Raw cert)))))"

section \<open>Lemmas\<close>

lemma parseFingerprint_Inr_iff:
  "parseFingerprint s = Inr d \<longleftrightarrow>
     (\<exists>h. s = ''sha256:'' @ h \<and> hex_DecodeString h = Some d \<and> length d = 32)"
proof
  assume *: "parseFingerprint s = Inr d"
  then have "HasPrefix s ''sha256:''" by (auto simp: parseFingerprint_def split: if_splits)
  then obtain h where "s = ''sha256:'' @ h" by (auto simp only: HasPrefix_iff)
  with * show "\<exists>h. s = ''sha256:'' @ h \<and> hex_DecodeString h = Some d \<and> length d = 32"
    by (auto simp only: parseFingerprint_def HasPrefix_append TrimPrefix_append
        split: option.splits if_splits)
qed (auto simp only: parseFingerprint_def HasPrefix_append TrimPrefix_append option.case split: if_splits)

lemma parseFingerprint_Format [simp]:
  "length d = 32 \<Longrightarrow> parseFingerprint (FormatFingerprint d) = Inr d"
  unfolding parseFingerprint_Inr_iff FormatFingerprint_def by (blast intro: hex_decode_encode)

lemma requirePQCurve_None_iff: "requirePQCurve cs = None \<longleftrightarrow> CurveID cs = X25519MLKEM768"
  by (simp add: requirePQCurve_def)

lemma verify_pinned_None_iff:
  "verify_pinned sha256 fp want cs = None \<longleftrightarrow>
     (\<exists>cert rest. PeerCertificates cs = cert # rest \<and> sha256 (Raw cert) = want) \<and>
     CurveID cs = X25519MLKEM768"
  by (auto simp: verify_pinned_def Let_def requirePQCurve_None_iff split: list.splits)

lemma FingerprintFromCertFile_Inr:
  "FingerprintFromCertFile pem_decode parse_cert sha256 s path = Inr fp \<longleftrightarrow>
     (\<exists>data der cert. ReadFile s path = Inr data \<and> pem_decode data = Some (''CERTIFICATE'', der) \<and>
        parse_cert der = Inr cert \<and> fp = FormatFingerprint (sha256 (Raw cert)))"
  by (auto simp: FingerprintFromCertFile_def FormatFingerprint_def split: sum.splits option.splits)

section \<open>Properties\<close>

text \<open>
  C9: certificate pinning.  The client's TLS configuration exists exactly for a fingerprint of the
  form \<open>sha256:\<close> and 64 hexadecimal digits, and then a connection passes its callback exactly when
  the peer presented a leaf certificate whose digest is that fingerprint and the hybrid key exchange
  was negotiated; the server's configuration insists on the same key exchange.
\<close>

theorem pinned_connection_iff:
  "(\<exists>cfg. clientTLSConfig sha256 fp = Inr (cfg :: 'kp tls_Config) \<and> VerifyConnection cfg cs = None) \<longleftrightarrow>
     (\<exists>h cert rest. fp = ''sha256:'' @ h \<and> hex_DecodeString h = Some (sha256 (Raw cert)) \<and>
        length (sha256 (Raw cert)) = 32 \<and> PeerCertificates cs = cert # rest \<and> CurveID cs = X25519MLKEM768)"
  (is "?L \<longleftrightarrow> ?R")
proof -
  have "?L \<longleftrightarrow> (\<exists>want. parseFingerprint fp = Inr want \<and> verify_pinned sha256 fp want cs = None)"
    by (auto simp: clientTLSConfig_def split: sum.splits)
  also have "\<dots> \<longleftrightarrow> ?R"
    unfolding parseFingerprint_Inr_iff verify_pinned_None_iff by auto
  finally show ?thesis .
qed

text \<open>
  C33: the fingerprint printed for a certificate file is one the client accepts: pinned to it, the
  client completes a handshake over the hybrid exchange with a server that presents that certificate,
  and with no other unless the two certificates are a collision of the digest.
\<close>

theorem fingerprint_of_file_pins:
  assumes "FingerprintFromCertFile pem_decode parse_cert sha256 s path = Inr fp"
    and "\<And>b. length (sha256 b) = 32"
  shows "\<exists>data der cert want. ReadFile s path = Inr data \<and> pem_decode data = Some (''CERTIFICATE'', der) \<and>
    parse_cert der = Inr cert \<and> parseFingerprint fp = Inr want \<and>
    (\<forall>peer rest. verify_pinned sha256 fp want \<lparr>CurveID = X25519MLKEM768, PeerCertificates = peer # rest\<rparr> = None
       \<longleftrightarrow> Raw peer = Raw cert \<or> (Raw peer \<noteq> Raw cert \<and> sha256 (Raw peer) = sha256 (Raw cert)))"
proof -
  obtain data der cert where f: "ReadFile s path = Inr data" "pem_decode data = Some (''CERTIFICATE'', der)"
    "parse_cert der = Inr cert" and fp: "fp = FormatFingerprint (sha256 (Raw cert))"
    using assms(1) unfolding FingerprintFromCertFile_Inr by blast
  have p: "parseFingerprint fp = Inr (sha256 (Raw cert))" unfolding fp by (simp add: assms(2))
  have "verify_pinned sha256 fp (sha256 (Raw cert))
      \<lparr>CurveID = X25519MLKEM768, PeerCertificates = peer # rest\<rparr> = None \<longleftrightarrow>
      Raw peer = Raw cert \<or> (Raw peer \<noteq> Raw cert \<and> sha256 (Raw peer) = sha256 (Raw cert))" for peer rest
    unfolding verify_pinned_None_iff by auto
  with p f show ?thesis by metis
qed

theorem fingerprint_of_file_pins_witness:
  "FingerprintFromCertFile (\<lambda>d. Some (''CERTIFICATE'', d)) (\<lambda>d. Inr \<lparr>Raw = d\<rparr>) (\<lambda>_. replicate 32 7)
     \<lparr>nodes = [''c'' \<mapsto> File [1] mode_0644], denied = (\<lambda>_. False)\<rparr> ''c'' = Inr (FormatFingerprint (replicate 32 7)) \<and>
   (\<exists>want. parseFingerprint (FormatFingerprint (replicate 32 7)) = Inr want \<and>
     verify_pinned (\<lambda>_. replicate 32 7) (FormatFingerprint (replicate 32 7)) want
       \<lparr>CurveID = X25519MLKEM768, PeerCertificates = [\<lparr>Raw = [1]\<rparr>]\<rparr> = None)"
proof -
  let ?fs = "\<lparr>nodes = [''c'' \<mapsto> File [1] mode_0644], denied = (\<lambda>_. False)\<rparr>"
  let ?pem = "\<lambda>d. Some (''CERTIFICATE'', d)" and ?parse = "\<lambda>d. Inr \<lparr>Raw = d\<rparr>"
  have f: "FingerprintFromCertFile ?pem ?parse (\<lambda>_. replicate 32 7) ?fs ''c'' =
      Inr (FormatFingerprint (replicate 32 7))"
    by (simp add: FingerprintFromCertFile_def FormatFingerprint_def ReadFile_def)
  from fingerprint_of_file_pins [OF f] obtain want where
    "parseFingerprint (FormatFingerprint (replicate 32 7)) = Inr want"
    "\<forall>peer rest. verify_pinned (\<lambda>_. replicate 32 7) (FormatFingerprint (replicate 32 7)) want
       \<lparr>CurveID = X25519MLKEM768, PeerCertificates = peer # rest\<rparr> = None"
    by auto
  with f show ?thesis by blast
qed

end
