(* ===== verification/NetConn.thy ===== *)
theory NetConn
  imports Messages TlsConfig
begin

text \<open>
  A \<open>net.Conn\<close> as the tunnel uses it: the bytes that arrive, the bytes sent, the deadlines and whether
  it has been closed.  Reading and writing messages goes through package \<open>proto\<close>.  The TLS layer
  is its documented contract with the configuration: it completes a handshake only when
  \<open>VerifyConnection\<close> returns no error, and then hands out the connection state and the exporter.
\<close>

section \<open>Connections\<close>

record net_conn =
  nc_in :: reader
  nc_out :: writer
  nc_read_deadline :: "Time option"
  nc_write_deadline :: "Time option"
  nc_closed :: bool

definition SetDeadline :: "net_conn \<Rightarrow> Time option \<Rightarrow> net_conn" where
  "SetDeadline c d = c\<lparr>nc_read_deadline := d, nc_write_deadline := d\<rparr>"

definition SetReadDeadline :: "net_conn \<Rightarrow> Time option \<Rightarrow> net_conn" where
  "SetReadDeadline c d = c\<lparr>nc_read_deadline := d\<rparr>"

definition Close :: "net_conn \<Rightarrow> net_conn" where
  "Close c = c\<lparr>nc_closed := True\<rparr>"

definition conn_write :: "('v \<Rightarrow> string + bytes) \<Rightarrow> net_conn \<Rightarrow> 'v \<Rightarrow> proto_error option \<times> net_conn" where
  "conn_write marshal c v = (let (e, w) = WriteMessage marshal (nc_out c) v in (e, c\<lparr>nc_out := w\<rparr>))"

definition conn_read :: "(bytes \<Rightarrow> string + 'v) \<Rightarrow> net_conn \<Rightarrow> (proto_error + 'v) \<times> net_conn" where
  "conn_read unmarshal c = (let (v, r) = ReadMessage unmarshal (nc_in c) in (v, c\<lparr>nc_in := r\<rparr>))"

lemma SetDeadline_simps [simp]:
  "nc_in (SetDeadline c d) = nc_in c" "nc_out (SetDeadline c d) = nc_out c"
  "nc_read_deadline (SetDeadline c d) = d" "nc_write_deadline (SetDeadline c d) = d"
  "nc_closed (SetDeadline c d) = nc_closed c"
  by (simp_all add: SetDeadline_def)

lemma SetReadDeadline_simps [simp]:
  "nc_in (SetReadDeadline c d) = nc_in c" "nc_out (SetReadDeadline c d) = nc_out c"
  "nc_read_deadline (SetReadDeadline c d) = d" "nc_write_deadline (SetReadDeadline c d) = nc_write_deadline c"
  "nc_closed (SetReadDeadline c d) = nc_closed c"
  by (simp_all add: SetReadDeadline_def)

lemma Close_simps [simp]:
  "nc_in (Close c) = nc_in c" "nc_out (Close c) = nc_out c"
  "nc_read_deadline (Close c) = nc_read_deadline c" "nc_write_deadline (Close c) = nc_write_deadline c"
  "nc_closed (Close c)"
  by (simp_all add: Close_def)

lemma conn_write_keeps:
  assumes "conn_write marshal c v = (e, c')"
  shows "nc_in c' = nc_in c" "nc_read_deadline c' = nc_read_deadline c"
    "nc_write_deadline c' = nc_write_deadline c" "nc_closed c' = nc_closed c"
  using assms by (auto simp: conn_write_def split: prod.splits)

lemma conn_read_keeps:
  assumes "conn_read unmarshal c = (v, c')"
  shows "nc_out c' = nc_out c" "nc_read_deadline c' = nc_read_deadline c"
    "nc_write_deadline c' = nc_write_deadline c" "nc_closed c' = nc_closed c"
  using assms by (auto simp: conn_read_def split: prod.splits)

lemma conn_write_ok:
  assumes "conn_write marshal c v = (None, c')"
  shows "\<exists>body. marshal v = Inr body \<and> length body \<le> MaxMessageSize \<and>
           wr_out (nc_out c') = wr_out (nc_out c) @ frame body"
  using assms WriteMessage_ok [of marshal "nc_out c" v] by (auto simp: conn_write_def split: prod.splits)

lemma conn_write_prefix:
  assumes "marshal v = Inr body"
  shows "\<exists>k. wr_out (nc_out (snd (conn_write marshal c v))) = wr_out (nc_out c) @ take k (frame body)"
proof -
  obtain e w where w: "WriteMessage marshal (nc_out c) v = (e, w)" by fastforce
  consider "length body > MaxMessageSize" | "length body \<le> MaxMessageSize" "e = None"
    | e' where "length body \<le> MaxMessageSize" "e = Some e'" by force
  then have "\<exists>k. wr_out w = wr_out (nc_out c) @ take k (frame body)"
  proof cases
    case 1
    with w assms show ?thesis by (auto simp: WriteMessage_def intro: exI [of _ 0])
  next
    case 2
    with WriteMessage_ok w assms have "wr_out w = wr_out (nc_out c) @ frame body" by fastforce
    then show ?thesis by (intro exI [of _ "length (frame body)"]) simp
  next
    case 3
    with WriteMessage_error [of marshal "nc_out c" v e' w body] w assms show ?thesis by auto
  qed
  with w show ?thesis by (simp add: conn_write_def)
qed

lemma conn_write_unlimited:
  assumes "wr_room (nc_out c) = None" and "marshal v = Inr body" and "length body \<le> MaxMessageSize"
  shows "conn_write marshal c v = (None, c\<lparr>nc_out := (nc_out c)\<lparr>wr_out := wr_out (nc_out c) @ frame body\<rparr>\<rparr>)"
  using assms by (simp add: conn_write_def WriteMessage_def frame_def)

lemma conn_read_frame:
  assumes "rd_data (nc_in c) = frame body @ rest" and "length body \<le> MaxMessageSize"
    and "unmarshal body = Inr v"
  shows "conn_read unmarshal c = (Inr v, c\<lparr>nc_in := (nc_in c)\<lparr>rd_data := rest\<rparr>\<rparr>)"
  using ReadMessage_frame [OF assms(1,2), of unmarshal] assms(3) by (simp add: conn_read_def)

section \<open>The TLS handshake\<close>

text \<open>
  \<open>tls_net\<close> is what the network and the peer make of the handshake up to the callback: a failure, or
  the connection state with the exporter function of the session.
\<close>

record tls_session =
  ts_state :: ConnectionState
  ts_exporter :: "string \<Rightarrow> nat \<Rightarrow> string + bytes"

datatype tls_failure = TLSNetwork string | TLSVerify tls_error

definition HandshakeContext :: "'kp tls_Config \<Rightarrow> string + tls_session \<Rightarrow> tls_failure + tls_session" where
  "HandshakeContext cfg tls_net =
     (case tls_net of
        Inl e \<Rightarrow> Inl (TLSNetwork e)
      | Inr ts \<Rightarrow>
          (case VerifyConnection cfg (ts_state ts) of
             Some e \<Rightarrow> Inl (TLSVerify e)
           | None \<Rightarrow> Inr ts))"

definition ExportKeyingMaterial :: "tls_session \<Rightarrow> string \<Rightarrow> nat \<Rightarrow> string + bytes" where
  "ExportKeyingMaterial ts label len = ts_exporter ts label len"

lemma HandshakeContext_Inr_iff:
  "HandshakeContext cfg tls_net = Inr ts \<longleftrightarrow> tls_net = Inr ts \<and> VerifyConnection cfg (ts_state ts) = None"
  by (auto simp: HandshakeContext_def split: sum.splits option.splits)

end
