(* ===== verification/ServerAuth.thy ===== *)
theory ServerAuth
  imports Config PqAuth NetConn
begin

text \<open>
  \<open>internal/tunnel/server.go\<close>, first half: the tables \<open>NewServer\<close> builds from the configuration,
  the server's side of the handshake (\<open>runHandshake\<close>) and the decision it rests on
  (\<open>validateAuth\<close>).  \<open>ed_verify\<close> and \<open>ml_verify\<close> are the two signature schemes' verification
  functions, \<open>unmarshal_pk\<close> the parser of ML-DSA public keys, \<open>rand_read\<close> the random source.
\<close>

section \<open>The server\<close>

definition maxPendingHandshakes :: nat where "maxPendingHandshakes = 64"

text \<open>
  The fields that do not change after \<open>NewServer\<close>; the semaphore is represented by its capacity here,
  and its use and the session table are the state of theory \<open>Sessions\<close>.
\<close>

record ('pk, 'kp) Server =
  srv_cfg :: ServerConfig
  srv_tlsCfg :: "'kp tls_Config"
  srv_clientsByID :: "string \<rightharpoonup> ClientEntry"
  srv_clientPubs :: "string \<rightharpoonup> bytes list"
  srv_clientPQPubs :: "string \<rightharpoonup> 'pk option list"
  srv_allowed :: "string \<rightharpoonup> (string \<rightharpoonup> ServiceEntry)"
  srv_handshakeSem :: nat

datatype server_error =
    TLSFailed tls_error | ClientKey string auth_error | PQPubkeyRequired string

fun decode_all :: "(string \<Rightarrow> auth_error + 'k) \<Rightarrow> string list \<Rightarrow> auth_error + 'k list" where
  "decode_all decode [] = Inr []"
| "decode_all decode (txt # txts) =
     (case decode txt of
        Inl err \<Rightarrow> Inl err
      | Inr k \<Rightarrow>
          (case decode_all decode txts of
             Inl err \<Rightarrow> Inl err
           | Inr ks \<Rightarrow> Inr (k # ks)))"

definition service_map :: "ServiceEntry list \<Rightarrow> (string \<rightharpoonup> ServiceEntry)" where
  "service_map ss = foldl (\<lambda>m s. m(se_Name s \<mapsto> s)) Map.empty ss"

text \<open>One iteration of the loop of \<open>NewServer\<close>.\<close>

definition register_client ::
  "(bytes \<Rightarrow> 'pk option) \<Rightarrow> ClientEntry \<Rightarrow> ('pk, 'kp) Server \<Rightarrow> server_error + ('pk, 'kp) Server" where
  "register_client unmarshal_pk ce srv =
     (case decode_all DecodePubkey (ce_Pubkey ce) of
        Inl err \<Rightarrow> Inl (ClientKey (ce_ID ce) err)
      | Inr pubs \<Rightarrow>
          if ce_PQPubkey ce = [] then Inl (PQPubkeyRequired (ce_ID ce))
          else case decode_all (DecodePQPubkey unmarshal_pk) (ce_PQPubkey ce) of
            Inl err \<Rightarrow> Inl (ClientKey (ce_ID ce) err)
          | Inr pqPubs \<Rightarrow>
              Inr (srv\<lparr>srv_clientsByID := (srv_clientsByID srv)(ce_ID ce \<mapsto> ce),
                       srv_clientPubs := (srv_clientPubs srv)(ce_ID ce \<mapsto> pubs),
                       srv_clientPQPubs := (srv_clientPQPubs srv)(ce_ID ce \<mapsto> map Some pqPubs),
                       srv_allowed := (srv_allowed srv)(ce_ID ce \<mapsto> service_map (ce_Services ce))\<rparr>))"

fun register_clients ::
  "(bytes \<Rightarrow> 'pk option) \<Rightarrow> ClientEntry list \<Rightarrow> ('pk, 'kp) Server \<Rightarrow> server_error + ('pk, 'kp) Server" where
  "register_clients unmarshal_pk [] srv = Inr srv"
| "register_clients unmarshal_pk (ce # ces) srv =
     (case register_client unmarshal_pk ce srv of
        Inl err \<Rightarrow> Inl err
      | Inr srv' \<Rightarrow> register_clients unmarshal_pk ces srv')"

definition NewServer ::
  "(string \<Rightarrow> string \<Rightarrow> string + 'kp) \<Rightarrow> (bytes \<Rightarrow> 'pk option) \<Rightarrow> ServerConfig
     \<Rightarrow> server_error + ('pk, 'kp) Server" where
  "NewServer load_keypair unmarshal_pk cfg =
     (case serverTLSConfig load_keypair (tls_Cert (sc_TLS cfg)) (tls_Key (sc_TLS cfg)) of
        Inl err \<Rightarrow> Inl (TLSFailed err)
      | Inr tlsCfg \<Rightarrow>
          register_clients unmarshal_pk (sc_Clients cfg)
            \<lparr>srv_cfg = cfg, srv_tlsCfg = tlsCfg, srv_clientsByID = Map.empty,
             srv_clientPubs = Map.empty, srv_clientPQPubs = Map.empty, srv_allowed = Map.empty,
             srv_handshakeSem = maxPendingHandshakes\<rparr>)"

section \<open>Authentication\<close>

text \<open>The loop over the requested services stops at the first one the client may not offer.\<close>

definition first_refused :: "(string \<rightharpoonup> ServiceEntry) \<Rightarrow> string list \<Rightarrow> string option" where
  "first_refused allowed names = find (\<lambda>name. allowed name = None) names"

text \<open>Looking up a missing key in a Go map of maps or of slices gives the empty one.\<close>

definition validateAuth ::
  "(bytes \<Rightarrow> bytes \<Rightarrow> bytes \<Rightarrow> bool) \<Rightarrow> ('pk \<Rightarrow> bytes \<Rightarrow> bytes \<Rightarrow> bytes \<Rightarrow> bool) \<Rightarrow> ('pk, 'kp) Server
     \<Rightarrow> Time \<Rightarrow> bytes \<Rightarrow> bytes \<Rightarrow> ClientAuth \<Rightarrow> string \<times> bool" where
  "validateAuth ed_verify ml_verify srv now nonce exporter ca =
     (if CheckClockSkew now (ca_ClientTime ca) \<noteq> None then (''clock skew'', False)
      else case srv_clientPubs srv (ca_ClientID ca) of
        None \<Rightarrow> (''unknown client id'', False)
      | Some pubs \<Rightarrow>
          if Verify ed_verify pubs (ca_Signature ca) nonce exporter (ca_ClientID ca) (ca_ClientTime ca) \<noteq> None
          then (''bad signature'', False)
          else if ca_RequestedServices ca = [] then (''no services requested'', False)
          else
            (let allowed = (case srv_allowed srv (ca_ClientID ca) of Some m \<Rightarrow> m | None \<Rightarrow> Map.empty) in
             case first_refused allowed (ca_RequestedServices ca) of
               Some name \<Rightarrow> (''service '' @ name @ '' not allowed'', False)
             | None \<Rightarrow>
                 (let pqPubs = (case srv_clientPQPubs srv (ca_ClientID ca) of Some ps \<Rightarrow> ps | None \<Rightarrow> []) in
                  if ca_PQAlgorithm ca = [] \<or> ca_PQSignature ca = [] then (''pq signature required'', False)
                  else if ca_PQAlgorithm ca \<noteq> PQAlgorithmMLDSA
                  then (''unknown pq_algorithm '' @ ca_PQAlgorithm ca, False)
                  else if PQVerify ml_verify pqPubs (ca_PQSignature ca) nonce exporter (ca_ClientID ca)
                            (ca_ClientTime ca) (ca_RequestedServices ca) \<noteq> None
                  then (''bad pq signature'', False)
                  else ([], True))))"

text \<open>The 12 bytes are the buffer after \<open>rand.Read\<close>, whose error the code ignores.\<close>

definition newSessionID :: "bytes \<Rightarrow> string" where
  "newSessionID b = hex_EncodeToString b"

section \<open>The handshake\<close>

datatype handshake_error = HSAuth auth_error | HSProto proto_error | HSRejected string

text \<open>The answer to the client once \<open>validateAuth\<close> has decided.\<close>

fun handshake_answer ::
  "bytes \<Rightarrow> ClientAuth \<Rightarrow> string \<times> bool \<Rightarrow> net_conn
     \<Rightarrow> (handshake_error + (string \<times> string \<times> string list)) \<times> net_conn" where
  "handshake_answer sidBytes ca (reason, False) c =
     (Inl (HSRejected reason),
      snd (conn_write marshal_AuthFailed c \<lparr>af_Reason = ''authentication failed''\<rparr>))"
| "handshake_answer sidBytes ca (reason, True) c =
     (let sid = newSessionID sidBytes in
      case conn_write marshal_Accepted c \<lparr>ac_SessionID = sid\<rparr> of
        (Some err, c) \<Rightarrow> (Inl (HSProto err), c)
      | (None, c) \<Rightarrow> (Inr (ca_ClientID ca, sid, ca_RequestedServices ca), c))"

text \<open>The exchange between setting and clearing the deadline.\<close>

definition handshake_body ::
  "(bytes \<Rightarrow> bytes \<Rightarrow> bytes \<Rightarrow> bool) \<Rightarrow> ('pk \<Rightarrow> bytes \<Rightarrow> bytes \<Rightarrow> bytes \<Rightarrow> bool) \<Rightarrow> ('pk, 'kp) Server
     \<Rightarrow> (nat \<Rightarrow> string + bytes) \<Rightarrow> bytes \<Rightarrow> Time \<Rightarrow> Time \<Rightarrow> bytes \<Rightarrow> net_conn
     \<Rightarrow> (handshake_error + (string \<times> string \<times> string list)) \<times> net_conn" where
  "handshake_body ed_verify ml_verify srv rand_read sidBytes now_hello now_auth exporter c =
     (case NewNonce rand_read of
        Inl err \<Rightarrow> (Inl (HSAuth err), c)
      | Inr nonce \<Rightarrow>
        (case conn_write marshal_ServerHello c \<lparr>sh_Nonce = nonce, sh_ServerTime = unix_seconds now_hello\<rparr> of
           (Some err, c) \<Rightarrow> (Inl (HSProto err), c)
         | (None, c) \<Rightarrow>
           (case conn_read unmarshal_ClientAuth c of
              (Inl err, c) \<Rightarrow> (Inl (HSProto err), c)
            | (Inr ca, c) \<Rightarrow>
              handshake_answer sidBytes ca (validateAuth ed_verify ml_verify srv now_auth nonce exporter ca) c)))"

definition runHandshake ::
  "(bytes \<Rightarrow> bytes \<Rightarrow> bytes \<Rightarrow> bool) \<Rightarrow> ('pk \<Rightarrow> bytes \<Rightarrow> bytes \<Rightarrow> bytes \<Rightarrow> bool) \<Rightarrow> ('pk, 'kp) Server
     \<Rightarrow> (nat \<Rightarrow> string + bytes) \<Rightarrow> bytes \<Rightarrow> Time \<Rightarrow> Time \<Rightarrow> Time option \<Rightarrow> bytes \<Rightarrow> net_conn
     \<Rightarrow> (handshake_error + (string \<times> string \<times> string list)) \<times> net_conn" where
  "runHandshake ed_verify ml_verify srv rand_read sidBytes now_hello now_auth deadline exporter c =
     (case deadline of
        Some d \<Rightarrow>
          (let (r, c') = handshake_body ed_verify ml_verify srv rand_read sidBytes now_hello now_auth
                           exporter (SetDeadline c (Some d))
           in (r, SetDeadline c' None))
      | None \<Rightarrow> handshake_body ed_verify ml_verify srv rand_read sidBytes now_hello now_auth exporter c)"

section \<open>The tables\<close>

lemma decode_all_Inr_iff:
  "decode_all decode txts = Inr ks \<longleftrightarrow> list_all2 (\<lambda>txt k. decode txt = Inr k) txts ks"
proof (induction txts arbitrary: ks)
  case (Cons x txts)
  show ?case
    by (cases "decode x"; cases "decode_all decode txts"; cases ks)
      (auto simp: Cons.IH [symmetric])
qed auto

lemma service_map_snoc [simp]: "service_map (ss @ [s]) = (service_map ss)(se_Name s \<mapsto> s)"
  by (simp add: service_map_def)

lemma service_map_Nil [simp]: "service_map [] = Map.empty"
  by (simp add: service_map_def)

lemma service_map_Some:
  "service_map ss name = Some s \<Longrightarrow> s \<in> set ss \<and> se_Name s = name"
  by (induction ss rule: rev_induct) (auto split: if_splits)

lemma service_map_None_iff: "service_map ss name = None \<longleftrightarrow> name \<notin> se_Name ` set ss"
  by (induction ss rule: rev_induct) auto

lemma service_map_distinct:
  "distinct (map se_Name ss) \<Longrightarrow> s \<in> set ss \<Longrightarrow> service_map ss (se_Name s) = Some s"
  by (induction ss rule: rev_induct) (auto simp: image_iff)

text \<open>The tables describe a client exactly when its keys decode, entry by entry.\<close>

definition tables_for :: "(bytes \<Rightarrow> 'pk option) \<Rightarrow> ('pk, 'kp) Server \<Rightarrow> ClientEntry \<Rightarrow> bool" where
  "tables_for unmarshal_pk srv ce \<longleftrightarrow>
     srv_clientsByID srv (ce_ID ce) = Some ce \<and>
     (\<exists>pubs. srv_clientPubs srv (ce_ID ce) = Some pubs \<and>
        list_all2 (\<lambda>txt k. DecodePubkey txt = Inr k) (ce_Pubkey ce) pubs) \<and>
     (\<exists>pqs. srv_clientPQPubs srv (ce_ID ce) = Some (map Some pqs) \<and>
        list_all2 (\<lambda>txt k. DecodePQPubkey unmarshal_pk txt = Inr k) (ce_PQPubkey ce) pqs) \<and>
     srv_allowed srv (ce_ID ce) = Some (service_map (ce_Services ce))"

definition table_domains :: "('pk, 'kp) Server \<Rightarrow> string set \<Rightarrow> bool" where
  "table_domains srv ids \<longleftrightarrow> dom (srv_clientsByID srv) = ids \<and> dom (srv_clientPubs srv) = ids \<and>
     dom (srv_clientPQPubs srv) = ids \<and> dom (srv_allowed srv) = ids"

lemma register_client_tables:
  assumes "register_client unmarshal_pk ce srv = Inr srv'"
  shows "tables_for unmarshal_pk srv' ce"
    and "ce_ID ce' \<noteq> ce_ID ce \<Longrightarrow> tables_for unmarshal_pk srv' ce' = tables_for unmarshal_pk srv ce'"
    and "table_domains srv ids \<Longrightarrow> table_domains srv' (insert (ce_ID ce) ids)"
    and "srv_cfg srv' = srv_cfg srv \<and> srv_tlsCfg srv' = srv_tlsCfg srv \<and>
         srv_handshakeSem srv' = srv_handshakeSem srv"
proof -
  from assms obtain pubs pqs where
    d: "decode_all DecodePubkey (ce_Pubkey ce) = Inr pubs"
      "decode_all (DecodePQPubkey unmarshal_pk) (ce_PQPubkey ce) = Inr pqs" and
    srv': "srv' = srv\<lparr>srv_clientsByID := (srv_clientsByID srv)(ce_ID ce \<mapsto> ce),
                 srv_clientPubs := (srv_clientPubs srv)(ce_ID ce \<mapsto> pubs),
                 srv_clientPQPubs := (srv_clientPQPubs srv)(ce_ID ce \<mapsto> map Some pqs),
                 srv_allowed := (srv_allowed srv)(ce_ID ce \<mapsto> service_map (ce_Services ce))\<rparr>"
    by (auto simp: register_client_def split: sum.splits if_splits)
  show "tables_for unmarshal_pk srv' ce"
    using d by (auto simp: srv' tables_for_def decode_all_Inr_iff)
  show "ce_ID ce' \<noteq> ce_ID ce \<Longrightarrow> tables_for unmarshal_pk srv' ce' = tables_for unmarshal_pk srv ce'"
    by (simp add: srv' tables_for_def)
  show "table_domains srv ids \<Longrightarrow> table_domains srv' (insert (ce_ID ce) ids)"
    by (simp add: srv' table_domains_def)
  show "srv_cfg srv' = srv_cfg srv \<and> srv_tlsCfg srv' = srv_tlsCfg srv \<and>
      srv_handshakeSem srv' = srv_handshakeSem srv"
    by (simp add: srv')
qed

lemma register_clients_tables:
  assumes "register_clients unmarshal_pk ces srv = Inr srv'" and "distinct (map ce_ID ces)"
  shows "(\<forall>ce \<in> set ces. tables_for unmarshal_pk srv' ce) \<and>
    (\<forall>ce. ce_ID ce \<notin> ce_ID ` set ces \<longrightarrow> tables_for unmarshal_pk srv ce \<longrightarrow> tables_for unmarshal_pk srv' ce) \<and>
    (\<forall>ids. table_domains srv ids \<longrightarrow> table_domains srv' (ids \<union> ce_ID ` set ces)) \<and>
    srv_cfg srv' = srv_cfg srv \<and> srv_tlsCfg srv' = srv_tlsCfg srv \<and> srv_handshakeSem srv' = srv_handshakeSem srv"
  using assms
proof (induction ces arbitrary: srv)
  case (Cons ce ces)
  then obtain srv1 where r: "register_client unmarshal_pk ce srv = Inr srv1"
    "register_clients unmarshal_pk ces srv1 = Inr srv'"
    by (auto split: sum.splits)
  note step = register_client_tables [OF r(1)]
  from Cons.IH [OF r(2)] Cons.prems(2) step show ?case
    by (simp del: Un_insert_right) (metis Un_insert_left Un_insert_right)
qed simp

lemma NewServer_tables:
  assumes "NewServer load_keypair unmarshal_pk cfg = Inr srv" and "distinct (map ce_ID (sc_Clients cfg))"
  shows "\<forall>ce \<in> set (sc_Clients cfg). tables_for unmarshal_pk srv ce"
    and "table_domains srv (ce_ID ` set (sc_Clients cfg))"
    and "srv_cfg srv = cfg" and "srv_handshakeSem srv = maxPendingHandshakes"
    and "VerifyConnection (srv_tlsCfg srv) = requirePQCurve"
proof -
  from assms(1) obtain tls where
    "serverTLSConfig load_keypair (tls_Cert (sc_TLS cfg)) (tls_Key (sc_TLS cfg)) = Inr tls" and
    r: "register_clients unmarshal_pk (sc_Clients cfg)
          \<lparr>srv_cfg = cfg, srv_tlsCfg = tls, srv_clientsByID = Map.empty,
             srv_clientPubs = Map.empty, srv_clientPQPubs = Map.empty, srv_allowed = Map.empty,
             srv_handshakeSem = maxPendingHandshakes\<rparr> = Inr srv"
    by (auto simp: NewServer_def split: sum.splits)
  then have tls: "VerifyConnection tls = requirePQCurve"
    by (auto simp: serverTLSConfig_def split: sum.splits)
  note t = register_clients_tables [OF r assms(2)]
  show "\<forall>ce \<in> set (sc_Clients cfg). tables_for unmarshal_pk srv ce" using t by blast
  show "table_domains srv (ce_ID ` set (sc_Clients cfg))"
    using t by (auto simp: table_domains_def [of "\<lparr>srv_cfg = _, srv_tlsCfg = _, srv_clientsByID = _,
      srv_clientPubs = _, srv_clientPQPubs = _, srv_allowed = _, srv_handshakeSem = _\<rparr>"])
  show "srv_cfg srv = cfg" "srv_handshakeSem srv = maxPendingHandshakes"
    "VerifyConnection (srv_tlsCfg srv) = requirePQCurve"
    using t tls by simp_all
qed

section \<open>Authentication: what is accepted\<close>

lemma validateAuth_accept_iff:
  "validateAuth ed_verify ml_verify srv now nonce exporter ca = (reason, True) \<longleftrightarrow>
     reason = [] \<and> CheckClockSkew now (ca_ClientTime ca) = None \<and>
     (\<exists>pubs. srv_clientPubs srv (ca_ClientID ca) = Some pubs \<and>
        Verify ed_verify pubs (ca_Signature ca) nonce exporter (ca_ClientID ca) (ca_ClientTime ca) = None) \<and>
     ca_RequestedServices ca \<noteq> [] \<and>
     (\<forall>name \<in> set (ca_RequestedServices ca).
        \<exists>m. srv_allowed srv (ca_ClientID ca) = Some m \<and> m name \<noteq> None) \<and>
     ca_PQAlgorithm ca = PQAlgorithmMLDSA \<and>
     (\<exists>pqs. srv_clientPQPubs srv (ca_ClientID ca) = Some pqs \<and>
        PQVerify ml_verify pqs (ca_PQSignature ca) nonce exporter (ca_ClientID ca) (ca_ClientTime ca)
          (ca_RequestedServices ca) = None)"
proof -
  have pq_nil: "PQVerify ml_verify pqs [] n e i t rs = Some ErrPQBadSignature" for pqs n e i t rs
    by (simp add: PQVerify_def ml_sizes)
  have pq_none: "PQVerify ml_verify [] sig n e i t rs = Some ErrPQBadSignature" for sig n e i t rs
    by (simp add: PQVerify_def)
  have alg: "PQAlgorithmMLDSA \<noteq> []" by (simp add: PQAlgorithmMLDSA_def)
  show ?thesis
    using alg unfolding validateAuth_def Let_def first_refused_def
    by (auto split: option.splits simp: find_None_iff find_Some_iff pq_nil pq_none dest: nth_mem)
qed

text \<open>
  The specification of an acceptable \<open>ClientAuth\<close>, over the configuration file rather than the
  tables: a configured client of that name has an Ed25519 key and an ML-DSA key that verify the two
  signatures over this connection's nonce and exporter, and offers only services listed for it.
\<close>

definition entitled ::
  "(bytes \<Rightarrow> bytes \<Rightarrow> bytes \<Rightarrow> bool) \<Rightarrow> ('pk \<Rightarrow> bytes \<Rightarrow> bytes \<Rightarrow> bytes \<Rightarrow> bool) \<Rightarrow> (bytes \<Rightarrow> 'pk option)
     \<Rightarrow> bytes \<Rightarrow> bytes \<Rightarrow> ClientAuth \<Rightarrow> ClientEntry \<Rightarrow> bool" where
  "entitled ed_verify ml_verify unmarshal_pk nonce exporter ca ce \<longleftrightarrow>
     ce_ID ce = ca_ClientID ca \<and>
     (\<exists>k \<in> set (ce_Pubkey ce). \<exists>pub. DecodePubkey k = Inr pub \<and> length (ca_Signature ca) = 64 \<and>
        ed_verify pub (SigningInput nonce exporter (ca_ClientID ca) (ca_ClientTime ca)) (ca_Signature ca)) \<and>
     ca_RequestedServices ca \<noteq> [] \<and>
     set (ca_RequestedServices ca) \<subseteq> se_Name ` set (ce_Services ce) \<and>
     ca_PQAlgorithm ca = ''mldsa'' \<and>
     (\<exists>k \<in> set (ce_PQPubkey ce). \<exists>pk. DecodePQPubkey unmarshal_pk k = Inr pk \<and>
        length (ca_PQSignature ca) = 3309 \<and>
        ml_verify pk (PQSigningInput nonce exporter (ca_ClientID ca) (ca_ClientTime ca) (ca_RequestedServices ca))
          (str_bytes PQAuthLabel) (ca_PQSignature ca))"

lemma entitled_id:
  "entitled ed_verify ml_verify unmarshal_pk nonce exporter ca ce \<Longrightarrow> ce_ID ce = ca_ClientID ca"
  by (simp add: entitled_def)

lemma list_all2_set1: "list_all2 P xs ys \<Longrightarrow> x \<in> set xs \<Longrightarrow> \<exists>y \<in> set ys. P x y"
  by (induction rule: list_all2_induct) auto

lemma list_all2_set2: "list_all2 P xs ys \<Longrightarrow> y \<in> set ys \<Longrightarrow> \<exists>x \<in> set xs. P x y"
  by (induction rule: list_all2_induct) auto

lemma Verify_texts:
  assumes "list_all2 (\<lambda>k pub. DecodePubkey k = Inr pub) ks pubs"
  shows "Verify ver pubs sig nonce exporter cid t = None \<longleftrightarrow>
    (\<exists>k \<in> set ks. \<exists>pub. DecodePubkey k = Inr pub \<and> length sig = 64 \<and>
       ver pub (SigningInput nonce exporter cid t) sig)"
proof -
  have "set pubs = {pub. \<exists>k \<in> set ks. DecodePubkey k = Inr pub}"
    using list_all2_set1 [OF assms] list_all2_set2 [OF assms] by fastforce
  moreover have "length pub = ed_PublicKeySize" if "DecodePubkey k = Inr pub" for k pub
    using DecodePubkey_sound [OF that] by blast
  ultimately show ?thesis unfolding Verify_iff ed_SignatureSize_def by auto
qed

lemma PQVerify_texts:
  assumes "list_all2 (\<lambda>k pk. DecodePQPubkey unmarshal_pk k = Inr pk) ks pqs"
  shows "PQVerify ver (map Some pqs) sig nonce exporter cid t rs = None \<longleftrightarrow>
    (\<exists>k \<in> set ks. \<exists>pk. DecodePQPubkey unmarshal_pk k = Inr pk \<and> length sig = 3309 \<and>
       ver pk (PQSigningInput nonce exporter cid t rs) (str_bytes PQAuthLabel) sig)"
proof -
  have "set pqs = {pk. \<exists>k \<in> set ks. DecodePQPubkey unmarshal_pk k = Inr pk}"
    using list_all2_set1 [OF assms] list_all2_set2 [OF assms] by fastforce
  then show ?thesis unfolding PQVerify_iff ml_SignatureSize_def set_map by blast
qed

lemma validateAuth_entitled:
  assumes "NewServer load_keypair unmarshal_pk cfg = Inr srv" and "distinct (map ce_ID (sc_Clients cfg))"
  shows "validateAuth ed_verify ml_verify srv now nonce exporter ca = ([], True) \<longleftrightarrow>
     CheckClockSkew now (ca_ClientTime ca) = None \<and>
     (\<exists>ce \<in> set (sc_Clients cfg). entitled ed_verify ml_verify unmarshal_pk nonce exporter ca ce)"
proof (cases "\<exists>ce \<in> set (sc_Clients cfg). ce_ID ce = ca_ClientID ca")
  case True
  then obtain ce where ce: "ce \<in> set (sc_Clients cfg)" "ce_ID ce = ca_ClientID ca" by blast
  have uniq: "ce' = ce" if "ce' \<in> set (sc_Clients cfg)" "ce_ID ce' = ca_ClientID ca" for ce'
    using that ce assms(2) unfolding distinct_map by (metis inj_onD)
  have "tables_for unmarshal_pk srv ce" using NewServer_tables(1) [OF assms] ce by blast
  then obtain pubs pqs where
    t: "srv_clientPubs srv (ca_ClientID ca) = Some pubs"
      "srv_clientPQPubs srv (ca_ClientID ca) = Some (map Some pqs)"
      "srv_allowed srv (ca_ClientID ca) = Some (service_map (ce_Services ce))" and
    l: "list_all2 (\<lambda>k pub. DecodePubkey k = Inr pub) (ce_Pubkey ce) pubs"
      "list_all2 (\<lambda>k pk. DecodePQPubkey unmarshal_pk k = Inr pk) (ce_PQPubkey ce) pqs"
    unfolding tables_for_def ce(2) by blast
  have E: "(\<exists>ce \<in> set (sc_Clients cfg). entitled ed_verify ml_verify unmarshal_pk nonce exporter ca ce) \<longleftrightarrow>
      entitled ed_verify ml_verify unmarshal_pk nonce exporter ca ce"
    using ce uniq entitled_id by metis
  have svc: "set rs \<subseteq> se_Name ` set (ce_Services ce) \<longleftrightarrow>
      (\<forall>name \<in> set rs. service_map (ce_Services ce) name \<noteq> None)" for rs
    unfolding service_map_None_iff by blast
  show ?thesis
    unfolding validateAuth_accept_iff E unfolding entitled_def ce(2) PQAlgorithmMLDSA_def t svc
      Verify_texts [OF l(1), symmetric] PQVerify_texts [OF l(2), symmetric]
    by simp
next
  case False
  then have "ca_ClientID ca \<notin> dom (srv_clientPubs srv)"
    using NewServer_tables(2) [OF assms] by (auto simp only: table_domains_def)
  with False show ?thesis by (auto simp: validateAuth_accept_iff entitled_def)
qed

section \<open>The handshake: what each outcome means\<close>

text \<open>Any outcome but an error of the random source or of the connection comes from the verdict.\<close>

lemma handshake_body_stages:
  assumes run: "handshake_body ed_verify ml_verify srv rand_read sidBytes now1 now2 exporter c = (r, c')"
    and r: "\<And>e. r \<noteq> Inl (HSAuth e)" "\<And>e. r \<noteq> Inl (HSProto e)"
  obtains nonce c1 ca c2 where
    "rand_read 32 = Inr nonce"
    "conn_write marshal_ServerHello c \<lparr>sh_Nonce = nonce, sh_ServerTime = unix_seconds now1\<rparr> = (None, c1)"
    "conn_read unmarshal_ClientAuth c1 = (Inr ca, c2)"
    "fst (ReadMessage unmarshal_ClientAuth (nc_in c)) = Inr ca"
    "(r, c') = handshake_answer sidBytes ca (validateAuth ed_verify ml_verify srv now2 nonce exporter ca) c2"
proof -
  obtain nonce where n: "rand_read 32 = Inr nonce"
    using run r(1) by (cases "rand_read 32") (auto simp: handshake_body_def NewNonce_def)
  let ?hello = "\<lparr>sh_Nonce = nonce, sh_ServerTime = unix_seconds now1\<rparr>"
  obtain e1 c1 where w1: "conn_write marshal_ServerHello c ?hello = (e1, c1)" by fastforce
  from run r(2) n w1 have e1: "e1 = None" by (cases e1) (auto simp: handshake_body_def NewNonce_def)
  obtain v c2 where r1: "conn_read unmarshal_ClientAuth c1 = (v, c2)" by fastforce
  from run r(2) n w1 e1 r1 obtain ca where v: "v = Inr ca"
    by (cases v) (auto simp: handshake_body_def NewNonce_def)
  have "fst (ReadMessage unmarshal_ClientAuth (nc_in c)) = Inr ca"
    using r1 v conn_write_keeps(1) [OF w1] by (auto simp: conn_read_def split: prod.splits)
  moreover have "(r, c') =
      handshake_answer sidBytes ca (validateAuth ed_verify ml_verify srv now2 nonce exporter ca) c2"
    using n w1 e1 r1 v run by (simp add: handshake_body_def NewNonce_def)
  ultimately show thesis using that n w1 e1 r1 v by blast
qed

lemma handshake_body_ok:
  assumes "handshake_body ed_verify ml_verify srv rand_read sidBytes now1 now2 exporter c =
    (Inr (cid, sid, rs), c')"
  shows "\<exists>nonce ca hello acc. rand_read 32 = Inr nonce \<and>
     fst (ReadMessage unmarshal_ClientAuth (nc_in c)) = Inr ca \<and>
     validateAuth ed_verify ml_verify srv now2 nonce exporter ca = ([], True) \<and>
     cid = ca_ClientID ca \<and> rs = ca_RequestedServices ca \<and> sid = newSessionID sidBytes \<and>
     marshal_ServerHello \<lparr>sh_Nonce = nonce, sh_ServerTime = unix_seconds now1\<rparr> = Inr hello \<and>
     marshal_Accepted \<lparr>ac_SessionID = sid\<rparr> = Inr acc \<and>
     length hello \<le> MaxMessageSize \<and> length acc \<le> MaxMessageSize \<and>
     wr_out (nc_out c') = wr_out (nc_out c) @ frame hello @ frame acc"
proof -
  obtain nonce c1 ca c2 where n: "rand_read 32 = Inr nonce" and
    w1: "conn_write marshal_ServerHello c \<lparr>sh_Nonce = nonce, sh_ServerTime = unix_seconds now1\<rparr> = (None, c1)" and
    r: "conn_read unmarshal_ClientAuth c1 = (Inr ca, c2)" and
    m: "fst (ReadMessage unmarshal_ClientAuth (nc_in c)) = Inr ca" and
    fin: "(Inr (cid, sid, rs), c') = handshake_answer sidBytes ca (validateAuth ed_verify ml_verify srv now2 nonce exporter ca) c2"
    using handshake_body_stages [OF assms] by blast
  obtain reason ok where v: "validateAuth ed_verify ml_verify srv now2 nonce exporter ca = (reason, ok)"
    by fastforce
  with fin have ok: "ok" by (cases ok) auto
  with v have v': "validateAuth ed_verify ml_verify srv now2 nonce exporter ca = ([], True)"
    by (simp add: validateAuth_accept_iff)
  with fin have res: "cid = ca_ClientID ca" "sid = newSessionID sidBytes" "rs = ca_RequestedServices ca" and
    w2: "conn_write marshal_Accepted c2 \<lparr>ac_SessionID = newSessionID sidBytes\<rparr> = (None, c')"
    by (auto simp: Let_def split: prod.splits option.splits)
  show ?thesis
    using n m v' res conn_write_ok [OF w1] conn_write_ok [OF w2] conn_read_keeps(1) [OF r] by auto
qed

text \<open>
  A refused client is told nothing about the reason: what it receives after the hello is (a prefix
  of) one fixed message.
\<close>

lemma handshake_body_rejected:
  assumes "handshake_body ed_verify ml_verify srv rand_read sidBytes now1 now2 exporter c =
    (Inl (HSRejected reason), c')"
    and "marshal_AuthFailed \<lparr>af_Reason = ''authentication failed''\<rparr> = Inr failed"
  shows "\<exists>nonce ca hello k. rand_read 32 = Inr nonce \<and>
     fst (ReadMessage unmarshal_ClientAuth (nc_in c)) = Inr ca \<and>
     validateAuth ed_verify ml_verify srv now2 nonce exporter ca = (reason, False) \<and>
     marshal_ServerHello \<lparr>sh_Nonce = nonce, sh_ServerTime = unix_seconds now1\<rparr> = Inr hello \<and>
     wr_out (nc_out c') = wr_out (nc_out c) @ frame hello @ take k (frame failed)"
proof -
  obtain nonce c1 ca c2 where n: "rand_read 32 = Inr nonce" and
    w1: "conn_write marshal_ServerHello c \<lparr>sh_Nonce = nonce, sh_ServerTime = unix_seconds now1\<rparr> = (None, c1)" and
    r: "conn_read unmarshal_ClientAuth c1 = (Inr ca, c2)" and
    m: "fst (ReadMessage unmarshal_ClientAuth (nc_in c)) = Inr ca" and
    fin: "(Inl (HSRejected reason), c') = handshake_answer sidBytes ca (validateAuth ed_verify ml_verify srv now2 nonce exporter ca) c2"
    using handshake_body_stages [OF assms(1)] by blast
  obtain why ok where v: "validateAuth ed_verify ml_verify srv now2 nonce exporter ca = (why, ok)"
    by fastforce
  with fin have v': "\<not> ok" "why = reason"
    by (cases ok; auto simp: Let_def split: prod.splits option.splits)+
  with fin v have w2: "c' = snd (conn_write marshal_AuthFailed c2 \<lparr>af_Reason = ''authentication failed''\<rparr>)"
    by simp
  obtain k where "wr_out (nc_out c') = wr_out (nc_out c2) @ take k (frame failed)"
    using conn_write_prefix [of marshal_AuthFailed, OF assms(2)] unfolding w2 by blast
  then show ?thesis
    using n m v v' conn_write_ok [OF w1] conn_read_keeps(1) [OF r] by auto
qed

text \<open>The bytes of a refusal, on a connection that takes everything.\<close>

lemma unlimited_write:
  assumes "wr_room (nc_out c) = None" and "marshal v = Inr body"
  shows "nc_out (snd (conn_write marshal c v)) =
    (nc_out c)\<lparr>wr_out := wr_out (nc_out c) @ (if length body \<le> MaxMessageSize then frame body else [])\<rparr>"
  using assms by (simp add: conn_write_def WriteMessage_def frame_def)

lemma rejected_output:
  assumes "handshake_body ed_verify ml_verify srv rand_read sidBytes now1 now2 exporter c =
      (Inl (HSRejected reason), c')" and "wr_room (nc_out c) = None"
    and "rand_read 32 = Inr nonce"
    and hello: "marshal_ServerHello \<lparr>sh_Nonce = nonce, sh_ServerTime = unix_seconds now1\<rparr> = Inr hello"
    and failed: "marshal_AuthFailed \<lparr>af_Reason = ''authentication failed''\<rparr> = Inr failed"
  shows "wr_out (nc_out c') = wr_out (nc_out c) @ frame hello @
    (if length failed \<le> MaxMessageSize then frame failed else [])"
proof -
  obtain nonce' c1 ca c2 where n: "rand_read 32 = Inr nonce'" and
    w1: "conn_write marshal_ServerHello c \<lparr>sh_Nonce = nonce', sh_ServerTime = unix_seconds now1\<rparr> = (None, c1)" and
    r: "conn_read unmarshal_ClientAuth c1 = (Inr ca, c2)" and
    fin: "(Inl (HSRejected reason), c') =
      handshake_answer sidBytes ca (validateAuth ed_verify ml_verify srv now2 nonce' exporter ca) c2"
    by (rule handshake_body_stages [OF assms(1)]) simp_all
  have [simp]: "nonce' = nonce" using n assms(3) by simp
  obtain why ok where v: "validateAuth ed_verify ml_verify srv now2 nonce exporter ca = (why, ok)" by fastforce
  with fin have "\<not> ok" by (cases ok) (auto simp: Let_def split: prod.splits option.splits)
  with fin v have c': "c' = snd (conn_write marshal_AuthFailed c2 \<lparr>af_Reason = ''authentication failed''\<rparr>)"
    by simp
  have "nc_out c1 = (nc_out c)\<lparr>wr_out := wr_out (nc_out c) @ frame hello\<rparr>"
    using unlimited_write [OF assms(2), of marshal_ServerHello, OF hello] w1 conn_write_ok [OF w1] hello by simp
  then have "nc_out c2 = (nc_out c)\<lparr>wr_out := wr_out (nc_out c) @ frame hello\<rparr>"
    using conn_read_keeps(1) [OF r] by simp
  then show ?thesis
    using unlimited_write [of c2 marshal_AuthFailed, OF _ failed] assms(2) unfolding c' by simp
qed

section \<open>Properties\<close>

text \<open>
  C3: the server accepts a \<open>ClientAuth\<close> exactly when the client's clock passes the skew check and the
  configuration file entitles the message: a client of that name is configured, an Ed25519 key listed
  for it verifies the 64-byte signature and an ML-DSA key listed for it verifies the 3309-byte
  signature, both over this connection's nonce and exporter, the ML-DSA one also over the requested
  services, and at least one and only listed services are requested.
\<close>

theorem validateAuth_iff_entitled:
  assumes "NewServer load_keypair unmarshal_pk cfg = Inr srv" and "Validate cfg = None"
  shows "validateAuth ed_verify ml_verify srv now nonce exporter ca = ([], True) \<longleftrightarrow>
     CheckClockSkew now (ca_ClientTime ca) = None \<and>
     (\<exists>ce \<in> set (sc_Clients cfg). entitled ed_verify ml_verify unmarshal_pk nonce exporter ca ce)"
  using validateAuth_entitled [OF assms(1)] assms(2)
  by (simp add: Validate_None_iff server_config_ok_def)

text \<open>A server with one client, for the witnesses; its signature schemes are a padded copy of the message.\<close>

definition ex_sign :: "nat \<Rightarrow> bytes \<Rightarrow> bytes" where
  "ex_sign n m = take n (m @ replicate n 0)"

lemma length_ex_sign [simp]: "length (ex_sign n m) = n"
  by (simp add: ex_sign_def)

definition ex_ed_verify :: "bytes \<Rightarrow> bytes \<Rightarrow> bytes \<Rightarrow> bool" where
  "ex_ed_verify pub m sig \<longleftrightarrow> sig = ex_sign 64 m"

definition ex_ml_verify :: "bytes \<Rightarrow> bytes \<Rightarrow> bytes \<Rightarrow> bytes \<Rightarrow> bool" where
  "ex_ml_verify pk m ctx sig \<longleftrightarrow> sig = ex_sign 3309 (ctx @ m)"

definition ex_entry :: ClientEntry where
  "ex_entry = \<lparr>ce_ID = ''alice'', ce_Pubkey = [EncodePubkey (replicate 32 1)],
     ce_PQPubkey = [EncodePQPubkey id (replicate 1952 2)],
     ce_Services = [\<lparr>se_Name = ''ssh'', se_Listen = ''h:22'', se_AllowedUserCIDRs = []\<rparr>]\<rparr>"

definition ex_server_config :: ServerConfig where
  "ex_server_config = \<lparr>sc_Listen = ''h:1'', sc_TLS = \<lparr>tls_Cert = ''c'', tls_Key = ''k''\<rparr>,
     sc_Clients = [ex_entry],
     sc_Limits = \<lparr>lim_MaxStreamsPerClient = 2, lim_HandshakeTimeout = Second, lim_IdleTimeout = 60 * Second,
       lim_HeartbeatInterval = Second\<rparr>\<rparr>"

lemma ex_keys:
  "DecodePubkey (EncodePubkey (replicate 32 1)) = Inr (replicate 32 1)"
  "DecodePQPubkey Some (EncodePQPubkey id (replicate 1952 2)) = Inr (replicate 1952 2)"
  using DecodePubkey_encoded [of "replicate 32 1" StdEncoding]
    DecodePQPubkey_encoded [of Some id "replicate 1952 2" StdEncoding]
  by (simp_all add: EncodePubkey_def EncodePQPubkey_def key_encodings_def ed_sizes ml_sizes)

lemma ex_server_config_ok: "server_config_ok ex_server_config"
proof -
  have "splits ''h:1''" "splits ''h:22''" by code_simp+
  then show ?thesis
    by (simp add: server_config_ok_def ex_server_config_def ex_entry_def client_ok_def service_ok_def
        all_services_def limits_ok_def duration_defs EncodePubkey_def EncodePQPubkey_def
        PubkeyPrefix_def PQPubkeyPrefix_def HasPrefix_def)
qed

lemma ex_server: "\<exists>srv. NewServer (\<lambda>_ _. Inr ()) Some ex_server_config = Inr srv"
  by (simp add: NewServer_def serverTLSConfig_def register_client_def ex_server_config_def ex_entry_def ex_keys)

definition ex_auth :: "bytes \<Rightarrow> bytes \<Rightarrow> string list \<Rightarrow> ClientAuth" where
  "ex_auth nonce exporter rs =
     \<lparr>ca_ClientID = ''alice'', ca_ClientTime = 0,
      ca_Signature = ex_sign 64 (SigningInput nonce exporter ''alice'' 0), ca_RequestedServices = rs,
      ca_PQAlgorithm = ''mldsa'',
      ca_PQSignature = ex_sign 3309 (str_bytes PQAuthLabel @ PQSigningInput nonce exporter ''alice'' 0 rs)\<rparr>"

lemma ex_entitled:
  "entitled ex_ed_verify ex_ml_verify Some nonce exporter (ex_auth nonce exporter rs) ex_entry \<longleftrightarrow>
     rs \<noteq> [] \<and> set rs \<subseteq> {''ssh''}"
  by (auto simp: entitled_def ex_auth_def ex_entry_def ex_keys ex_ed_verify_def ex_ml_verify_def)

theorem validateAuth_iff_entitled_witness:
  "\<exists>srv. NewServer (\<lambda>_ _. Inr ()) Some ex_server_config = Inr srv \<and>
     validateAuth ex_ed_verify ex_ml_verify srv (Unix 5) [1] [2] (ex_auth [1] [2] [''ssh'']) = ([], True) \<and>
     validateAuth ex_ed_verify ex_ml_verify srv (Unix 5) [1] [2] (ex_auth [1] [2] [''web'']) \<noteq> ([], True)"
proof -
  obtain srv where srv: "NewServer (\<lambda>_ _. Inr ()) Some ex_server_config = Inr srv" using ex_server by blast
  have "Validate ex_server_config = None" using ex_server_config_ok by (simp add: Validate_None_iff)
  note iff = validateAuth_iff_entitled [OF srv this]
  have "CheckClockSkew (Unix 5) 0 = None"
    unfolding CheckClockSkew_iff by (simp add: time_ns_def Unix_def unixToInternal_def)
  moreover have "sc_Clients ex_server_config = [ex_entry]" by (simp add: ex_server_config_def)
  moreover have "ca_ClientTime (ex_auth n e rs) = 0" for n e rs by (simp add: ex_auth_def)
  ultimately show ?thesis
    using srv by (intro exI [of _ srv] conjI) (simp_all add: iff ex_entitled)
qed

end
