(* ===== verification/Mux.thy ===== *)
theory Mux
  imports GoTime
begin

text \<open>
  \<open>internal/mux/mux.go\<close>: the settings handed to the multiplexer.  \<open>yamux\<close> is a parameter: its
  default configuration, and its constructors for the two ends.  Of its configuration only the fields
  the program writes are named; the others are \<open>yc_other\<close>.
\<close>

record mux_Config =
  mc_HeartbeatInterval :: Duration
  mc_IdleTimeout :: Duration

datatype log_sink = NilSink | DiscardLogger | OtherSink

record 'o yamux_Config =
  yc_KeepAliveInterval :: Duration
  yc_ConnectionWriteTimeout :: Duration
  yc_LogOutput :: log_sink
  yc_Logger :: log_sink
  yc_other :: 'o

definition toYamuxConfig :: "'o yamux_Config \<Rightarrow> mux_Config \<Rightarrow> 'o yamux_Config" where
  "toYamuxConfig DefaultConfig c =
     (let cfg = DefaultConfig;
          cfg = (if 0 <s mc_HeartbeatInterval c then cfg\<lparr>yc_KeepAliveInterval := mc_HeartbeatInterval c\<rparr> else cfg);
          cfg = (if 0 <s mc_IdleTimeout c then cfg\<lparr>yc_ConnectionWriteTimeout := mc_IdleTimeout c\<rparr> else cfg)
      in cfg\<lparr>yc_LogOutput := NilSink, yc_Logger := DiscardLogger\<rparr>)"

definition mux_Server ::
  "('c \<Rightarrow> 'o yamux_Config \<Rightarrow> string + 'y) \<Rightarrow> 'o yamux_Config \<Rightarrow> 'c \<Rightarrow> mux_Config \<Rightarrow> string + 'y" where
  "mux_Server yamux_Server DefaultConfig conn c = yamux_Server conn (toYamuxConfig DefaultConfig c)"

definition mux_Client ::
  "('c \<Rightarrow> 'o yamux_Config \<Rightarrow> string + 'y) \<Rightarrow> 'o yamux_Config \<Rightarrow> 'c \<Rightarrow> mux_Config \<Rightarrow> string + 'y" where
  "mux_Client yamux_Client DefaultConfig conn c = yamux_Client conn (toYamuxConfig DefaultConfig c)"

text \<open>The multiplexer never logs, and takes the limits that are set.\<close>

lemma toYamuxConfig_fields:
  "yc_KeepAliveInterval (toYamuxConfig d c) =
     (if 0 <s mc_HeartbeatInterval c then mc_HeartbeatInterval c else yc_KeepAliveInterval d)"
  "yc_ConnectionWriteTimeout (toYamuxConfig d c) =
     (if 0 <s mc_IdleTimeout c then mc_IdleTimeout c else yc_ConnectionWriteTimeout d)"
  "yc_LogOutput (toYamuxConfig d c) = NilSink" "yc_Logger (toYamuxConfig d c) = DiscardLogger"
  "yc_other (toYamuxConfig d c) = yc_other d"
  by (simp_all add: toYamuxConfig_def Let_def)

end
