(* ===== verification/TunnelClient.thy ===== *)
theory TunnelClient
  imports Config PqAuth NetConn Mux "HOL-Library.Signed_Division"
begin

text \<open>
  \<open>internal/tunnel/client.go\<close>: the tunnel client.  Its handshake, its connection set-up with every
  early return, the streams it accepts from the server, and the reconnection loop with its backoff.
  What the environment decides (dialling, the TLS session, the multiplexer, clocks, contexts and the
  random numbers) is an argument of the operation that meets it.
\<close>

section \<open>The client\<close>

record ('sk, 'kp) Client =
  cl_cfg :: ClientConfig
  cl_tlsCfg :: "'kp tls_Config"
  cl_priv :: bytes
  cl_pqPriv :: 'sk

datatype client_error =
    LoadPrivkey auth_error | LoadPQPrivkey auth_error | TLSConfigError tls_error
  | Dial string | TLSHandshake tls_failure | Exporter string
  | ReadHello proto_error | PQSignError auth_error | WriteAuth proto_error | ReadAccepted proto_error
  | MissingSessionID | YamuxClient string | AcceptStream string

definition NewClient ::
  "(bytes \<Rightarrow> pem_block option) \<Rightarrow> (bytes \<Rightarrow> bytes) \<Rightarrow> (bytes \<Rightarrow> 'pk \<times> 'sk) \<Rightarrow> (bytes \<Rightarrow> bytes) \<Rightarrow> fs
     \<Rightarrow> ClientConfig \<Rightarrow> client_error + ('sk, 'kp) Client" where
  "NewClient pem_decode key_of new_key_from_seed sha256 s cfg =
     (case LoadPrivkeyPEM pem_decode key_of s (id_PrivkeyFile (cc_Identity cfg)) of
        Inl err \<Rightarrow> Inl (LoadPrivkey err)
      | Inr priv \<Rightarrow>
        (case LoadPQPrivkeyPEM pem_decode new_key_from_seed s (id_PQPrivkeyFile (cc_Identity cfg)) of
           Inl err \<Rightarrow> Inl (LoadPQPrivkey err)
         | Inr (_, pqPriv) \<Rightarrow>
           (case clientTLSConfig sha256 (cc_ServerFingerprint cfg) of
              Inl err \<Rightarrow> Inl (TLSConfigError err)
            | Inr tlsCfg \<Rightarrow>
                Inr \<lparr>cl_cfg = cfg, cl_tlsCfg = tlsCfg, cl_priv = priv, cl_pqPriv = pqPriv\<rparr>)))"

section \<open>The handshake\<close>

definition ClientAuth_for ::
  "(bytes \<Rightarrow> bytes \<Rightarrow> bytes) \<Rightarrow> ('sk, 'kp) Client \<Rightarrow> Time \<Rightarrow> bytes \<Rightarrow> bytes \<Rightarrow> bytes \<Rightarrow> ClientAuth" where
  "ClientAuth_for ed_sign cl now nonce exporter pqSig =
     (let n = unix_seconds now; cid = id_ID (cc_Identity (cl_cfg cl)) in
      \<lparr>ca_ClientID = cid,
       ca_ClientTime = n,
       ca_Signature = Sign ed_sign (cl_priv cl) nonce exporter cid n,
       ca_RequestedServices = ServiceNames (cl_cfg cl),
       ca_PQAlgorithm = PQAlgorithmMLDSA,
       ca_PQSignature = pqSig\<rparr>)"

definition client_exchange ::
  "(bytes \<Rightarrow> bytes \<Rightarrow> bytes) \<Rightarrow> ('sk \<Rightarrow> bytes \<Rightarrow> bytes \<Rightarrow> bool \<Rightarrow> string + bytes) \<Rightarrow> ('sk, 'kp) Client
     \<Rightarrow> Time \<Rightarrow> bytes \<Rightarrow> net_conn \<Rightarrow> (client_error + string) \<times> net_conn" where
  "client_exchange ed_sign ml_sign_to cl now exporter c =
     (case conn_read unmarshal_ServerHello c of
        (Inl err, c) \<Rightarrow> (Inl (ReadHello err), c)
      | (Inr hello, c) \<Rightarrow>
        (case PQSign ml_sign_to (cl_pqPriv cl) (sh_Nonce hello) exporter (id_ID (cc_Identity (cl_cfg cl)))
                (unix_seconds now) (ServiceNames (cl_cfg cl)) of
           Inl err \<Rightarrow> (Inl (PQSignError err), c)
         | Inr pqSig \<Rightarrow>
           (case conn_write marshal_ClientAuth c (ClientAuth_for ed_sign cl now (sh_Nonce hello) exporter pqSig) of
              (Some err, c) \<Rightarrow> (Inl (WriteAuth err), c)
            | (None, c) \<Rightarrow>
              (case conn_read unmarshal_Accepted c of
                 (Inl err, c) \<Rightarrow> (Inl (ReadAccepted err), c)
               | (Inr acc, c) \<Rightarrow>
                   if ac_SessionID acc = [] then (Inl MissingSessionID, c)
                   else (Inr (ac_SessionID acc), c)))))"

text \<open>The deadline is ten seconds after the clock at the start; it is cleared on return.\<close>

definition runHandshake_client ::
  "(bytes \<Rightarrow> bytes \<Rightarrow> bytes) \<Rightarrow> ('sk \<Rightarrow> bytes \<Rightarrow> bytes \<Rightarrow> bool \<Rightarrow> string + bytes) \<Rightarrow> ('sk, 'kp) Client
     \<Rightarrow> Time \<Rightarrow> Time \<Rightarrow> bytes \<Rightarrow> net_conn \<Rightarrow> (client_error + string) \<times> net_conn" where
  "runHandshake_client ed_sign ml_sign_to cl start now exporter c =
     (let (r, c') = client_exchange ed_sign ml_sign_to cl now exporter
                      (SetDeadline c (Some (time_Add start (10 * Second))))
      in (r, SetDeadline c' None))"

section \<open>Connecting\<close>

text \<open>
  The environment of one connection attempt: dialling, the TLS handshake, the clock before and after
  the server's hello, and the successive results of \<open>AcceptStream\<close>, each with whether the context was
  done by then.
\<close>

record client_env =
  ev_dial :: "string + net_conn"
  ev_tls :: "string + tls_session"
  ev_start :: Time
  ev_now :: Time
  ev_accepts :: "((string + net_conn) \<times> bool) list"

text \<open>What the client uses of \<open>yamux\<close>; \<open>yx_Close\<close> is what closing a session does to the connection below it.\<close>

record ('o, 'y) yamux =
  yx_DefaultConfig :: "'o yamux_Config"
  yx_Client :: "net_conn \<Rightarrow> 'o yamux_Config \<Rightarrow> string + 'y"
  yx_Close :: "'y \<Rightarrow> net_conn \<Rightarrow> net_conn"

definition VerifyOnce ::
  "(bytes \<Rightarrow> bytes \<Rightarrow> bytes) \<Rightarrow> ('sk \<Rightarrow> bytes \<Rightarrow> bytes \<Rightarrow> bool \<Rightarrow> string + bytes) \<Rightarrow> ('sk, 'kp) Client
     \<Rightarrow> client_env \<Rightarrow> client_error option \<times> net_conn option" where
  "VerifyOnce ed_sign ml_sign_to cl ev =
     (case ev_dial ev of
        Inl err \<Rightarrow> (Some (Dial err), None)
      | Inr raw \<Rightarrow>
        (case HandshakeContext (cl_tlsCfg cl) (ev_tls ev) of
           Inl err \<Rightarrow> (Some (TLSHandshake err), Some (Close raw))
         | Inr ts \<Rightarrow>
           (case ExportKeyingMaterial ts AuthLabel ExporterLength of
              Inl err \<Rightarrow> (Some (Exporter err), Some (Close raw))
            | Inr exporter \<Rightarrow>
              (case runHandshake_client ed_sign ml_sign_to cl (ev_start ev) (ev_now ev) exporter raw of
                 (Inl err, c) \<Rightarrow> (Some err, Some (Close c))
               | (Inr _, c) \<Rightarrow> (None, Some (Close c))))))"

text \<open>
  \<open>acceptStreams\<close> on the successive results of \<open>AcceptStream\<close>, each with whether the context was
  done by then: the error returned and the streams handed to \<open>handleStream\<close>; \<^const>\<open>None\<close> while
  it is still waiting.
\<close>

fun acceptStreams :: "((string + 's) \<times> bool) list \<Rightarrow> (client_error option \<times> 's list) option" where
  "acceptStreams [] = None"
| "acceptStreams ((Inl err, done) # evs) = Some (if done then None else Some (AcceptStream err), [])"
| "acceptStreams ((Inr stream, done) # evs) =
     map_option (\<lambda>(e, ss). (e, stream # ss)) (acceptStreams evs)"

text \<open>
  The result of \<open>connectAndServe\<close> is \<^const>\<open>None\<close> while it is still accepting streams.  The deferred
  \<open>yam.Close\<close> runs when \<open>acceptStreams\<close> returns.
\<close>

definition client_mux :: mux_Config where
  "client_mux = \<lparr>mc_HeartbeatInterval = 30 * Second, mc_IdleTimeout = 5 * Minute\<rparr>"

definition connectAndServe ::
  "(bytes \<Rightarrow> bytes \<Rightarrow> bytes) \<Rightarrow> ('sk \<Rightarrow> bytes \<Rightarrow> bytes \<Rightarrow> bool \<Rightarrow> string + bytes) \<Rightarrow> ('sk, 'kp) Client
     \<Rightarrow> ('o, 'y) yamux \<Rightarrow> client_env \<Rightarrow> client_error option option \<times> net_conn option" where
  "connectAndServe ed_sign ml_sign_to cl yx ev =
     (case ev_dial ev of
        Inl err \<Rightarrow> (Some (Some (Dial err)), None)
      | Inr raw \<Rightarrow>
        (case HandshakeContext (cl_tlsCfg cl) (ev_tls ev) of
           Inl err \<Rightarrow> (Some (Some (TLSHandshake err)), Some (Close raw))
         | Inr ts \<Rightarrow>
           (case ExportKeyingMaterial ts AuthLabel ExporterLength of
              Inl err \<Rightarrow> (Some (Some (Exporter err)), Some (Close raw))
            | Inr exporter \<Rightarrow>
              (case runHandshake_client ed_sign ml_sign_to cl (ev_start ev) (ev_now ev) exporter raw of
                 (Inl err, c) \<Rightarrow> (Some (Some err), Some (Close c))
               | (Inr sessID, c) \<Rightarrow>
                 (case mux_Client (yx_Client yx) (yx_DefaultConfig yx) c client_mux of
                    Inl err \<Rightarrow> (Some (Some (YamuxClient err)), Some (Close c))
                  | Inr yam \<Rightarrow>
                    (case acceptStreams (ev_accepts ev) of
                       None \<Rightarrow> (None, Some c)
                     | Some (err, _) \<Rightarrow> (Some err, Some (yx_Close yx yam c))))))))"

section \<open>Streams\<close>

datatype stream_outcome =
    OpenReadFailed proto_error | UnknownService string | DialTargetFailed string string | Relayed string

definition handleStream ::
  "ClientConfig \<Rightarrow> (string \<Rightarrow> string option) \<Rightarrow> Time \<Rightarrow> net_conn \<Rightarrow> stream_outcome \<times> net_conn" where
  "handleStream cfg dial_error now stream =
     (let stream = SetReadDeadline stream (Some (time_Add now (10 * Second))) in
      case conn_read unmarshal_Open stream of
        (Inl err, stream) \<Rightarrow> (OpenReadFailed err, Close stream)
      | (Inr open, stream) \<Rightarrow>
          (let stream = SetReadDeadline stream None in
           case map_of (cc_Services cfg) (op_ServiceName open) of
             None \<Rightarrow> (UnknownService (op_ServiceName open), Close stream)
           | Some target \<Rightarrow>
               (case dial_error target of
                  Some err \<Rightarrow> (DialTargetFailed target err, Close stream)
                | None \<Rightarrow> (Relayed target, Close stream))))"

section \<open>Reconnecting\<close>

text \<open>\<open>r\<close> is the number \<open>rand.Int64N(base)\<close> returns.\<close>

definition jitterDelay :: "Duration \<Rightarrow> bool \<Rightarrow> int64 \<Rightarrow> Duration" where
  "jitterDelay base jitter r =
     (if \<not> jitter \<or> base \<le>s 0 then base
      else
        (let half = word_of_int (sint base sdiv 2) in
         if half \<le>s 0 then base else half + r))"

text \<open>\<open>sleepCtx\<close>: whichever of the timer and the context comes first.\<close>

datatype wake = TimerFired | CtxDone

fun sleepCtx :: "wake \<Rightarrow> bool" where
  "sleepCtx CtxDone = False"
| "sleepCtx TimerFired = True"

definition next_backoff :: "Duration \<Rightarrow> Duration \<Rightarrow> Duration" where
  "next_backoff maxBackoff backoff =
     (let b = backoff * 2 in if maxBackoff <s b then maxBackoff else b)"

text \<open>
  One iteration of \<open>Run\<close>'s loop: whether the context is done at its start, the environment of the
  connection attempt, whether the context was done after it, the random number and what ended the
  sleep.
\<close>

record run_step =
  rs_done_before :: bool
  rs_env :: client_env
  rs_done_after :: bool
  rs_rand :: int64
  rs_wake :: wake

text \<open>
  \<open>Run\<close> over the iterations to come: the delays it sleeps for, and whether it has returned (it always
  returns nil), is inside a session, or is at the head of the loop when the given iterations are used
  up.
\<close>

datatype run_state = Returned | Serving Duration | Looping Duration

fun run_loop ::
  "(bytes \<Rightarrow> bytes \<Rightarrow> bytes) \<Rightarrow> ('sk \<Rightarrow> bytes \<Rightarrow> bytes \<Rightarrow> bool \<Rightarrow> string + bytes) \<Rightarrow> ('sk, 'kp) Client
     \<Rightarrow> ('o, 'y) yamux \<Rightarrow> Duration \<Rightarrow> run_step list \<Rightarrow> Duration list \<times> run_state" where
  "run_loop ed_sign ml_sign_to cl yx backoff [] = ([], Looping backoff)"
| "run_loop ed_sign ml_sign_to cl yx backoff (st # sts) =
     (if rs_done_before st then ([], Returned)
      else case fst (connectAndServe ed_sign ml_sign_to cl yx (rs_env st)) of
        None \<Rightarrow> ([], Serving backoff)
      | Some err \<Rightarrow>
        if err = None \<or> rs_done_after st then ([], Returned)
        else
          (let d = jitterDelay backoff (rc_Jitter (cc_Reconnect (cl_cfg cl))) (rs_rand st) in
           if \<not> sleepCtx (rs_wake st) then ([d], Returned)
           else
             (let (ds, res) = run_loop ed_sign ml_sign_to cl yx
                                (next_backoff (rc_MaxBackoff (cc_Reconnect (cl_cfg cl))) backoff) sts
              in (d # ds, res))))"

definition client_Run ::
  "(bytes \<Rightarrow> bytes \<Rightarrow> bytes) \<Rightarrow> ('sk \<Rightarrow> bytes \<Rightarrow> bytes \<Rightarrow> bool \<Rightarrow> string + bytes) \<Rightarrow> ('sk, 'kp) Client
     \<Rightarrow> ('o, 'y) yamux \<Rightarrow> run_step list \<Rightarrow> Duration list \<times> run_state" where
  "client_Run ed_sign ml_sign_to cl yx sts =
     run_loop ed_sign ml_sign_to cl yx (rc_InitialBackoff (cc_Reconnect (cl_cfg cl))) sts"

section \<open>Lemmas on the handshake\<close>

lemma client_exchange_ok:
  assumes "client_exchange ed_sign ml_sign_to cl now exporter c = (Inr sid, c')"
  obtains hello c1 pqSig body acc where
    "conn_read unmarshal_ServerHello c = (Inr hello, c1)"
    "PQSign ml_sign_to (cl_pqPriv cl) (sh_Nonce hello) exporter (id_ID (cc_Identity (cl_cfg cl)))
       (unix_seconds now) (ServiceNames (cl_cfg cl)) = Inr pqSig"
    "marshal_ClientAuth (ClientAuth_for ed_sign cl now (sh_Nonce hello) exporter pqSig) = Inr body"
    "length body \<le> MaxMessageSize"
    "wr_out (nc_out c') = wr_out (nc_out c) @ frame body"
    "fst (ReadMessage unmarshal_Accepted (nc_in c1)) = Inr acc" "sid = ac_SessionID acc" "sid \<noteq> []"
proof -
  obtain h c1 where r1: "conn_read unmarshal_ServerHello c = (h, c1)" by fastforce
  from assms r1 obtain hello where h: "h = Inr hello"
    by (cases h) (auto simp: client_exchange_def)
  let ?sign = "PQSign ml_sign_to (cl_pqPriv cl) (sh_Nonce hello) exporter (id_ID (cc_Identity (cl_cfg cl)))
       (unix_seconds now) (ServiceNames (cl_cfg cl))"
  from assms r1 h obtain pqSig where s: "?sign = Inr pqSig"
    by (cases ?sign) (auto simp: client_exchange_def)
  let ?ca = "ClientAuth_for ed_sign cl now (sh_Nonce hello) exporter pqSig"
  obtain e c2 where w: "conn_write marshal_ClientAuth c1 ?ca = (e, c2)" by fastforce
  from assms r1 h s w have e: "e = None" by (cases e) (auto simp: client_exchange_def)
  obtain a c3 where r2: "conn_read unmarshal_Accepted c2 = (a, c3)" by fastforce
  from assms r1 h s w e r2 obtain acc where a: "a = Inr acc"
    by (cases a) (auto simp: client_exchange_def)
  have fin: "sid = ac_SessionID acc" "sid \<noteq> []" "c' = c3"
    using assms r1 h s w e r2 a by (auto simp: client_exchange_def split: if_splits)
  from conn_write_ok [OF w [unfolded e]] obtain body where
    b: "marshal_ClientAuth ?ca = Inr body" "length body \<le> MaxMessageSize"
      "wr_out (nc_out c2) = wr_out (nc_out c1) @ frame body" by blast
  have "fst (ReadMessage unmarshal_Accepted (nc_in c1)) = Inr acc"
    using r2 a conn_write_keeps(1) [OF w] by (auto simp: conn_read_def split: prod.splits)
  moreover have "wr_out (nc_out c') = wr_out (nc_out c) @ frame body"
    using b(3) conn_read_keeps(1) [OF r1] conn_read_keeps(1) [OF r2] fin(3) by simp
  ultimately show thesis using that r1 h s b(1,2) fin by blast
qed

lemma runHandshake_client_result:
  "fst (runHandshake_client ed_sign ml_sign_to cl start now exporter c) =
     fst (client_exchange ed_sign ml_sign_to cl now exporter (SetDeadline c (Some (time_Add start (10 * Second)))))"
  "nc_read_deadline (snd (runHandshake_client ed_sign ml_sign_to cl start now exporter c)) = None"
  by (simp_all add: runHandshake_client_def split: prod.split)

section \<open>Lemmas on connecting\<close>

text \<open>
  Before the TLS handshake has passed the pinning callback the client sends nothing: a connection
  that carries anything more than before was made to the pinned server over the hybrid key exchange.
\<close>

lemma connectAndServe_cases:
  assumes "ev_dial ev = Inr raw" and "connectAndServe ed_sign ml_sign_to cl yx ev = (e, Some c)"
    and "\<And>y c. nc_closed (yx_Close yx y c)"
  shows "(e \<noteq> None \<longrightarrow> nc_closed c) \<and> (nc_out c = nc_out raw \<or>
     (\<exists>ts. ev_tls ev = Inr ts \<and> VerifyConnection (cl_tlsCfg cl) (ts_state ts) = None))"
  using assms
  by (auto simp: connectAndServe_def HandshakeContext_Inr_iff split: sum.splits prod.splits option.splits)

lemma acceptStreams_nil:
  "acceptStreams evs = Some (None, ss) \<Longrightarrow> \<exists>err. (Inl err, True) \<in> set evs"
  by (induction evs arbitrary: ss rule: acceptStreams.induct) (auto split: if_splits)

text \<open>A session that ends without an error has seen the context done.\<close>

lemma connectAndServe_nil:
  assumes "fst (connectAndServe ed_sign ml_sign_to cl yx ev) = Some None"
  shows "\<exists>err. (Inl err, True) \<in> set (ev_accepts ev)"
  using assms
  by (auto simp: connectAndServe_def dest: acceptStreams_nil split: sum.splits prod.splits option.splits)

lemma NewClient_Inr:
  assumes "NewClient pem_decode key_of new_key sha256 s cfg = Inr cl"
  obtains want where "parseFingerprint (cc_ServerFingerprint cfg) = Inr want"
    "VerifyConnection (cl_tlsCfg cl) = verify_pinned sha256 (cc_ServerFingerprint cfg) want"
    "cl_cfg cl = cfg"
    "LoadPrivkeyPEM pem_decode key_of s (id_PrivkeyFile (cc_Identity cfg)) = Inr (cl_priv cl)"
    "\<exists>pk. LoadPQPrivkeyPEM pem_decode new_key s (id_PQPrivkeyFile (cc_Identity cfg)) = Inr (pk, cl_pqPriv cl)"
  using assms by (auto simp: NewClient_def clientTLSConfig_def split: sum.splits prod.splits)

section \<open>Lemmas on streams\<close>

lemma handleStream_Relayed_iff:
  "fst (handleStream cfg dial_error now stream) = Relayed target \<longleftrightarrow>
     (\<exists>open. fst (ReadMessage unmarshal_Open (nc_in stream)) = Inr open \<and>
        map_of (cc_Services cfg) (op_ServiceName open) = Some target \<and> dial_error target = None)"
  by (auto simp: handleStream_def conn_read_def Let_def split: sum.splits prod.splits option.splits)

lemma handleStream_closed: "nc_closed (snd (handleStream cfg dial_error now stream))"
  by (auto simp: handleStream_def Let_def split: sum.splits prod.splits option.splits)

section \<open>Lemmas on reconnecting\<close>

lemma sint_next_backoff:
  assumes "0 < sint b" and "sint b \<le> sint m" and "sint m < 2 ^ 62"
  shows "sint (next_backoff m b) = min (2 * sint b) (sint m)"
proof -
  have "sint (b * 2) = 2 * sint b"
    using sint_int64_sum [of b b] assms by (simp add: mult.commute)
  then show ?thesis by (auto simp: next_backoff_def Let_def word_sless_alt)
qed

lemma jitterDelay_bounds:
  assumes "1 < sint base" and "sint base < 2 ^ 62" and "0 \<le> sint r" and "sint r < sint base"
  shows "sint base div 2 \<le> sint (jitterDelay base True r) \<and>
    sint (jitterDelay base True r) < sint base div 2 + sint base \<and> 0 < sint (jitterDelay base True r)"
proof -
  have "sint (word_of_int (sint base sdiv 2) :: int64) = sint base div 2"
    using assms by (simp add: signed_divide_int_def sint_word_of_int_in_range)
  moreover from this have "sint (word_of_int (sint base sdiv 2) + r) = sint base div 2 + sint r"
    using assms by (subst sint_int64_sum) auto
  moreover have "1 \<le> sint base div 2" using assms(1) by simp
  ultimately show ?thesis using assms by (auto simp: jitterDelay_def word_sle_eq Let_def)
qed

lemma jitterDelay_range:
  assumes "0 < sint base" and "sint base < 2 ^ 62" and "0 \<le> sint r" and "sint r < sint base"
  shows "0 < sint (jitterDelay base j r) \<and> sint base div 2 \<le> sint (jitterDelay base j r) \<and>
    sint (jitterDelay base j r) \<le> sint base div 2 + sint base"
proof (cases "j \<and> 1 < sint base")
  case True
  then show ?thesis using jitterDelay_bounds [of base r] assms by simp
next
  case False
  then have "jitterDelay base j r = base"
  proof (cases j)
    case True
    with False assms(1) have "sint base = 1" by simp
    then show ?thesis by (simp add: jitterDelay_def Let_def signed_divide_int_def)
  qed (simp add: jitterDelay_def)
  then show ?thesis using assms(1) by simp
qed

text \<open>The backoff before attempt \<open>i + 2\<close>.\<close>

definition backoff_at :: "int \<Rightarrow> int \<Rightarrow> nat \<Rightarrow> int" where
  "backoff_at initial maxb i = min (2 ^ i * initial) maxb"

lemma backoff_at_Suc:
  "0 < b \<Longrightarrow> b \<le> m \<Longrightarrow> backoff_at (min (2 * b) m) m i = backoff_at b m (Suc i)"
proof -
  assume b: "0 < b" "b \<le> m"
  have grow: "x \<le> 2 ^ i * x" if "0 < x" for x :: int
    using that mult_right_mono [of 1 "2 ^ i" x] by simp
  show ?thesis
  proof (cases "2 * b \<le> m")
    case True
    then show ?thesis by (simp add: backoff_at_def mult_ac)
  next
    case False
    then have "m \<le> 2 ^ i * (2 * b)" using grow [of "2 * b"] b by linarith
    with False grow [of m] b show ?thesis by (simp add: backoff_at_def mult_ac)
  qed
qed

lemma backoff_at_pos: "0 < b \<Longrightarrow> b \<le> m \<Longrightarrow> 0 < backoff_at b m i \<and> backoff_at b m i \<le> m"
  by (auto simp: backoff_at_def)

text \<open>An attempt that is over, and an iteration in which something was cancelled.\<close>

definition attempt_over ::
  "(bytes \<Rightarrow> bytes \<Rightarrow> bytes) \<Rightarrow> ('sk \<Rightarrow> bytes \<Rightarrow> bytes \<Rightarrow> bool \<Rightarrow> string + bytes) \<Rightarrow> ('sk, 'kp) Client
     \<Rightarrow> ('o, 'y) yamux \<Rightarrow> run_step \<Rightarrow> bool" where
  "attempt_over ed_sign ml_sign_to cl yx st \<longleftrightarrow>
     fst (connectAndServe ed_sign ml_sign_to cl yx (rs_env st)) \<noteq> None"

definition ctx_seen_done :: "run_step \<Rightarrow> bool" where
  "ctx_seen_done st \<longleftrightarrow> rs_done_before st \<or> rs_done_after st \<or> rs_wake st = CtxDone \<or>
     list_ex (\<lambda>(r, done). done) (ev_accepts (rs_env st))"

lemma wake_cases: "w \<noteq> TimerFired \<longleftrightarrow> w = CtxDone"
  by (cases w) simp_all

text \<open>The delays are those of the successive backoffs.\<close>

lemma run_loop_delays:
  assumes "run_loop ed_sign ml_sign_to cl yx b sts = (ds, res)"
  shows "length ds \<le> length sts \<and> (\<forall>i < length ds.
    ds ! i = jitterDelay ((next_backoff (rc_MaxBackoff (cc_Reconnect (cl_cfg cl))) ^^ i) b)
      (rc_Jitter (cc_Reconnect (cl_cfg cl))) (rs_rand (sts ! i)))"
  using assms
proof (induction sts arbitrary: b ds res)
  case (Cons st sts)
  let ?nb = "next_backoff (rc_MaxBackoff (cc_Reconnect (cl_cfg cl)))"
  let ?d = "jitterDelay b (rc_Jitter (cc_Reconnect (cl_cfg cl))) (rs_rand st)"
  obtain ds' res' where r: "run_loop ed_sign ml_sign_to cl yx (?nb b) sts = (ds', res')" by fastforce
  from Cons.prems r consider "ds = []" | "ds = [?d]" | "ds = ?d # ds'"
    by (auto simp: Let_def split: if_splits option.splits)
  then show ?case
  proof cases
    case 3
    then show ?thesis using Cons.IH [OF r] by (auto simp: nth_Cons funpow_swap1 split: nat.split)
  qed auto
qed simp

lemma backoffs_bounded:
  assumes "0 < sint b" and "sint b \<le> sint m" and "sint m < 2 ^ 62"
  shows "sint ((next_backoff m ^^ i) b) = backoff_at (sint b) (sint m) i"
  using assms(1,2)
proof (induction i arbitrary: b)
  case 0
  then show ?case by (simp add: backoff_at_def)
next
  case (Suc i)
  note n = sint_next_backoff [OF Suc.prems assms(3)]
  have "sint ((next_backoff m ^^ i) (next_backoff m b)) = backoff_at (sint (next_backoff m b)) (sint m) i"
    by (rule Suc.IH) (use n Suc.prems in auto)
  then show ?case using backoff_at_Suc [OF Suc.prems] n by (simp add: funpow_swap1)
qed

text \<open>The client returns only when something was cancelled, and then at the next check.\<close>

lemma run_loop_returned:
  assumes "snd (run_loop ed_sign ml_sign_to cl yx b sts) = Returned"
  shows "\<exists>st \<in> set sts. ctx_seen_done st"
  using assms
proof (induction sts arbitrary: b)
  case (Cons st sts)
  have nil: "ctx_seen_done st" if "fst (connectAndServe ed_sign ml_sign_to cl yx (rs_env st)) = Some None"
    using connectAndServe_nil [OF that] by (force simp: ctx_seen_done_def list_ex_iff)
  show ?case
  proof (cases "ctx_seen_done st")
    case False
    then have "sleepCtx (rs_wake st)" "\<not> rs_done_before st" "\<not> rs_done_after st"
      by (cases "rs_wake st"; simp add: ctx_seen_done_def)+
    then have "snd (run_loop ed_sign ml_sign_to cl yx
        (next_backoff (rc_MaxBackoff (cc_Reconnect (cl_cfg cl))) b) sts) = Returned"
      using Cons.prems nil False by (auto simp: Let_def split: option.splits if_splits prod.splits)
    then show ?thesis using Cons.IH by auto
  qed simp
qed simp

lemma run_loop_cancelled:
  assumes "list_all (attempt_over ed_sign ml_sign_to cl yx) sts" and "st \<in> set sts"
    and "rs_done_before st \<or> rs_done_after st \<or> rs_wake st = CtxDone"
  shows "snd (run_loop ed_sign ml_sign_to cl yx b sts) = Returned"
  using assms
proof (induction sts arbitrary: b)
  case (Cons s sts)
  then show ?case
    by (auto simp: Let_def attempt_over_def split: if_splits prod.splits option.splits)
       (metis snd_conv)+
qed simp

lemma run_loop_persistent:
  assumes "list_all (\<lambda>st. attempt_over ed_sign ml_sign_to cl yx st \<and> \<not> ctx_seen_done st) sts"
  shows "length (fst (run_loop ed_sign ml_sign_to cl yx b sts)) = length sts"
  using assms
proof (induction sts arbitrary: b)
  case (Cons st sts)
  then have "fst (connectAndServe ed_sign ml_sign_to cl yx (rs_env st)) \<noteq> Some None"
    using connectAndServe_nil [of ed_sign ml_sign_to cl yx "rs_env st"] by (force simp: ctx_seen_done_def list_ex_iff)
  moreover have "sleepCtx (rs_wake st)" using Cons.prems by (cases "rs_wake st") (simp_all add: ctx_seen_done_def)
  moreover note Cons.IH [of "next_backoff (rc_MaxBackoff (cc_Reconnect (cl_cfg cl))) b"]
  ultimately show ?case
    using Cons.prems by (auto simp: Let_def attempt_over_def ctx_seen_done_def split: option.splits prod.splits)
qed simp

text \<open>Doubling a backoff of \<open>2\<^sup>62\<close> ns or more wraps around to a negative number.\<close>

lemma next_backoff_wraps:
  assumes "0 < sint b" and "2 ^ 62 \<le> sint m"
  shows "sint (next_backoff m b) \<le> 0 \<or> sint b < 2 ^ 62 \<and> min (2 * sint b) (2 ^ 62) \<le> sint (next_backoff m b)"
proof (cases "sint b < 2 ^ 62")
  case True
  then have "sint (b * 2) = 2 * sint b"
    using sint_int64_sum [of b b] assms(1) by (simp add: mult.commute)
  with True assms show ?thesis by (auto simp: next_backoff_def Let_def word_sless_alt)
next
  case False
  have "b * 2 = word_of_int (2 * sint b - 2 ^ 64)" by simp
  also have "sint \<dots> = 2 * sint b - 2 ^ 64"
    by (rule sint_word_of_int_in_range) (use False sint_lt [of b] in simp_all)
  finally have "sint (b * 2) = 2 * sint b - 2 ^ 64" .
  then show ?thesis using assms(2) sint_lt [of b] by (simp add: next_backoff_def Let_def word_sless_alt)
qed

lemma backoffs_wrap:
  assumes "0 < sint b" and "2 ^ 62 \<le> sint m"
  shows "\<exists>i < 64. sint ((next_backoff m ^^ i) b) \<le> 0"
proof (rule ccontr)
  assume no: "\<not> (\<exists>i < 64. sint ((next_backoff m ^^ i) b) \<le> 0)"
  let ?b = "\<lambda>i. sint ((next_backoff m ^^ i) b)"
  have pos: "0 < ?b i" if "i < 64" for i using no that by force
  have step: "?b i < 2 ^ 62 \<and> min (2 * ?b i) (2 ^ 62) \<le> ?b (Suc i)" if "Suc i < 64" for i
    using next_backoff_wraps [OF pos assms(2), of i] pos [OF that] that by simp
  have grow: "min (2 ^ i) (2 ^ 62) \<le> ?b i" if "i < 64" for i
    using that
  proof (induction i)
    case 0
    then show ?case using assms(1) by simp
  next
    case (Suc i)
    then have "min (2 ^ i) (2 ^ 62) \<le> ?b i" by simp
    with step [OF Suc.prems] show ?case by (auto simp: min_def split: if_splits)
  qed
  from grow [of 62] step [of 62] show False by simp
qed

lemma VerifyOnce_cases:
  assumes "ev_dial ev = Inr raw" and "VerifyOnce ed_sign ml_sign_to cl ev = (e, Some c)"
  shows "nc_closed c \<and> (nc_out c = nc_out raw \<or>
     (\<exists>ts. ev_tls ev = Inr ts \<and> VerifyConnection (cl_tlsCfg cl) (ts_state ts) = None))"
  using assms by (auto simp: VerifyOnce_def HandshakeContext_Inr_iff split: sum.splits prod.splits)

section \<open>Properties\<close>

text \<open>A client whose key files exist, and a multiplexer, for the witnesses.\<close>

definition ex_client_config :: ClientConfig where
  "ex_client_config = alice_config\<lparr>cc_ServerFingerprint := FormatFingerprint (replicate 32 7)\<rparr>"

definition ex_client_fs :: fs where
  "ex_client_fs = \<lparr>nodes = [''k'' \<mapsto> File (ex_pem_encode (PrivkeyPEMType, replicate 32 1)) mode_0600,
                          ''q'' \<mapsto> File (ex_pem_encode (PQPrivkeyPEMType, replicate 32 2)) mode_0600],
                 denied = (\<lambda>_. False)\<rparr>"

lemma ex_client:
  "\<exists>cl. NewClient ex_pem_decode (\<lambda>s. s @ s) (\<lambda>s. (s, s)) (\<lambda>_. replicate 32 7) ex_client_fs ex_client_config =
     Inr (cl :: (bytes, unit) Client)"
  by (simp add: NewClient_def LoadPrivkeyPEM_def LoadPQPrivkeyPEM_def ReadFile_def ex_client_fs_def
      ex_client_config_def alice_config_def clientTLSConfig_def ed_sizes ml_sizes)

definition ex_conn :: net_conn where
  "ex_conn = \<lparr>nc_in = \<lparr>rd_data = [], rd_end = EOF\<rparr>, nc_out = \<lparr>wr_out = [], wr_room = None, wr_err = EOF\<rparr>,
     nc_read_deadline = None, nc_write_deadline = None, nc_closed = False\<rparr>"

definition ex_yamux :: "(unit, unit) yamux" where
  "ex_yamux = \<lparr>yx_DefaultConfig = \<lparr>yc_KeepAliveInterval = 0, yc_ConnectionWriteTimeout = 0,
     yc_LogOutput = OtherSink, yc_Logger = NilSink, yc_other = ()\<rparr>,
     yx_Client = (\<lambda>_ _. Inr ()), yx_Close = (\<lambda>_. Close)\<rparr>"

text \<open>A client with given reconnect settings, and an attempt that cannot even dial.\<close>

definition ex_reconnecting :: "ReconnectConfig \<Rightarrow> (bytes, unit) Client" where
  "ex_reconnecting rc = \<lparr>cl_cfg = ex_client_config\<lparr>cc_Reconnect := rc\<rparr>,
     cl_tlsCfg = projr (clientTLSConfig (\<lambda>_. []) (FormatFingerprint (replicate 32 7))), cl_priv = [], cl_pqPriv = []\<rparr>"

definition failing_step :: run_step where
  "failing_step = \<lparr>rs_done_before = False,
     rs_env = \<lparr>ev_dial = Inl ''refused'', ev_tls = Inl ''eof'', ev_start = Unix 0, ev_now = Unix 0, ev_accepts = []\<rparr>,
     rs_done_after = False, rs_rand = 0, rs_wake = TimerFired\<rparr>"

lemma failing_step_over [simp]:
  "fst (connectAndServe ed_sign ml_sign_to cl yx (rs_env failing_step)) = Some (Some (Dial ''refused''))"
  "attempt_over ed_sign ml_sign_to cl yx failing_step" "\<not> ctx_seen_done failing_step"
  by (simp_all add: failing_step_def connectAndServe_def attempt_over_def ctx_seen_done_def)

text \<open>
  C36: with any reconnect settings that pass validation and a maximum below \<open>2\<^sup>62\<close> ns, the delay before
  attempt \<open>i + 2\<close> lies between one half and three halves of \<open>min (2\<^sup>i * initial) maximum\<close>, and is
  positive; without jitter it is exactly that backoff.  The random numbers are those
  \<open>rand.Int64N\<close> can return for the backoff at hand.
\<close>

theorem backoff_schedule:
  assumes "client_Run ed_sign ml_sign_to cl yx sts = (ds, res)" and "cc_Reconnect (cl_cfg cl) = rc"
    and "reconnect_ok rc" and "sint (rc_MaxBackoff rc) < 2 ^ 62"
    and "\<And>i. i < length sts \<Longrightarrow> 0 \<le> sint (rs_rand (sts ! i)) \<and> sint (rs_rand (sts ! i)) <
      backoff_at (sint (rc_InitialBackoff rc)) (sint (rc_MaxBackoff rc)) i"
    and "i < length ds"
  shows "0 < sint (ds ! i) \<and>
    backoff_at (sint (rc_InitialBackoff rc)) (sint (rc_MaxBackoff rc)) i div 2 \<le> sint (ds ! i) \<and>
    sint (ds ! i) \<le> backoff_at (sint (rc_InitialBackoff rc)) (sint (rc_MaxBackoff rc)) i div 2 +
      backoff_at (sint (rc_InitialBackoff rc)) (sint (rc_MaxBackoff rc)) i \<and>
    (\<not> rc_Jitter rc \<longrightarrow> sint (ds ! i) = backoff_at (sint (rc_InitialBackoff rc)) (sint (rc_MaxBackoff rc)) i)"
proof -
  let ?b = "sint (rc_InitialBackoff rc)" and ?m = "sint (rc_MaxBackoff rc)"
  have rc: "0 < ?b" "?b \<le> ?m" using assms(3) by (simp_all add: reconnect_ok_def)
  let ?base = "(next_backoff (rc_MaxBackoff rc) ^^ i) (rc_InitialBackoff rc)"
  have d: "ds ! i = jitterDelay ?base (rc_Jitter rc) (rs_rand (sts ! i))" and i: "i < length sts"
    using run_loop_delays [OF assms(1) [unfolded client_Run_def]] assms(2,6) by auto
  have base: "sint ?base = backoff_at ?b ?m i" by (rule backoffs_bounded [OF rc assms(4)])
  have "0 < sint ?base" "sint ?base < 2 ^ 62" using backoff_at_pos [OF rc, of i] assms(4) base by auto
  from jitterDelay_range [OF this, of "rs_rand (sts ! i)" "rc_Jitter rc"] assms(5) [OF i] base d
  show ?thesis by (auto simp: jitterDelay_def)
qed

theorem backoff_schedule_witness:
  "\<exists>ds. client_Run (\<lambda>k m. m) (\<lambda>k m ctx r. Inr m)
      (ex_reconnecting \<lparr>rc_InitialBackoff = 3, rc_MaxBackoff = 10, rc_Jitter = False\<rparr>) ex_yamux
      [failing_step, failing_step, failing_step] = (ds, Looping 10) \<and> sint (ds ! 1) = 6 \<and> sint (ds ! 2) = 10"
proof -
  let ?rc = "\<lparr>rc_InitialBackoff = 3, rc_MaxBackoff = 10, rc_Jitter = False\<rparr>"
  let ?sts = "[failing_step, failing_step, failing_step]"
  have rc: "cc_Reconnect (cl_cfg (ex_reconnecting ?rc)) = ?rc" by (simp add: ex_reconnecting_def)
  have run: "client_Run (\<lambda>k m. m) (\<lambda>k m ctx r. Inr m) (ex_reconnecting ?rc) ex_yamux ?sts = ([3, 6, 10], Looping 10)"
    unfolding client_Run_def rc
    by (simp add: rc next_backoff_def jitterDelay_def word_sless_alt, simp add: failing_step_def)
  have rand: "0 \<le> sint (rs_rand (?sts ! i)) \<and>
      sint (rs_rand (?sts ! i)) < backoff_at (sint (rc_InitialBackoff ?rc)) (sint (rc_MaxBackoff ?rc)) i"
    if "i < length ?sts" for i
    using that by (auto simp: less_Suc_eq failing_step_def backoff_at_def)
  note sched = backoff_schedule [OF run rc _ _ rand]
  show ?thesis
    using run sched [of 1] sched [of 2] by (simp add: reconnect_ok_def backoff_at_def)
qed

text \<open>
  C38: the doubling is done before the comparison with the maximum, in 64 bits.  For every validated
  setting with a maximum of \<open>2\<^sup>62\<close> ns or more (over 146 years), with or without jitter, one of the first 64
  delays of a client that keeps failing is zero or negative: it reconnects without waiting.
\<close>

theorem backoff_wraps:
  assumes "reconnect_ok (cc_Reconnect (cl_cfg cl))" and "2 ^ 62 \<le> sint (rc_MaxBackoff (cc_Reconnect (cl_cfg cl)))"
    and "list_all (\<lambda>st. attempt_over ed_sign ml_sign_to cl yx st \<and> \<not> ctx_seen_done st) sts" and "64 \<le> length sts"
  shows "\<exists>i < 64. sint (fst (client_Run ed_sign ml_sign_to cl yx sts) ! i) \<le> 0"
proof -
  let ?rc = "cc_Reconnect (cl_cfg cl)"
  obtain i where i: "i < 64" "sint ((next_backoff (rc_MaxBackoff ?rc) ^^ i) (rc_InitialBackoff ?rc)) \<le> 0"
    using backoffs_wrap [OF _ assms(2), of "rc_InitialBackoff ?rc"] assms(1) by (auto simp: reconnect_ok_def)
  obtain ds res where r: "client_Run ed_sign ml_sign_to cl yx sts = (ds, res)" by fastforce
  have "length ds = length sts"
    using run_loop_persistent [OF assms(3)] r by (metis client_Run_def fst_conv)
  with run_loop_delays [OF r [unfolded client_Run_def]] i(1) assms(4)
  have "ds ! i = jitterDelay ((next_backoff (rc_MaxBackoff ?rc) ^^ i) (rc_InitialBackoff ?rc)) (rc_Jitter ?rc) (rs_rand (sts ! i))"
    by simp
  with i r show ?thesis by (auto simp: jitterDelay_def word_sle_eq intro!: exI [of _ i])
qed

theorem backoff_wraps_witness:
  "\<exists>i < 64. sint (fst (client_Run (\<lambda>k m. m) (\<lambda>k m ctx r. Inr m)
     (ex_reconnecting \<lparr>rc_InitialBackoff = Second, rc_MaxBackoff = 2 ^ 62, rc_Jitter = True\<rparr>) ex_yamux
     (replicate 64 failing_step)) ! i) \<le> 0"
  by (rule backoff_wraps) (simp_all add: ex_reconnecting_def reconnect_ok_def Second_def list_all_iff)

text \<open>
  C37: the client never gives up by itself and stops when it is told to.  Whatever its connection
  attempts meet (dialling, TLS, the handshake, the multiplexer, the streams), it returns only when the
  context was found done; when every attempt is over and nothing was cancelled it has slept once after
  each; and when every attempt is over and the context was done at one of the checks of the loop or in
  a sleep, it has returned.
\<close>

theorem client_persists:
  "(snd (client_Run ed_sign ml_sign_to cl yx sts) = Returned \<longrightarrow> list_ex ctx_seen_done sts) \<and>
   (list_all (\<lambda>st. attempt_over ed_sign ml_sign_to cl yx st \<and> \<not> ctx_seen_done st) sts \<longrightarrow>
      length (fst (client_Run ed_sign ml_sign_to cl yx sts)) = length sts) \<and>
   (list_all (attempt_over ed_sign ml_sign_to cl yx) sts \<and>
    list_ex (\<lambda>st. rs_done_before st \<or> rs_done_after st \<or> rs_wake st = CtxDone) sts \<longrightarrow>
      snd (client_Run ed_sign ml_sign_to cl yx sts) = Returned)"
  unfolding client_Run_def
  using run_loop_returned [of ed_sign ml_sign_to cl yx "rc_InitialBackoff (cc_Reconnect (cl_cfg cl))" sts]
    run_loop_persistent [of ed_sign ml_sign_to cl yx sts "rc_InitialBackoff (cc_Reconnect (cl_cfg cl))"]
    run_loop_cancelled [of ed_sign ml_sign_to cl yx sts _ "rc_InitialBackoff (cc_Reconnect (cl_cfg cl))"]
  by (auto simp: list_ex_iff)

theorem client_persists_witness:
  "snd (client_Run (\<lambda>k m. m) (\<lambda>k m ctx r. Inr m)
     (ex_reconnecting \<lparr>rc_InitialBackoff = 3, rc_MaxBackoff = 10, rc_Jitter = False\<rparr>) ex_yamux
     [failing_step, failing_step]) \<noteq> Returned \<and>
   length (fst (client_Run (\<lambda>k m. m) (\<lambda>k m ctx r. Inr m)
     (ex_reconnecting \<lparr>rc_InitialBackoff = 3, rc_MaxBackoff = 10, rc_Jitter = False\<rparr>) ex_yamux
     [failing_step, failing_step])) = 2 \<and>
   snd (client_Run (\<lambda>k m. m) (\<lambda>k m ctx r. Inr m)
     (ex_reconnecting \<lparr>rc_InitialBackoff = 3, rc_MaxBackoff = 10, rc_Jitter = False\<rparr>) ex_yamux
     [failing_step, failing_step\<lparr>rs_done_after := True\<rparr>]) = Returned"
proof -
  let ?cl = "ex_reconnecting \<lparr>rc_InitialBackoff = 3, rc_MaxBackoff = 10, rc_Jitter = False\<rparr>"
  note p = client_persists [of "\<lambda>k m. m" "\<lambda>k m ctx r. Inr m" ?cl ex_yamux]
  have "attempt_over (\<lambda>k m. m) (\<lambda>k m ctx r. Inr m) ?cl ex_yamux (failing_step\<lparr>rs_done_after := True\<rparr>)"
    by (simp add: attempt_over_def)
  then show ?thesis using p [of "[failing_step, failing_step]"] p [of "[failing_step, failing_step\<lparr>rs_done_after := True\<rparr>]"]
    by auto
qed

text \<open>
  C10: nothing is sent to an unverified server.  In any connection attempt of a client that
  \<open>NewClient\<close> built, either the connection carries no byte more than when it was dialled, or the TLS
  session is with the pinned certificate over the hybrid key exchange; and when the attempt has
  returned, the connection is closed, on every path (closing a session of the multiplexer closes its
  connection).
\<close>

theorem nothing_sent_unpinned:
  assumes "NewClient pem_decode key_of new_key sha256 s cfg = Inr cl" and "ev_dial ev = Inr raw"
    and "\<And>y c. nc_closed (yx_Close yx y c)"
    and "connectAndServe ed_sign ml_sign_to cl yx ev = (e, Some c) \<or>
      VerifyOnce ed_sign ml_sign_to cl ev = (e', Some c) \<and> e = Some e'"
  shows "(e \<noteq> None \<longrightarrow> nc_closed c) \<and> (nc_out c = nc_out raw \<or>
    (\<exists>ts cert rest. ev_tls ev = Inr ts \<and> PeerCertificates (ts_state ts) = cert # rest \<and>
       parseFingerprint (cc_ServerFingerprint cfg) = Inr (sha256 (Raw cert)) \<and>
       CurveID (ts_state ts) = X25519MLKEM768))"
proof -
  obtain want where want: "parseFingerprint (cc_ServerFingerprint cfg) = Inr want"
    "VerifyConnection (cl_tlsCfg cl) = verify_pinned sha256 (cc_ServerFingerprint cfg) want"
    using NewClient_Inr [OF assms(1)] by metis
  have "(e \<noteq> None \<longrightarrow> nc_closed c) \<and> (nc_out c = nc_out raw \<or>
     (\<exists>ts. ev_tls ev = Inr ts \<and> VerifyConnection (cl_tlsCfg cl) (ts_state ts) = None))"
    using assms(4) connectAndServe_cases [OF assms(2) _ assms(3)] VerifyOnce_cases [OF assms(2)] by blast
  then show ?thesis
    unfolding want(2) verify_pinned_None_iff using want(1) by auto
qed

theorem nothing_sent_unpinned_witness:
  "\<exists>cl e c. NewClient ex_pem_decode (\<lambda>s. s @ s) (\<lambda>s. (s, s)) (\<lambda>_. replicate 32 7) ex_client_fs ex_client_config =
       Inr (cl :: (bytes, unit) Client) \<and>
     connectAndServe (\<lambda>k m. m) (\<lambda>k m ctx r. Inr m) cl ex_yamux
       \<lparr>ev_dial = Inr ex_conn, ev_tls = Inl ''reset'', ev_start = Unix 0, ev_now = Unix 0, ev_accepts = []\<rparr> = (Some e, Some c) \<and>
     nc_closed c \<and> nc_out c = nc_out ex_conn"
proof -
  let ?ev = "\<lparr>ev_dial = Inr ex_conn, ev_tls = Inl ''reset'', ev_start = Unix 0, ev_now = Unix 0, ev_accepts = []\<rparr>"
  obtain cl :: "(bytes, unit) Client" where
    cl: "NewClient ex_pem_decode (\<lambda>s. s @ s) (\<lambda>s. (s, s)) (\<lambda>_. replicate 32 7) ex_client_fs ex_client_config = Inr cl"
    using ex_client by blast
  have run: "connectAndServe (\<lambda>k m. m) (\<lambda>k m ctx r. Inr m) cl ex_yamux ?ev =
      (Some (Some (TLSHandshake (TLSNetwork ''reset''))), Some (Close ex_conn))"
    by (simp add: connectAndServe_def HandshakeContext_def)
  have "nc_closed (Close ex_conn) \<and> nc_out (Close ex_conn) = nc_out ex_conn"
    using nothing_sent_unpinned [OF cl _ _ disjI1 [OF run]] by (simp add: ex_yamux_def)
  with cl run show ?thesis by blast
qed

text \<open>
  A stream from the server is relayed only to a target of the client's own configuration: exactly
  when its first frame is an \<open>Open\<close> message naming a configured service whose target can be dialled,
  and then to that service's target.  The stream is closed on every path.
\<close>

theorem only_configured_targets:
  "(fst (handleStream cfg dial_error now stream) = Relayed target \<longleftrightarrow>
     (\<exists>open. fst (ReadMessage unmarshal_Open (nc_in stream)) = Inr open \<and>
        map_of (cc_Services cfg) (op_ServiceName open) = Some target \<and> dial_error target = None)) \<and>
   nc_closed (snd (handleStream cfg dial_error now stream))"
  using handleStream_Relayed_iff handleStream_closed by blast

end
