(* ===== verification/MessageSizes.thy ===== *)
theory MessageSizes
  imports Messages
begin

text \<open>
  How long the encoded messages can get.  \<open>ServerHello\<close> and \<open>Accepted\<close> always fit a frame; a
  \<open>ClientAuth\<close> fits unless the client's name and its service names are very long.
\<close>

section \<open>Lengths of encodings\<close>

lemma length_esc_ascii: "length (esc_ascii c) \<le> 6"
  by (simp add: esc_ascii_def)

lemma length_esc: "length (esc s) \<le> 6 * length s"
proof (induction s rule: esc.induct)
  case (2 c s)
  show ?case
  proof (cases "(of_char c :: nat) < 128")
    case True
    with "2.IH"(1) length_esc_ascii [of c] show ?thesis by simp
  next
    case False
    show ?thesis
    proof (cases "rune_len (c # s)")
      case None
      with False "2.IH"(2) show ?thesis by simp
    next
      case (Some n)
      note n = rune_len_bounds [OF Some]
      define r where "r = (if take n (c # s) = [CHR 0xE2, CHR 0x80, CHR 0xA8] then bslash # ''u2028''
                  else if take n (c # s) = [CHR 0xE2, CHR 0x80, CHR 0xA9] then bslash # ''u2029''
                  else take n (c # s))"
      have "length r \<le> 6 * n" using n by (auto simp: r_def)
      moreover have "length (esc (drop (n - 1) s)) \<le> 6 * (length s - (n - 1))"
        using "2.IH"(3) [OF False Some] by simp
      moreover have "length (esc (c # s)) = length r + length (esc (drop (n - 1) s))"
        using False Some by (simp add: Let_def r_def)
      ultimately have "length (esc (c # s)) \<le> 6 * n + 6 * (length s - (n - 1))" by linarith
      also have "\<dots> = 6 * length (c # s)" using n unfolding list.size by presburger
      finally show ?thesis .
    qed
  qed
qed simp

lemma length_quote_str: "length (quote_str s) \<le> 6 * length s + 2"
  using length_esc [of s] by (simp add: quote_str_def)

lemma length_b64: "length (b64_EncodeToString e bs) \<le> 4 * ((length bs + 2) div 3)"
proof (induction e bs rule: b64_EncodeToString.induct)
  case (4 e a b c r)
  have "(5 + length r) div 3 = Suc (Suc (Suc (length r)) div 3)"
    using div_add_self2 [of 3 "length r + 2"] by simp
  with 4 show ?case by (simp add: Let_def)
qed (simp_all add: Let_def)

lemma length_show_nat: "n < 10 ^ Suc k \<Longrightarrow> length (show_nat n) \<le> Suc k"
proof (induction k arbitrary: n)
  case 0
  then show ?case by (simp add: show_nat.simps [of n])
next
  case (Suc k)
  show ?case
  proof (cases "n < 10")
    case False
    from Suc.prems have "n div 10 < 10 ^ Suc k" by (simp add: less_mult_imp_div_less)
    from Suc.IH [OF this] False show ?thesis by (simp add: show_nat.simps [of n])
  qed (simp add: show_nat.simps [of n])
qed

lemma length_int64_json: "length (json_print (int64_json t)) \<le> 20"
proof -
  have "nat \<bar>sint t\<bar> < 10 ^ Suc 18" using sint_ge [of t] sint_lt [of t] by simp
  from length_show_nat [OF this] show ?thesis
    by (auto simp: int64_json_def show_int_def split: if_splits)
qed

lemma length_bytes_json: "length (json_print (bytes_json b)) \<le> 24 * ((length b + 2) div 3) + 2"
  using length_quote_str [of "b64_EncodeToString StdEncoding b"] length_b64 [of StdEncoding b]
  by (simp add: bytes_json_def)

lemma length_intercalate: "length (intercalate xs) \<le> sum_list (map length xs) + length xs"
  by (induction xs rule: intercalate.induct) auto

lemma length_strings_json:
  "length (json_print (JArr (map JStr rs))) \<le> sum_list (map (\<lambda>s. 6 * length s + 3) rs) + 2"
proof -
  have "sum_list (map length (map json_print (map JStr rs))) + length rs \<le> sum_list (map (\<lambda>s. 6 * length s + 3) rs)"
  proof (induction rs)
    case (Cons a rs)
    with length_quote_str [of a] show ?case by simp
  qed simp
  with length_intercalate [of "map json_print (map JStr rs)"] show ?thesis by simp
qed

section \<open>Lengths of messages\<close>

text \<open>An object is at most its members, each with a quoted name, a colon and a comma.\<close>

lemma length_Marshal:
  assumes "Marshal ms = Inr body"
    and "list_all2 (\<lambda>(k, v) n. 6 * length k + length (json_print v) + 4 \<le> n) ms ns"
  shows "length body \<le> sum_list ns + 2"
proof -
  have "sum_list (map length (map (\<lambda>(k, v). quote_str k @ CHR '':'' # json_print v) ms)) + length ms \<le> sum_list ns"
    using assms(2)
  proof (induction rule: list_all2_induct)
    case (Cons m ms n ns)
    obtain k v where "m = (k, v)" by fastforce
    with Cons length_quote_str [of k] show ?case by simp
  qed simp
  moreover have "length body =
      length (intercalate (map (\<lambda>(k, v). quote_str k @ CHR '':'' # json_print v) ms)) + 2"
    using assms(1) by (auto simp: Marshal_def)
  ultimately show ?thesis
    using length_intercalate [of "map (\<lambda>(k, v). quote_str k @ CHR '':'' # json_print v) ms"] by simp
qed

lemma hello_fits:
  assumes "marshal_ServerHello h = Inr body" and "length (sh_Nonce h) = 32"
  shows "length body \<le> MaxMessageSize"
proof -
  have "length body \<le> sum_list [400, 100] + 2"
    using assms(2) length_bytes_json [of "sh_Nonce h"] length_int64_json [of "sh_ServerTime h"]
    by (intro length_Marshal [OF assms(1) [unfolded marshal_ServerHello_def]]) simp
  then show ?thesis by (simp add: MaxMessageSize_def)
qed

lemma accepted_fits:
  assumes "marshal_Accepted a = Inr body" and "length (ac_SessionID a) \<le> 24"
  shows "length body \<le> MaxMessageSize"
proof -
  have "length body \<le> sum_list [400] + 2"
    using assms(2) length_quote_str [of "ac_SessionID a"]
    by (intro length_Marshal [OF assms(1) [unfolded marshal_Accepted_def]]) simp
  then show ?thesis by (simp add: MaxMessageSize_def)
qed

lemma auth_failed_fits:
  assumes "marshal_AuthFailed f = Inr body" and "length (af_Reason f) \<le> 24"
  shows "length body \<le> MaxMessageSize"
proof -
  have "length body \<le> sum_list [400] + 2"
    using assms(2) length_quote_str [of "af_Reason f"]
    by (intro length_Marshal [OF assms(1) [unfolded marshal_AuthFailed_def]]) simp
  then show ?thesis by (simp add: MaxMessageSize_def)
qed

text \<open>With signatures of the two schemes' sizes, some 37000 bytes are left for the names.\<close>

definition names_size :: "string \<Rightarrow> string list \<Rightarrow> nat" where
  "names_size cid rs = 6 * length cid + sum_list (map (\<lambda>s. 6 * length s + 3) rs)"

lemma client_auth_fits:
  assumes "marshal_ClientAuth m = Inr body" and "length (ca_Signature m) = 64"
    and "length (ca_PQSignature m) = 3309" and "length (ca_PQAlgorithm m) = 5"
    and "names_size (ca_ClientID m) (ca_RequestedServices m) \<le> 37000"
  shows "length body \<le> MaxMessageSize"
proof -
  have ne: "ca_PQAlgorithm m \<noteq> []" "ca_PQSignature m \<noteq> []" using assms(3,4) by auto
  have "length body \<le> sum_list [6 * length (ca_ClientID m) + 60, 90, 590,
      sum_list (map (\<lambda>s. 6 * length s + 3) (ca_RequestedServices m)) + 114, 108, 26550] + 2"
    using assms(2-4) ne length_quote_str [of "ca_ClientID m"] length_int64_json [of "ca_ClientTime m"]
      length_bytes_json [of "ca_Signature m"] length_strings_json [of "ca_RequestedServices m"]
      length_quote_str [of "ca_PQAlgorithm m"] length_bytes_json [of "ca_PQSignature m"]
    by (intro length_Marshal [OF assms(1) [unfolded marshal_ClientAuth_def]]) simp
  then show ?thesis using assms(5) by (simp add: MaxMessageSize_def names_size_def)
qed

end
