(* ===== verification/Handshake.thy ===== *)
theory Handshake
  imports ServerAuth TunnelClient MessageSizes
begin

text \<open>
  The two ends of the authentication handshake together: \<open>runHandshake\<close> of \<open>server.go\<close> and of
  \<open>client.go\<close> over one connection.  A run is consistent when what each end reads is what the other
  end wrote.  An honest client of a well-formed server completes; a client that completes agrees with
  the server on the session; a refused client fails without learning why.
\<close>

section \<open>Reading what a failed writer left\<close>

lemma ReadMessage_truncated:
  assumes "rd_data r = take k (frame body)" and "k < length (frame body)"
    and "length body \<le> MaxMessageSize \<or> k = 0"
  shows "\<exists>e. fst (ReadMessage unmarshal r) = Inl (IOError e)"
proof (cases "k < 4")
  case True
  then have "length (rd_data r) < 4" using assms(1) by simp
  then show ?thesis using ReadFull_short [of r 4] by (simp add: ReadMessage_def)
next
  case False
  with assms(3) have len: "length body \<le> MaxMessageSize" by auto
  from False assms(1) have hdr: "rd_data r = PutUint32 (word_of_nat (length body)) @ take (k - 4) body"
    by (simp add: frame_def)
  have "length (rd_data (r\<lparr>rd_data := take (k - 4) body\<rparr>)) < length body"
    using assms(2) False by simp
  from ReadMessage_header [OF hdr, of unmarshal] ReadFull_short [OF this] len MaxMessageSize_less [OF len]
  show ?thesis by simp
qed

lemma conn_write_error:
  assumes "conn_write marshal c v = (Some e, c')" and "marshal v = Inr body"
  obtains k where "k < length (frame body)" "length body \<le> MaxMessageSize \<or> k = 0"
    "wr_out (nc_out c') = wr_out (nc_out c) @ take k (frame body)"
proof (cases "length body \<le> MaxMessageSize")
  case True
  with WriteMessage_error [of marshal "nc_out c" v e "nc_out c'" body] assms that show thesis
    by (auto simp: conn_write_def split: prod.splits)
next
  case False
  with assms have "wr_out (nc_out c') = wr_out (nc_out c) @ take 0 (frame body)"
    by (auto simp: conn_write_def WriteMessage_def)
  moreover have "0 < length (frame body)" by simp
  ultimately show thesis using that by blast
qed

section \<open>The server's transcript\<close>

text \<open>
  What the server has written when its handshake is over, by outcome: an incomplete hello, the hello
  alone or with an incomplete answer, or the hello and a complete answer.
\<close>

lemma marshal_total:
  "\<exists>b. marshal_ServerHello h = Inr b" "\<exists>b. marshal_Accepted a = Inr b" "\<exists>b. marshal_AuthFailed f = Inr b"
  by (rule hello.marshal_total accepted.marshal_total auth_failed.marshal_total)+

definition cut_short :: "bytes \<Rightarrow> bool" where
  "cut_short bs \<longleftrightarrow> (\<exists>body k. bs = take k (frame body) \<and> k < length (frame body) \<and>
     (length body \<le> MaxMessageSize \<or> k = 0))"

lemma cut_short_Nil [simp]: "cut_short []"
  by (auto simp: cut_short_def intro!: exI [of _ "[]"] exI [of _ 0])

lemma read_cut_short: "cut_short (rd_data r) \<Longrightarrow> \<exists>e. fst (ReadMessage unmarshal r) = Inl (IOError e)"
  using ReadMessage_truncated unfolding cut_short_def by blast

lemma conn_write_cut_short:
  assumes "conn_write marshal c v = (Some e, c')" and "marshal v = Inr body"
  shows "\<exists>bs. cut_short bs \<and> wr_out (nc_out c') = wr_out (nc_out c) @ bs"
  using conn_write_error [OF assms] by (metis cut_short_def)

text \<open>What the server has sent after the hello, by outcome.\<close>

fun answered :: "handshake_error + (string \<times> string \<times> string list) \<Rightarrow> bytes \<Rightarrow> bool" where
  "answered (Inr (cid, sid, rs)) bs =
     (\<exists>acc. marshal_Accepted \<lparr>ac_SessionID = sid\<rparr> = Inr acc \<and> length acc \<le> MaxMessageSize \<and> bs = frame acc)"
| "answered (Inl e) bs =
     (cut_short bs \<or>
      (\<exists>failed reason. e = HSRejected reason \<and>
         marshal_AuthFailed \<lparr>af_Reason = ''authentication failed''\<rparr> = Inr failed \<and>
         length failed \<le> MaxMessageSize \<and> bs = frame failed))"

lemma handshake_answer_transcript:
  assumes "handshake_answer sidBytes ca (reason, ok) c = (r, c')"
  shows "\<exists>bs. wr_out (nc_out c') = wr_out (nc_out c) @ bs \<and> answered r bs"
proof (cases ok)
  case True
  let ?acc = "\<lparr>ac_SessionID = newSessionID sidBytes\<rparr>"
  obtain body where b: "marshal_Accepted ?acc = Inr body" using marshal_total(2) by blast
  obtain e c1 where w: "conn_write marshal_Accepted c ?acc = (e, c1)" by fastforce
  show ?thesis
  proof (cases e)
    case None
    from conn_write_ok [OF w [unfolded None]] assms True w None show ?thesis by auto
  next
    case (Some err)
    from conn_write_cut_short [of marshal_Accepted, OF w [unfolded Some] b] assms True w Some show ?thesis by auto
  qed
next
  case False
  let ?f = "\<lparr>af_Reason = ''authentication failed''\<rparr>"
  obtain body where b: "marshal_AuthFailed ?f = Inr body" using marshal_total(3) by blast
  obtain e c1 where w: "conn_write marshal_AuthFailed c ?f = (e, c1)" by fastforce
  have r: "r = Inl (HSRejected reason)" "c' = c1" using assms False w by simp_all
  show ?thesis
  proof (cases e)
    case None
    from conn_write_ok [OF w [unfolded None]] b have
      "wr_out (nc_out c1) = wr_out (nc_out c) @ frame body" "length body \<le> MaxMessageSize" by simp_all
    with r b show ?thesis by (intro exI [of _ "frame body"]) simp
  next
    case (Some err)
    from conn_write_cut_short [of marshal_AuthFailed, OF w [unfolded Some] b] obtain bs where
      "cut_short bs" "wr_out (nc_out c1) = wr_out (nc_out c) @ bs" by blast
    with r show ?thesis by (intro exI [of _ bs]) simp
  qed
qed

lemma server_transcript:
  assumes "handshake_body ed_verify ml_verify srv rand_read sidBytes now1 now2 exporter c = (r, c')"
  shows "\<exists>bs. wr_out (nc_out c') = wr_out (nc_out c) @ bs \<and>
    ((\<exists>e. r = Inl e) \<and> cut_short bs \<or>
     (\<exists>nonce hello rest. marshal_ServerHello \<lparr>sh_Nonce = nonce, sh_ServerTime = unix_seconds now1\<rparr> = Inr hello \<and>
        rand_read 32 = Inr nonce \<and> length hello \<le> MaxMessageSize \<and> bs = frame hello @ rest \<and> answered r rest))"
proof (cases "rand_read 32")
  case (Inl e)
  with assms have "r = Inl (HSAuth (ErrRandom e))" "c' = c" by (auto simp: handshake_body_def NewNonce_def)
  then show ?thesis by (intro exI [of _ "[]"]) simp
next
  case nonce: (Inr nonce)
  let ?hello = "\<lparr>sh_Nonce = nonce, sh_ServerTime = unix_seconds now1\<rparr>"
  obtain body where b: "marshal_ServerHello ?hello = Inr body" using marshal_total(1) by blast
  obtain e c1 where w: "conn_write marshal_ServerHello c ?hello = (e, c1)" by fastforce
  show ?thesis
  proof (cases e)
    case (Some err)
    with assms nonce w have "r = Inl (HSProto err)" "c' = c1" by (auto simp: handshake_body_def NewNonce_def)
    with conn_write_cut_short [of marshal_ServerHello, OF w [unfolded Some] b] show ?thesis by blast
  next
    case None
    from conn_write_ok [OF w [unfolded None]] b have
      o1: "wr_out (nc_out c1) = wr_out (nc_out c) @ frame body" "length body \<le> MaxMessageSize" by auto
    obtain v c2 where rd: "conn_read unmarshal_ClientAuth c1 = (v, c2)" by fastforce
    note o2 = conn_read_keeps(1) [OF rd]
    have "\<exists>rest. wr_out (nc_out c') = wr_out (nc_out c2) @ rest \<and> answered r rest"
    proof (cases v)
      case (Inl err)
      with assms nonce w None rd have "r = Inl (HSProto err)" "c' = c2"
        by (auto simp: handshake_body_def NewNonce_def)
      then show ?thesis by (intro exI [of _ "[]"]) simp
    next
      case (Inr ca)
      obtain reason ok where v: "validateAuth ed_verify ml_verify srv now2 nonce exporter ca = (reason, ok)"
        by fastforce
      with assms nonce w None rd Inr have "handshake_answer sidBytes ca (reason, ok) c2 = (r, c')"
        by (simp add: handshake_body_def NewNonce_def)
      from handshake_answer_transcript [OF this] show ?thesis .
    qed
    with o1 o2 b nonce show ?thesis by auto
  qed
qed

section \<open>Agreement\<close>

lemma hex_utf8 [simp]: "utf8_valid (hex_EncodeToString bs)"
proof (rule ascii_utf8_valid)
  have "list_all (\<lambda>n. (of_char (hextable ! n) :: nat) < 128) [0..<16]" by code_simp
  then have "(of_char (hextable ! n) :: nat) < 128" if "n < 16" for n
    using that by (simp add: list_all_iff)
  then show "list_all (\<lambda>c. (of_char c :: nat) < 128) (hex_EncodeToString bs)"
    using unsigned_less [where ?'b = 8 and ?'a = nat]
    by (auto simp: hex_EncodeToString_def hex_byte_def list_all_iff less_mult_imp_div_less)
qed

lemma client_reads_answer:
  assumes "client_exchange ed_sign ml_sign_to cl now exporter c = (Inr sid, c')"
    and "rd_data (nc_in c) = bs"
    and "(\<exists>e. r = Inl e) \<and> cut_short bs \<or>
     (\<exists>nonce hello rest. marshal_ServerHello \<lparr>sh_Nonce = nonce, sh_ServerTime = st\<rparr> = Inr hello \<and>
        P nonce \<and> length hello \<le> MaxMessageSize \<and> bs = frame hello @ rest \<and> answered r rest)"
    and "\<And>cid sid' rs. r = Inr (cid, sid', rs) \<Longrightarrow> utf8_valid sid'"
  shows "\<exists>cid rs nonce. r = Inr (cid, sid, rs) \<and> P nonce \<and> (\<exists>pqSig body.
     PQSign ml_sign_to (cl_pqPriv cl) nonce exporter (id_ID (cc_Identity (cl_cfg cl)))
       (unix_seconds now) (ServiceNames (cl_cfg cl)) = Inr pqSig \<and>
     marshal_ClientAuth (ClientAuth_for ed_sign cl now nonce exporter pqSig) = Inr body \<and>
     length body \<le> MaxMessageSize \<and> wr_out (nc_out c') = wr_out (nc_out c) @ frame body)"
proof -
  from client_exchange_ok [OF assms(1)] obtain h c1 pqSig body acc where
    rd: "conn_read unmarshal_ServerHello c = (Inr h, c1)" and
    sg: "PQSign ml_sign_to (cl_pqPriv cl) (sh_Nonce h) exporter (id_ID (cc_Identity (cl_cfg cl)))
       (unix_seconds now) (ServiceNames (cl_cfg cl)) = Inr pqSig" and
    ca: "marshal_ClientAuth (ClientAuth_for ed_sign cl now (sh_Nonce h) exporter pqSig) = Inr body"
      "length body \<le> MaxMessageSize" "wr_out (nc_out c') = wr_out (nc_out c) @ frame body" and
    acc: "fst (ReadMessage unmarshal_Accepted (nc_in c1)) = Inr acc" "sid = ac_SessionID acc" "sid \<noteq> []"
    by blast
  have "\<not> cut_short bs"
    using rd read_cut_short [of "nc_in c" unmarshal_ServerHello] assms(2)
    by (auto simp: conn_read_def split: prod.splits)
  with assms(3) obtain nonce hello rest where
    hl: "marshal_ServerHello \<lparr>sh_Nonce = nonce, sh_ServerTime = st\<rparr> = Inr hello" "length hello \<le> MaxMessageSize"
    and P: "P nonce" and bs: "bs = frame hello @ rest" and ans: "answered r rest" by blast
  have "conn_read unmarshal_ServerHello c =
      (Inr \<lparr>sh_Nonce = nonce, sh_ServerTime = st\<rparr>, c\<lparr>nc_in := (nc_in c)\<lparr>rd_data := rest\<rparr>\<rparr>)"
    using conn_read_frame [of c hello rest unmarshal_ServerHello] assms(2) bs hl
      hello.unmarshal_marshal [OF TrueI hl(1)] by blast
  with rd have h: "sh_Nonce h = nonce" and c1: "rd_data (nc_in c1) = rest" by auto
  have "\<not> cut_short rest" using acc(1) read_cut_short [of "nc_in c1" unmarshal_Accepted] c1 by auto
  moreover have "rest \<noteq> frame failed"
    if "marshal_AuthFailed \<lparr>af_Reason = ''authentication failed''\<rparr> = Inr failed" "length failed \<le> MaxMessageSize" for failed
  proof
    assume "rest = frame failed"
    then have "fst (ReadMessage unmarshal_Accepted (nc_in c1)) = Inr \<lparr>ac_SessionID = []\<rparr>"
      using ReadMessage_frame [of "nc_in c1" failed "[]" unmarshal_Accepted] c1 that
        AuthFailed_as_Accepted [OF that(1)] names_utf8 by (simp add: ascii_utf8_valid)
    with acc(1) have "acc = \<lparr>ac_SessionID = []\<rparr>" by simp
    with acc(2,3) show False by simp
  qed
  ultimately obtain cid sid' rs acc' where r: "r = Inr (cid, sid', rs)" and
    a: "marshal_Accepted \<lparr>ac_SessionID = sid'\<rparr> = Inr acc'" "length acc' \<le> MaxMessageSize" "rest = frame acc'"
    using ans by (cases r) auto
  have "fst (ReadMessage unmarshal_Accepted (nc_in c1)) = Inr \<lparr>ac_SessionID = sid'\<rparr>"
    using ReadMessage_frame [of "nc_in c1" acc' "[]" unmarshal_Accepted] c1 a(2,3)
      accepted.unmarshal_marshal [OF _ a(1)] assms(4) [OF r] by simp
  with acc(1) have "acc = \<lparr>ac_SessionID = sid'\<rparr>" by simp
  with acc(2) have "sid' = sid" by simp
  with r P sg ca h show ?thesis by blast
qed

lemma handshake_session_id:
  assumes "handshake_body ed_verify ml_verify srv rand_read sidBytes now1 now2 exporter c = (Inr (cid, sid, rs), c')"
  shows "sid = newSessionID sidBytes \<and> utf8_valid sid"
  using handshake_body_ok [OF assms] by (auto simp: newSessionID_def)

text \<open>The deadline does not take part in the exchange.\<close>

lemma runHandshake_body:
  "runHandshake ed_verify ml_verify srv rand_read sidBytes now1 now2 deadline exporter c = (r, c') \<Longrightarrow>
     \<exists>c0 c1. handshake_body ed_verify ml_verify srv rand_read sidBytes now1 now2 exporter c0 = (r, c1) \<and>
       nc_in c0 = nc_in c \<and> nc_out c0 = nc_out c \<and> nc_out c' = nc_out c1 \<and> nc_in c' = nc_in c1 \<and>
       (deadline \<noteq> None \<longrightarrow> nc_read_deadline c' = None \<and> nc_write_deadline c' = None)"
  by (auto simp: runHandshake_def split: option.splits prod.splits) force+

section \<open>Completion\<close>

text \<open>
  An honest client: its keys are among those the server's configuration lists for it, it offers only
  services listed for it, and its clock is within the window.  \<open>exporter\<close> is the value both ends
  derive from the TLS session.
\<close>

definition honest ::
  "(bytes \<Rightarrow> bytes \<Rightarrow> bytes \<Rightarrow> bool) \<Rightarrow> (bytes \<Rightarrow> bytes \<Rightarrow> bytes) \<Rightarrow>
   ('pk \<Rightarrow> bytes \<Rightarrow> bytes \<Rightarrow> bytes \<Rightarrow> bool) \<Rightarrow> ('sk \<Rightarrow> bytes \<Rightarrow> bytes \<Rightarrow> bool \<Rightarrow> string + bytes) \<Rightarrow>
   (bytes \<Rightarrow> 'pk option) \<Rightarrow> ('sk, 'kp) Client \<Rightarrow> ClientEntry \<Rightarrow> bool" where
  "honest ed_verify ed_sign ml_verify ml_sign_to unmarshal_pk cl ce \<longleftrightarrow>
     ce_ID ce = id_ID (cc_Identity (cl_cfg cl)) \<and> utf8_valid (ce_ID ce) \<and>
     (\<exists>k \<in> set (ce_Pubkey ce). \<exists>pub. DecodePubkey k = Inr pub \<and>
        (\<forall>m. length (ed_sign (cl_priv cl) m) = 64 \<and> ed_verify pub m (ed_sign (cl_priv cl) m))) \<and>
     (\<exists>k \<in> set (ce_PQPubkey ce). \<exists>pk. DecodePQPubkey unmarshal_pk k = Inr pk \<and>
        (\<forall>m. \<exists>sig. ml_sign_to (cl_pqPriv cl) m (str_bytes ''passage-client-auth-v2'') False = Inr sig \<and> length sig = 3309 \<and>
           ml_verify pk m (str_bytes ''passage-client-auth-v2'') sig)) \<and>
     ServiceNames (cl_cfg cl) \<noteq> [] \<and> list_all utf8_valid (ServiceNames (cl_cfg cl)) \<and>
     set (ServiceNames (cl_cfg cl)) \<subseteq> se_Name ` set (ce_Services ce)"

lemma honest_message:
  assumes "honest ed_verify ed_sign ml_verify ml_sign_to unmarshal_pk cl ce"
  obtains pqSig where
    "PQSign ml_sign_to (cl_pqPriv cl) nonce exporter (id_ID (cc_Identity (cl_cfg cl)))
       (unix_seconds now) (ServiceNames (cl_cfg cl)) = Inr pqSig" "length pqSig = 3309"
    "valid_ClientAuth (ClientAuth_for ed_sign cl now nonce exporter pqSig)"
    "entitled ed_verify ml_verify unmarshal_pk nonce exporter
       (ClientAuth_for ed_sign cl now nonce exporter pqSig) ce"
proof -
  let ?m = "PQSigningInput nonce exporter (id_ID (cc_Identity (cl_cfg cl))) (unix_seconds now) (ServiceNames (cl_cfg cl))"
  from assms obtain k pk sig where k: "k \<in> set (ce_PQPubkey ce)" "DecodePQPubkey unmarshal_pk k = Inr pk" and
    sig: "ml_sign_to (cl_pqPriv cl) ?m (str_bytes PQAuthLabel) False = Inr sig" "length sig = 3309"
      "ml_verify pk ?m (str_bytes PQAuthLabel) sig"
    unfolding honest_def PQAuthLabel_text by blast
  have ps: "PQSign ml_sign_to (cl_pqPriv cl) nonce exporter (id_ID (cc_Identity (cl_cfg cl)))
       (unix_seconds now) (ServiceNames (cl_cfg cl)) = Inr sig"
    using sig(1) by (simp add: PQSign_def Let_def)
  have alg: "utf8_valid PQAlgorithmMLDSA" by (simp add: PQAlgorithmMLDSA_def ascii_utf8_valid)
  have "valid_ClientAuth (ClientAuth_for ed_sign cl now nonce exporter sig)"
    using assms alg by (auto simp: valid_ClientAuth_def ClientAuth_for_def Let_def honest_def)
  moreover have "entitled ed_verify ml_verify unmarshal_pk nonce exporter
       (ClientAuth_for ed_sign cl now nonce exporter sig) ce"
    using assms k sig(2,3)
    by (auto simp: entitled_def ClientAuth_for_def Let_def honest_def Sign_def PQAlgorithmMLDSA_def)
  ultimately show thesis using that ps sig(2) by blast
qed

lemma ClientAuth_for_time: "ca_ClientTime (ClientAuth_for ed_sign cl now nonce exporter sig) = unix_seconds now"
  and ClientAuth_for_id: "ca_ClientID (ClientAuth_for ed_sign cl now nonce exporter sig) = id_ID (cc_Identity (cl_cfg cl))"
  and ClientAuth_for_services: "ca_RequestedServices (ClientAuth_for ed_sign cl now nonce exporter sig) = ServiceNames (cl_cfg cl)"
  by (simp_all add: ClientAuth_for_def Let_def)

text \<open>The client's run on the server's bytes.\<close>

lemma client_exchange_completes:
  assumes "rd_data (nc_in c) = frame hello @ frame acc" and "wr_room (nc_out c) = None"
    and "marshal_ServerHello \<lparr>sh_Nonce = nonce, sh_ServerTime = st\<rparr> = Inr hello" "length hello \<le> MaxMessageSize"
    and "marshal_Accepted \<lparr>ac_SessionID = sid\<rparr> = Inr acc" "length acc \<le> MaxMessageSize"
    and "utf8_valid sid" "sid \<noteq> []"
    and "PQSign ml_sign_to (cl_pqPriv cl) nonce exporter (id_ID (cc_Identity (cl_cfg cl)))
       (unix_seconds now) (ServiceNames (cl_cfg cl)) = Inr pqSig"
    and "marshal_ClientAuth (ClientAuth_for ed_sign cl now nonce exporter pqSig) = Inr body"
      "length body \<le> MaxMessageSize"
  shows "\<exists>c'. client_exchange ed_sign ml_sign_to cl now exporter c = (Inr sid, c') \<and>
    wr_out (nc_out c') = wr_out (nc_out c) @ frame body"
proof -
  have r1: "conn_read unmarshal_ServerHello c =
      (Inr \<lparr>sh_Nonce = nonce, sh_ServerTime = st\<rparr>, c\<lparr>nc_in := (nc_in c)\<lparr>rd_data := frame acc\<rparr>\<rparr>)"
    by (rule conn_read_frame [OF assms(1,4)]) (rule hello.unmarshal_marshal [OF TrueI assms(3)])
  let ?c1 = "c\<lparr>nc_in := (nc_in c)\<lparr>rd_data := frame acc\<rparr>\<rparr>"
  let ?c2 = "?c1\<lparr>nc_out := (nc_out ?c1)\<lparr>wr_out := wr_out (nc_out ?c1) @ frame body\<rparr>\<rparr>"
  have w: "conn_write marshal_ClientAuth ?c1 (ClientAuth_for ed_sign cl now nonce exporter pqSig) = (None, ?c2)"
    by (rule conn_write_unlimited) (use assms(2,10,11) in simp_all)
  have r2: "conn_read unmarshal_Accepted ?c2 =
      (Inr \<lparr>ac_SessionID = sid\<rparr>, ?c2\<lparr>nc_in := (nc_in ?c2)\<lparr>rd_data := []\<rparr>\<rparr>)"
    by (rule conn_read_frame [where body = acc])
      (use assms(6,7) accepted.unmarshal_marshal [OF _ assms(5)] in simp_all)
  show ?thesis using r1 w r2 assms(8,9) by (simp add: client_exchange_def)
qed

text \<open>The server's run on the client's bytes.\<close>

lemma handshake_body_completes:
  assumes "rd_data (nc_in c) = frame body" and "wr_room (nc_out c) = None" and "rand_read 32 = Inr nonce"
    and "marshal_ServerHello \<lparr>sh_Nonce = nonce, sh_ServerTime = unix_seconds now1\<rparr> = Inr hello" "length hello \<le> MaxMessageSize"
    and "marshal_ClientAuth ca = Inr body" "length body \<le> MaxMessageSize" "valid_ClientAuth ca"
    and "validateAuth ed_verify ml_verify srv now2 nonce exporter ca = ([], True)"
    and "marshal_Accepted \<lparr>ac_SessionID = newSessionID sidBytes\<rparr> = Inr acc" "length acc \<le> MaxMessageSize"
  shows "\<exists>c'. handshake_body ed_verify ml_verify srv rand_read sidBytes now1 now2 exporter c =
      (Inr (ca_ClientID ca, newSessionID sidBytes, ca_RequestedServices ca), c') \<and>
    wr_out (nc_out c') = wr_out (nc_out c) @ frame hello @ frame acc"
proof -
  let ?c1 = "c\<lparr>nc_out := (nc_out c)\<lparr>wr_out := wr_out (nc_out c) @ frame hello\<rparr>\<rparr>"
  let ?c2 = "?c1\<lparr>nc_in := (nc_in ?c1)\<lparr>rd_data := []\<rparr>\<rparr>"
  have w1: "conn_write marshal_ServerHello c \<lparr>sh_Nonce = nonce, sh_ServerTime = unix_seconds now1\<rparr> = (None, ?c1)"
    by (rule conn_write_unlimited) (use assms(2,4,5) in simp_all)
  have r: "conn_read unmarshal_ClientAuth ?c1 = (Inr ca, ?c2)"
    by (rule conn_read_frame [where body = body])
      (use assms(1,7) client_auth.unmarshal_marshal [OF assms(8,6)] in simp_all)
  have w2: "conn_write marshal_Accepted ?c2 \<lparr>ac_SessionID = newSessionID sidBytes\<rparr> =
      (None, ?c2\<lparr>nc_out := (nc_out ?c2)\<lparr>wr_out := wr_out (nc_out ?c2) @ frame acc\<rparr>\<rparr>)"
    by (rule conn_write_unlimited) (use assms(2,10,11) in simp_all)
  show ?thesis using assms(3,9) w1 r w2 by (simp add: handshake_body_def NewNonce_def Let_def)
qed

text \<open>A connection over which nothing has been sent and which takes all that is written.\<close>

definition fresh_conn :: "net_conn \<Rightarrow> bytes \<Rightarrow> bool" where
  "fresh_conn c incoming \<longleftrightarrow> rd_data (nc_in c) = incoming \<and> wr_out (nc_out c) = [] \<and> wr_room (nc_out c) = None"

lemma fresh_conn_SetDeadline [simp]: "fresh_conn (SetDeadline c d) incoming = fresh_conn c incoming"
  by (simp add: fresh_conn_def)

lemma honest_handshake:
  assumes srv: "NewServer load_keypair unmarshal_pk cfg = Inr srv" "distinct (map ce_ID (sc_Clients cfg))"
    and ce: "ce \<in> set (sc_Clients cfg)" "honest ed_verify ed_sign ml_verify ml_sign_to unmarshal_pk cl ce"
    and names: "names_size (id_ID (cc_Identity (cl_cfg cl))) (ServiceNames (cl_cfg cl)) \<le> 37000"
    and clock: "CheckClockSkew now2 (unix_seconds nowc) = None"
    and rand: "rand_read 32 = Inr nonce" "length nonce = 32" "length sidBytes = 12"
  shows "\<exists>s2c c2s.
    (\<forall>c. fresh_conn c s2c \<longrightarrow> (\<exists>c'. wr_out (nc_out c') = c2s \<and>
       client_exchange ed_sign ml_sign_to cl nowc exporter c = (Inr (newSessionID sidBytes), c'))) \<and>
    (\<forall>c. fresh_conn c c2s \<longrightarrow> (\<exists>c'. wr_out (nc_out c') = s2c \<and>
       handshake_body ed_verify ml_verify srv rand_read sidBytes now1 now2 exporter c =
         (Inr (id_ID (cc_Identity (cl_cfg cl)), newSessionID sidBytes, ServiceNames (cl_cfg cl)), c')))"
proof -
  obtain pqSig where
    pq: "PQSign ml_sign_to (cl_pqPriv cl) nonce exporter (id_ID (cc_Identity (cl_cfg cl)))
       (unix_seconds nowc) (ServiceNames (cl_cfg cl)) = Inr pqSig" "length pqSig = 3309" and
    ca: "valid_ClientAuth (ClientAuth_for ed_sign cl nowc nonce exporter pqSig)"
      "entitled ed_verify ml_verify unmarshal_pk nonce exporter (ClientAuth_for ed_sign cl nowc nonce exporter pqSig) ce"
    using honest_message [OF ce(2)] .
  let ?ca = "ClientAuth_for ed_sign cl nowc nonce exporter pqSig"
  let ?sid = "newSessionID sidBytes"
  obtain hello where h: "marshal_ServerHello \<lparr>sh_Nonce = nonce, sh_ServerTime = unix_seconds now1\<rparr> = Inr hello"
    using marshal_total(1) by blast
  obtain acc where a: "marshal_Accepted \<lparr>ac_SessionID = ?sid\<rparr> = Inr acc" using marshal_total(2) by blast
  obtain body where b: "marshal_ClientAuth ?ca = Inr body" using client_auth.marshal_total by blast
  have sid: "utf8_valid ?sid" "length ?sid = 24" by (simp_all add: newSessionID_def rand(3))
  then have sid_ne: "?sid \<noteq> []" by auto
  have hl: "length hello \<le> MaxMessageSize" using hello_fits [OF h] rand(2) by simp
  have al: "length acc \<le> MaxMessageSize" using accepted_fits [OF a] sid(2) by simp
  have sig: "length (ca_Signature ?ca) = 64" using ca(2) by (auto simp: entitled_def)
  have bl: "length body \<le> MaxMessageSize"
    using client_auth_fits [OF b sig] pq(2) names
    by (simp add: ClientAuth_for_def Let_def PQAlgorithmMLDSA_def)
  have v: "validateAuth ed_verify ml_verify srv now2 nonce exporter ?ca = ([], True)"
    using validateAuth_entitled [OF srv] clock ca(2) ce(1) by (auto simp: ClientAuth_for_time)
  have "\<exists>c'. client_exchange ed_sign ml_sign_to cl nowc exporter c = (Inr ?sid, c') \<and> wr_out (nc_out c') = frame body"
    if "fresh_conn c (frame hello @ frame acc)" for c
    using client_exchange_completes [OF _ _ h hl a al sid(1) sid_ne pq(1) b bl, of c] that
    by (simp add: fresh_conn_def)
  moreover have "\<exists>c'. handshake_body ed_verify ml_verify srv rand_read sidBytes now1 now2 exporter c =
      (Inr (id_ID (cc_Identity (cl_cfg cl)), ?sid, ServiceNames (cl_cfg cl)), c') \<and>
      wr_out (nc_out c') = frame hello @ frame acc" if "fresh_conn c (frame body)" for c
    using handshake_body_completes [where rand_read = rand_read, OF _ _ rand(1) h hl b bl ca(1) v a al, of c] that
    by (simp add: fresh_conn_def ClientAuth_for_id ClientAuth_for_services)
  ultimately show ?thesis by blast
qed

text \<open>
  Agreement: if what the client reads is what the server wrote and what the server reads is what the
  client wrote, then a client that obtains a session id obtained the server's, for its own name and
  its own services.
\<close>

lemma client_success_agrees:
  assumes s: "handshake_body ed_verify ml_verify srv rand_read sidBytes now1 now2 exporter cs = (r, cs')"
    and c: "client_exchange ed_sign ml_sign_to cl nowc exporter' cc = (Inr sid, cc')"
    and out: "wr_out (nc_out cs) = []" "wr_out (nc_out cc) = []"
    and wires: "rd_data (nc_in cc) = wr_out (nc_out cs')" "rd_data (nc_in cs) = wr_out (nc_out cc')"
    and utf8: "utf8_valid (id_ID (cc_Identity (cl_cfg cl)))" "list_all utf8_valid (ServiceNames (cl_cfg cl))"
  shows "r = Inr (id_ID (cc_Identity (cl_cfg cl)), sid, ServiceNames (cl_cfg cl))"
proof -
  have sid: "utf8_valid sid'" if "r = Inr (cid, sid', rs)" for cid sid' rs
    using handshake_session_id [OF s [unfolded that]] by blast
  obtain bs where "wr_out (nc_out cs') = bs" and
    t: "(\<exists>e. r = Inl e) \<and> cut_short bs \<or>
     (\<exists>nonce hello rest. marshal_ServerHello \<lparr>sh_Nonce = nonce, sh_ServerTime = unix_seconds now1\<rparr> = Inr hello \<and>
        rand_read 32 = Inr nonce \<and> length hello \<le> MaxMessageSize \<and> bs = frame hello @ rest \<and> answered r rest)"
    using server_transcript [OF s] out(1) by auto
  with wires(1) have bs: "rd_data (nc_in cc) = bs" by simp
  from client_reads_answer [OF c bs t] sid obtain cid rs nonce pqSig body where
    r: "r = Inr (cid, sid, rs)" and n: "rand_read 32 = Inr nonce" and
    b: "marshal_ClientAuth (ClientAuth_for ed_sign cl nowc nonce exporter' pqSig) = Inr body"
      "length body \<le> MaxMessageSize" "wr_out (nc_out cc') = frame body"
    unfolding out(2) append_Nil by blast
  let ?ca = "ClientAuth_for ed_sign cl nowc nonce exporter' pqSig"
  have "utf8_valid PQAlgorithmMLDSA" by (simp add: PQAlgorithmMLDSA_def ascii_utf8_valid)
  with utf8 have "valid_ClientAuth ?ca" by (simp add: valid_ClientAuth_def ClientAuth_for_def Let_def)
  from client_auth.unmarshal_marshal [OF this b(1)]
  have "fst (ReadMessage unmarshal_ClientAuth (nc_in cs)) = Inr ?ca"
    using ReadMessage_frame [of "nc_in cs" body "[]" unmarshal_ClientAuth] b wires(2) by simp
  with handshake_body_ok [OF s [unfolded r]] show ?thesis
    unfolding r by (auto simp: ClientAuth_for_id ClientAuth_for_services)
qed

lemma handshake_body_refuses:
  assumes "rd_data (nc_in c) = frame body" and "wr_room (nc_out c) = None" and "rand_read 32 = Inr nonce"
    and "marshal_ServerHello \<lparr>sh_Nonce = nonce, sh_ServerTime = unix_seconds now1\<rparr> = Inr hello" "length hello \<le> MaxMessageSize"
    and "marshal_ClientAuth ca = Inr body" "length body \<le> MaxMessageSize" "valid_ClientAuth ca"
    and "validateAuth ed_verify ml_verify srv now2 nonce exporter ca = (reason, False)"
  shows "\<exists>c'. handshake_body ed_verify ml_verify srv rand_read sidBytes now1 now2 exporter c =
      (Inl (HSRejected reason), c')"
proof -
  let ?c1 = "c\<lparr>nc_out := (nc_out c)\<lparr>wr_out := wr_out (nc_out c) @ frame hello\<rparr>\<rparr>"
  have w1: "conn_write marshal_ServerHello c \<lparr>sh_Nonce = nonce, sh_ServerTime = unix_seconds now1\<rparr> = (None, ?c1)"
    by (rule conn_write_unlimited) (use assms(2,4,5) in simp_all)
  have r: "conn_read unmarshal_ClientAuth ?c1 = (Inr ca, ?c1\<lparr>nc_in := (nc_in ?c1)\<lparr>rd_data := []\<rparr>\<rparr>)"
    by (rule conn_read_frame [where body = body])
      (use assms(1,7) client_auth.unmarshal_marshal [OF assms(8,6)] in simp_all)
  show ?thesis using assms(3,9) w1 r by (simp add: handshake_body_def NewNonce_def)
qed

section \<open>Properties\<close>

text \<open>
  C8: a refusal does not tell the client why.  For the same nonce and hello time, any two refused
  handshakes, whatever the messages received, the servers' tables, the clocks and the reasons, send
  the same bytes.
\<close>

theorem refusal_is_opaque:
  assumes "runHandshake ed_verify ml_verify srv rand_read sid now now_auth dl exporter c =
      (Inl (HSRejected reason), c')" and "fresh_conn c inp"
    and "runHandshake ed_verify' ml_verify' srv' rand_read sid' now now_auth' dl' exporter' d =
      (Inl (HSRejected reason'), d')" and "fresh_conn d inp'"
  shows "wr_out (nc_out c') = wr_out (nc_out d')"
proof -
  obtain c0 c1 where c: "handshake_body ed_verify ml_verify srv rand_read sid now now_auth exporter c0 =
      (Inl (HSRejected reason), c1)" "nc_out c0 = nc_out c" "nc_out c' = nc_out c1"
    using runHandshake_body [OF assms(1)] by blast
  obtain d0 d1 where d: "handshake_body ed_verify' ml_verify' srv' rand_read sid' now now_auth' exporter' d0 =
      (Inl (HSRejected reason'), d1)" "nc_out d0 = nc_out d" "nc_out d' = nc_out d1"
    using runHandshake_body [OF assms(3)] by blast
  obtain nonce where n: "rand_read 32 = Inr nonce"
    by (rule handshake_body_stages [OF c(1)]) simp_all
  obtain hello where h: "marshal_ServerHello \<lparr>sh_Nonce = nonce, sh_ServerTime = unix_seconds now\<rparr> = Inr hello"
    using marshal_total(1) by blast
  obtain failed where f: "marshal_AuthFailed \<lparr>af_Reason = ''authentication failed''\<rparr> = Inr failed"
    using marshal_total(3) by blast
  from rejected_output [where rand_read = rand_read, OF c(1) _ n h f]
    rejected_output [where rand_read = rand_read, OF d(1) _ n h f] c(2,3) d(2,3) assms(2,4)
  show ?thesis by (simp add: fresh_conn_def)
qed

definition ex_stranger :: "int64 \<Rightarrow> ClientAuth" where
  "ex_stranger t = \<lparr>ca_ClientID = ''bob'', ca_ClientTime = t, ca_Signature = [], ca_RequestedServices = [],
     ca_PQAlgorithm = [], ca_PQSignature = []\<rparr>"

lemma ex_stranger_refused:
  fixes t :: int64
  assumes "t = 0 \<or> t = 100" and "srv_clientPubs srv ''bob'' = None"
  shows "\<exists>inp reason c'. fresh_conn (ex_conn\<lparr>nc_in := \<lparr>rd_data = inp, rd_end = EOF\<rparr>\<rparr>) inp \<and>
    runHandshake ver pver srv (\<lambda>_. Inr (replicate 32 5)) [] (Unix 0) (Unix 0) None []
      (ex_conn\<lparr>nc_in := \<lparr>rd_data = inp, rd_end = EOF\<rparr>\<rparr>) = (Inl (HSRejected reason), c') \<and>
    reason = (if t = 0 then ''unknown client id'' else ''clock skew'')"
proof -
  obtain body where b: "marshal_ClientAuth (ex_stranger t) = Inr body" using client_auth.marshal_total by blast
  have "length (projr (marshal_ClientAuth (ex_stranger 0))) < 200"
    "length (projr (marshal_ClientAuth (ex_stranger 100))) < 200" by code_simp+
  with b assms(1) have bl: "length body \<le> MaxMessageSize" by (auto simp: MaxMessageSize_def)
  have "utf8_valid ''bob''" "utf8_valid []" by code_simp+
  then have va: "valid_ClientAuth (ex_stranger t)" by (simp add: valid_ClientAuth_def ex_stranger_def)
  obtain hello where h: "marshal_ServerHello \<lparr>sh_Nonce = replicate 32 5, sh_ServerTime = unix_seconds (Unix 0)\<rparr> = Inr hello"
    using marshal_total(1) by blast
  have hl: "length hello \<le> MaxMessageSize" using hello_fits [OF h] by simp
  have "CheckClockSkew (Unix 0) 0 = None" "CheckClockSkew (Unix 0) 100 \<noteq> None"
    unfolding CheckClockSkew_iff by (simp_all add: time_ns_def Unix_def unixToInternal_def minDuration_def)
  then have v: "validateAuth ver pver srv (Unix 0) (replicate 32 5) [] (ex_stranger t) =
      (if t = 0 then ''unknown client id'' else ''clock skew'', False)"
    using assms by (auto simp: validateAuth_def ex_stranger_def)
  let ?c = "ex_conn\<lparr>nc_in := \<lparr>rd_data = frame body, rd_end = EOF\<rparr>\<rparr>"
  have "\<exists>c'. handshake_body ver pver srv (\<lambda>_. Inr (replicate 32 5)) [] (Unix 0) (Unix 0) [] ?c =
      (Inl (HSRejected (if t = 0 then ''unknown client id'' else ''clock skew'')), c')"
    by (rule handshake_body_refuses [OF _ _ _ h hl b bl va v]) (simp_all add: ex_conn_def)
  then show ?thesis
    by (intro exI [of _ "frame body"]) (auto simp: runHandshake_def fresh_conn_def ex_conn_def)
qed

text \<open>An unknown client and a client out of time are refused alike.\<close>

theorem refusal_is_opaque_witness:
  "\<exists>srv inp inp' c' d'.
     runHandshake ex_ed_verify ex_ml_verify (srv :: (bytes, unit) Server) (\<lambda>_. Inr (replicate 32 5)) [] (Unix 0) (Unix 0) None []
       (ex_conn\<lparr>nc_in := \<lparr>rd_data = inp, rd_end = EOF\<rparr>\<rparr>) = (Inl (HSRejected ''unknown client id''), c') \<and>
     runHandshake ex_ed_verify ex_ml_verify srv (\<lambda>_. Inr (replicate 32 5)) [] (Unix 0) (Unix 0) None []
       (ex_conn\<lparr>nc_in := \<lparr>rd_data = inp', rd_end = EOF\<rparr>\<rparr>) = (Inl (HSRejected ''clock skew''), d') \<and>
     wr_out (nc_out c') = wr_out (nc_out d')"
proof -
  obtain srv :: "(bytes, unit) Server" where srv: "NewServer (\<lambda>_ _. Inr ()) Some ex_server_config = Inr srv"
    using ex_server by blast
  have "distinct (map ce_ID (sc_Clients ex_server_config))"
    using ex_server_config_ok by (simp add: server_config_ok_def)
  from NewServer_tables(2) [OF srv this] have "dom (srv_clientPubs srv) = {''alice''}"
    by (simp add: table_domains_def ex_server_config_def ex_entry_def)
  then have "''bob'' \<notin> dom (srv_clientPubs srv)" by simp
  then have bob: "srv_clientPubs srv ''bob'' = None" by (simp only: domIff not_not)
  from ex_stranger_refused [of 0 srv ex_ed_verify ex_ml_verify] bob obtain inp c' where
    r1: "fresh_conn (ex_conn\<lparr>nc_in := \<lparr>rd_data = inp, rd_end = EOF\<rparr>\<rparr>) inp"
      "runHandshake ex_ed_verify ex_ml_verify srv (\<lambda>_. Inr (replicate 32 5)) [] (Unix 0) (Unix 0) None []
       (ex_conn\<lparr>nc_in := \<lparr>rd_data = inp, rd_end = EOF\<rparr>\<rparr>) = (Inl (HSRejected ''unknown client id''), c')"
    by (simp del: ex_simps) blast
  from ex_stranger_refused [of 100 srv ex_ed_verify ex_ml_verify] bob obtain inp' d' where
    r2: "fresh_conn (ex_conn\<lparr>nc_in := \<lparr>rd_data = inp', rd_end = EOF\<rparr>\<rparr>) inp'"
      "runHandshake ex_ed_verify ex_ml_verify srv (\<lambda>_. Inr (replicate 32 5)) [] (Unix 0) (Unix 0) None []
       (ex_conn\<lparr>nc_in := \<lparr>rd_data = inp', rd_end = EOF\<rparr>\<rparr>) = (Inl (HSRejected ''clock skew''), d')"
    by (simp del: ex_simps) blast
  show ?thesis using refusal_is_opaque [OF r1(2,1) r2(2,1)] r1(2) r2(2) by blast
qed

end
