(* ===== verification/Acl.thy ===== *)
theory Acl
  imports Config
begin

text \<open>
  \<open>internal/tunnel/server.go\<close>, \<open>parseCIDRs\<close> and \<open>cidrAllowed\<close>: which users may connect to a
  service.  The address is the text of \<open>RemoteAddr()\<close>, a host and a port.
\<close>

section \<open>Operations\<close>

fun parse_each :: "string list \<Rightarrow> Prefix list" where
  "parse_each [] = []"
| "parse_each (c # cs) =
     (case ParsePrefix c of
        Some p \<Rightarrow> p # parse_each cs
      | None \<Rightarrow> parse_each cs)"

definition parseCIDRs :: "string list \<Rightarrow> Prefix list" where
  "parseCIDRs inp = (if inp = [] then [] else parse_each inp)"

fun any_contains :: "Prefix list \<Rightarrow> addr \<Rightarrow> bool" where
  "any_contains [] a = False"
| "any_contains (p # ps) a = (if Contains p a then True else any_contains ps a)"

definition cidrAllowed :: "string \<Rightarrow> Prefix list \<Rightarrow> bool" where
  "cidrAllowed address prefixes =
     (if prefixes = [] then True
      else case SplitHostPort address of
        Inl _ \<Rightarrow> False
      | Inr (host, _) \<Rightarrow>
          (case ParseAddr host of
             None \<Rightarrow> False
           | Some a \<Rightarrow> any_contains prefixes a))"

section \<open>Lemmas\<close>

lemma any_contains_iff: "any_contains ps a \<longleftrightarrow> (\<exists>p \<in> set ps. Contains p a)"
  by (induction ps) auto

lemma set_parse_each: "set (parse_each cs) = {p. \<exists>c \<in> set cs. ParsePrefix c = Some p}"
  by (induction cs) (auto split: option.splits)

lemma parse_each_valid: "\<forall>c \<in> set cs. ParsePrefix c \<noteq> None \<Longrightarrow> length (parse_each cs) = length cs"
  by (induction cs) auto

lemma parseCIDRs_eq: "parseCIDRs cs = parse_each cs"
  by (simp add: parseCIDRs_def)

lemma parseCIDRs_nonempty:
  assumes "service_ok s" and "se_AllowedUserCIDRs s \<noteq> []"
  shows "parseCIDRs (se_AllowedUserCIDRs s) \<noteq> []"
  using assms parse_each_valid [of "se_AllowedUserCIDRs s"]
  by (auto simp: parseCIDRs_eq service_ok_def)

text \<open>The address a prefix admits: of its family, without a zone, equal on the leading bits.\<close>

definition matches :: "Prefix \<Rightarrow> addr \<Rightarrow> bool" where
  "matches p a \<longleftrightarrow>
     (case (pfx_addr p, a) of
        (IPv4 b, IPv4 x) \<Rightarrow> unat x div 2 ^ (32 - pfx_bits p) = unat b div 2 ^ (32 - pfx_bits p)
      | (IPv6 b _, IPv6 x z) \<Rightarrow> z = [] \<and> unat x div 2 ^ (128 - pfx_bits p) = unat b div 2 ^ (128 - pfx_bits p)
      | _ \<Rightarrow> False)"

lemma Contains_matches: "Contains p a = matches p a"
  by (cases a; cases "pfx_addr p") (simp_all add: matches_def drop_bit_xor_eq_0_iff del: drop_bit_xor)

section \<open>Properties\<close>

text \<open>
  C27: for a service with an allow list that has passed validation, a user is let in exactly when its
  address splits into host and port, the host parses as an IP address, and some listed prefix has
  the address's family and agrees with it on the prefix's leading bits; an address with an IPv6
  zone is never let in.
\<close>

theorem cidrAllowed_iff:
  assumes "service_ok s" and "se_AllowedUserCIDRs s \<noteq> []"
  shows "cidrAllowed address (parseCIDRs (se_AllowedUserCIDRs s)) \<longleftrightarrow>
    (\<exists>host port a. SplitHostPort address = Inr (host, port) \<and> ParseAddr host = Some a \<and>
       (\<exists>cidr \<in> set (se_AllowedUserCIDRs s). \<exists>p. ParsePrefix cidr = Some p \<and> matches p a))"
  using parseCIDRs_nonempty [OF assms]
  by (auto simp: cidrAllowed_def any_contains_iff Contains_matches parseCIDRs_eq set_parse_each
      split: sum.splits option.splits)

definition ssh_service :: ServiceEntry where
  "ssh_service = \<lparr>se_Name = ''ssh'', se_Listen = ''0.0.0.0:22'', se_AllowedUserCIDRs = [''10.0.0.0/8'']\<rparr>"

lemma prefix_ten: "ParsePrefix ''10.0.0.0/8'' = Some \<lparr>pfx_addr = IPv4 167772160, pfx_bits = 8\<rparr>"
  by (simp add: net_eval)

lemma ssh_service_ok: "service_ok ssh_service"
  by (simp add: ssh_service_def service_ok_def prefix_ten splits_code, code_simp)

theorem cidrAllowed_iff_witness:
  "cidrAllowed ''10.1.2.3:40000'' (parseCIDRs (se_AllowedUserCIDRs ssh_service)) \<and>
   \<not> cidrAllowed ''11.1.2.3:40000'' (parseCIDRs (se_AllowedUserCIDRs ssh_service))"
proof -
  have ne: "se_AllowedUserCIDRs ssh_service \<noteq> []" by (simp add: ssh_service_def)
  have h: "SplitHostPort ''10.1.2.3:40000'' = Inr (''10.1.2.3'', ''40000'')"
    "SplitHostPort ''11.1.2.3:40000'' = Inr (''11.1.2.3'', ''40000'')" by code_simp+
  have a: "ParseAddr ''10.1.2.3'' = Some (IPv4 167838211)" "ParseAddr ''11.1.2.3'' = Some (IPv4 184615427)"
    by (simp_all add: net_eval)
  show ?thesis
    unfolding cidrAllowed_iff [OF ssh_service_ok ne]
    by (simp add: h a prefix_ten matches_def, simp add: ssh_service_def prefix_ten)
qed

end
