(* ===== verification/Sessions.thy ===== *)
theory Sessions
  imports ServerAuth Acl
begin

text \<open>
  \<open>internal/tunnel/server.go\<close>, second half: the accept loop, the life of a control connection and of
  its session, the session table, the user connections and the two semaphores.  Each goroutine is a
  program counter; each rule of the step relation is one atomic action of one goroutine or of the
  environment (a multiplexer that closes, a user that connects), so every interleaving the scheduler
  allows is a run of the relation.  A semaphore is a buffered channel, represented by its length.
  What happens under the server's mutex is one action; \<open>shutdown\<close>, which takes no lock, is three.
\<close>

section \<open>Channels and the session table\<close>

text \<open>A send with a \<open>default\<close> branch, and a receive, which would block on an empty channel.\<close>

definition chan_try_send :: "nat \<Rightarrow> nat \<Rightarrow> nat option" where
  "chan_try_send capacity n = (if n < capacity then Some (Suc n) else None)"

definition chan_recv :: "nat \<Rightarrow> nat option" where
  "chan_recv n = (case n of 0 \<Rightarrow> None | Suc k \<Rightarrow> Some k)"

record listener =
  ln_svc :: ServiceEntry
  ln_open :: bool

record serverSession =
  ss_id :: string
  ss_clientID :: string
  ss_yamClosed :: bool
  ss_cancelled :: bool
  ss_listeners :: "listener list"
  ss_streamSem :: nat

text \<open>Sessions are pointers in the source: \<open>sessions\<close> maps a client to the address of its session.\<close>

type_synonym ptr = nat

definition replaceSession ::
  "(string \<rightharpoonup> ptr) \<Rightarrow> string \<Rightarrow> ptr \<Rightarrow> ptr option \<times> (string \<rightharpoonup> ptr)" where
  "replaceSession sessions clientID ns = (sessions clientID, sessions(clientID \<mapsto> ns))"

definition close_all :: "listener list \<Rightarrow> listener list" where
  "close_all lns = map (\<lambda>ln. ln\<lparr>ln_open := False\<rparr>) lns"

definition close_one :: "nat \<Rightarrow> listener list \<Rightarrow> listener list" where
  "close_one i lns = (if i < length lns then lns[i := (lns ! i)\<lparr>ln_open := False\<rparr>] else lns)"

definition remove_entry :: "(string \<rightharpoonup> ptr) \<Rightarrow> string \<Rightarrow> ptr \<Rightarrow> (string \<rightharpoonup> ptr)" where
  "remove_entry sessions clientID ns =
     (if sessions clientID = Some ns then sessions(clientID := None) else sessions)"

text \<open>
  The calls of \<open>shutdown\<close>, which other goroutines may interleave with, and the one call of the watcher
  \<open>acceptUsers\<close> starts for its listener, the session's \<open>i\<close>-th.  The loop of \<open>shutdown\<close> over the listeners
  is one call here: it comes after \<open>SdCancel\<close>, so that in between any of the listeners may be closed
  already, by its watcher (rule \<open>ctx_done\<close> below), as in the middle of the loop.
\<close>

datatype shutdown_call = SdCancel | SdListeners | SdYam | SdWatcher nat

fun shutdown_exec :: "shutdown_call \<Rightarrow> serverSession \<Rightarrow> serverSession" where
  "shutdown_exec SdCancel ss = ss\<lparr>ss_cancelled := True\<rparr>"
| "shutdown_exec SdListeners ss = ss\<lparr>ss_listeners := close_all (ss_listeners ss)\<rparr>"
| "shutdown_exec SdYam ss = ss\<lparr>ss_yamClosed := True\<rparr>"
| "shutdown_exec (SdWatcher i) ss = ss\<lparr>ss_listeners := close_one i (ss_listeners ss)\<rparr>"

definition shutdown :: "ptr \<Rightarrow> (ptr \<times> shutdown_call) list" where
  "shutdown old = [(old, SdCancel), (old, SdListeners), (old, SdYam)]"

section \<open>The state\<close>

text \<open>
  A control connection: \<open>CtlHandshake\<close> holds a slot of \<open>handshakeSem\<close>; the others are the points of
  \<open>handleControl\<close> and \<open>runSession\<close> between two atomic actions.  \<open>CtlClosed\<close> is a goroutine that has
  returned (or a connection dropped by the accept loop); its connection is closed.
\<close>

datatype ctl_pc =
    CtlHandshake
  | CtlStart string string "string list"
  | CtlShutdownOld "(ptr \<times> shutdown_call) list" ptr "string list"
  | CtlListen ptr "string list"
  | CtlWait ptr
  | CtlRemove ptr
  | CtlUnwind ptr
  | CtlCancel ptr
  | CtlClosed

text \<open>A user connection, with its remote address: accepted, holding a slot of the session, relayed, closed.\<close>

datatype usr_pc =
    UsrEnter ptr ServiceEntry string
  | UsrSlot ptr ServiceEntry string
  | UsrRelay ptr ServiceEntry string
  | UsrClosed

record world =
  w_handshakeSem :: nat
  w_sessions :: "string \<rightharpoonup> ptr"
  w_objs :: "ptr \<rightharpoonup> serverSession"
  w_ctl :: "nat \<rightharpoonup> ctl_pc"
  w_usr :: "nat \<rightharpoonup> usr_pc"

definition initial_world :: world where
  "initial_world = \<lparr>w_handshakeSem = 0, w_sessions = Map.empty, w_objs = Map.empty,
     w_ctl = Map.empty, w_usr = Map.empty\<rparr>"

definition set_ctl :: "nat \<Rightarrow> ctl_pc \<Rightarrow> world \<Rightarrow> world" where
  "set_ctl c pc w = w\<lparr>w_ctl := (w_ctl w)(c \<mapsto> pc)\<rparr>"

definition set_usr :: "nat \<Rightarrow> usr_pc \<Rightarrow> world \<Rightarrow> world" where
  "set_usr u pc w = w\<lparr>w_usr := (w_usr w)(u \<mapsto> pc)\<rparr>"

definition upd_obj :: "ptr \<Rightarrow> (serverSession \<Rightarrow> serverSession) \<Rightarrow> world \<Rightarrow> world" where
  "upd_obj p f w = w\<lparr>w_objs := (w_objs w)(p := map_option f (w_objs w p))\<rparr>"

section \<open>The actions\<close>

text \<open>\<open>Run\<close>: an accepted connection takes a slot, or is closed at once.\<close>

definition Run_accept :: "nat \<Rightarrow> nat \<Rightarrow> world \<Rightarrow> world" where
  "Run_accept capacity c w =
     (case chan_try_send capacity (w_handshakeSem w) of
        Some n \<Rightarrow> set_ctl c CtlHandshake (w\<lparr>w_handshakeSem := n\<rparr>)
      | None \<Rightarrow> set_ctl c CtlClosed w)"

text \<open>\<open>handleControl\<close>: the slot is given back, by the deferred function on every failure or before the session.\<close>

definition handleControl_release :: "nat \<Rightarrow> ctl_pc \<Rightarrow> world \<Rightarrow> world option" where
  "handleControl_release c pc w =
     map_option (\<lambda>n. set_ctl c pc (w\<lparr>w_handshakeSem := n\<rparr>)) (chan_recv (w_handshakeSem w))"

text \<open>\<open>runSession\<close>: a new session takes the client's place in the table.\<close>

definition runSession_start :: "nat \<Rightarrow> string \<Rightarrow> string \<Rightarrow> string list \<Rightarrow> ptr \<Rightarrow> world \<Rightarrow> world" where
  "runSession_start c clientID sessionID requested p w =
     (let sess = \<lparr>ss_id = sessionID, ss_clientID = clientID, ss_yamClosed = False, ss_cancelled = False,
                  ss_listeners = [], ss_streamSem = 0\<rparr>;
          (old, tbl) = replaceSession (w_sessions w) clientID p
      in set_ctl c (CtlShutdownOld (case old of None \<Rightarrow> [] | Some q \<Rightarrow> shutdown q) p requested)
           (w\<lparr>w_sessions := tbl, w_objs := (w_objs w)(p \<mapsto> sess)\<rparr>))"

fun runSession_shutdown_old :: "nat \<Rightarrow> (ptr \<times> shutdown_call) list \<Rightarrow> ptr \<Rightarrow> string list \<Rightarrow> world \<Rightarrow> world" where
  "runSession_shutdown_old c [] p requested w = set_ctl c (CtlListen p requested) w"
| "runSession_shutdown_old c ((q, call) # calls) p requested w =
     set_ctl c (CtlShutdownOld calls p requested) (upd_obj q (shutdown_exec call) w)"

text \<open>The addresses bound by open listeners; the operating system refuses to bind one twice.\<close>

definition bound :: "world \<Rightarrow> string \<Rightarrow> bool" where
  "bound w a \<longleftrightarrow> (\<exists>p ss. w_objs w p = Some ss \<and> (\<exists>ln \<in> set (ss_listeners ss). ln_open ln \<and> se_Listen (ln_svc ln) = a))"

text \<open>One iteration of the loop over the requested services; \<open>listen_ok\<close> is the outcome of \<open>net.Listen\<close>.\<close>

definition runSession_listen ::
  "(string \<rightharpoonup> ServiceEntry) \<Rightarrow> bool \<Rightarrow> nat \<Rightarrow> ptr \<Rightarrow> string \<Rightarrow> string list \<Rightarrow> world \<Rightarrow> world" where
  "runSession_listen allowed listen_ok c p name rest w =
     (case allowed name of
        None \<Rightarrow> set_ctl c (CtlListen p rest) w
      | Some svc \<Rightarrow>
          if listen_ok
          then set_ctl c (CtlListen p rest)
                 (upd_obj p (\<lambda>ss. ss\<lparr>ss_listeners := ss_listeners ss @ [\<lparr>ln_svc = svc, ln_open = True\<rparr>]\<rparr>) w)
          else set_ctl c (CtlRemove p) w)"

text \<open>The deferred calls of \<open>runSession\<close>: \<open>removeSession\<close>, then \<open>yam.Close\<close> and \<open>cancel\<close>.\<close>

definition removeSession :: "nat \<Rightarrow> string \<Rightarrow> ptr \<Rightarrow> world \<Rightarrow> world" where
  "removeSession c clientID p w =
     set_ctl c (CtlUnwind p)
       (upd_obj p (shutdown_exec SdListeners)
         (w\<lparr>w_sessions := remove_entry (w_sessions w) clientID p\<rparr>))"

definition runSession_unwind :: "nat \<Rightarrow> ptr \<Rightarrow> world \<Rightarrow> world" where
  "runSession_unwind c p w = set_ctl c (CtlCancel p) (upd_obj p (shutdown_exec SdYam) w)"

definition runSession_cancel :: "nat \<Rightarrow> ptr \<Rightarrow> world \<Rightarrow> world" where
  "runSession_cancel c p w = set_ctl c CtlClosed (upd_obj p (shutdown_exec SdCancel) w)"

text \<open>\<open>acceptUsers\<close>: a user whose address the service does not allow is closed at once.\<close>

definition acceptUsers_one :: "nat \<Rightarrow> ptr \<Rightarrow> ServiceEntry \<Rightarrow> string \<Rightarrow> world \<Rightarrow> world" where
  "acceptUsers_one u p svc remote w =
     (if \<not> cidrAllowed remote (parseCIDRs (se_AllowedUserCIDRs svc)) then set_usr u UsrClosed w
      else set_usr u (UsrEnter p svc remote) w)"

text \<open>\<open>proxyUser\<close>: take a slot of the session's semaphore or drop the user; give it back on return.\<close>

definition proxyUser_enter :: "nat \<Rightarrow> nat \<Rightarrow> ptr \<Rightarrow> ServiceEntry \<Rightarrow> string \<Rightarrow> serverSession \<Rightarrow> world \<Rightarrow> world" where
  "proxyUser_enter capacity u p svc remote ss w =
     (case chan_try_send capacity (ss_streamSem ss) of
        Some n \<Rightarrow> set_usr u (UsrSlot p svc remote) (upd_obj p (\<lambda>ss. ss\<lparr>ss_streamSem := n\<rparr>) w)
      | None \<Rightarrow> set_usr u UsrClosed w)"

text \<open>The header of a stream: what \<open>proxyUser\<close> sends before it relays.\<close>

definition open_for :: "ServiceEntry \<Rightarrow> 32 word \<Rightarrow> Open" where
  "open_for svc sid = \<lparr>op_Type = TypeOpen, op_StreamID = ucast sid, op_ServiceName = se_Name svc\<rparr>"

definition proxyUser_open :: "ServiceEntry \<Rightarrow> 32 word \<Rightarrow> net_conn \<Rightarrow> proto_error option \<times> net_conn" where
  "proxyUser_open svc sid stream = conn_write marshal_Open stream (open_for svc sid)"

definition proxyUser_leave :: "nat \<Rightarrow> ptr \<Rightarrow> serverSession \<Rightarrow> world \<Rightarrow> world option" where
  "proxyUser_leave u p ss w =
     map_option (\<lambda>n. set_usr u UsrClosed (upd_obj p (\<lambda>ss. ss\<lparr>ss_streamSem := n\<rparr>) w)) (chan_recv (ss_streamSem ss))"

section \<open>The step relation\<close>

definition max_streams :: "('pk, 'kp) Server \<Rightarrow> nat" where
  "max_streams srv = nat (sint (lim_MaxStreamsPerClient (sc_Limits (srv_cfg srv))))"

definition allowed_for :: "('pk, 'kp) Server \<Rightarrow> string \<Rightarrow> (string \<rightharpoonup> ServiceEntry)" where
  "allowed_for srv cid = (case srv_allowed srv cid of Some m \<Rightarrow> m | None \<Rightarrow> Map.empty)"

text \<open>
  The parameters are the verification functions and the server.  A handshake that succeeds is one of
  \<open>runHandshake\<close> on some connection; a failed one may have failed anywhere before the slot is given
  back (TLS, exporter, handshake, multiplexer).  \<open>yam_closed\<close> is the multiplexer closing (the client has
  gone), \<open>stopped\<close> the server's context being cancelled, which reaches the session contexts derived
  from it, and \<open>ctx_done\<close> the watcher \<open>acceptUsers\<close> starts for its listener.
\<close>

inductive step ::
  "(bytes \<Rightarrow> bytes \<Rightarrow> bytes \<Rightarrow> bool) \<Rightarrow> ('pk \<Rightarrow> bytes \<Rightarrow> bytes \<Rightarrow> bytes \<Rightarrow> bool) \<Rightarrow> ('pk, 'kp) Server
     \<Rightarrow> world \<Rightarrow> world \<Rightarrow> bool"
  for ed_verify ml_verify srv where
  accept: "w_ctl w c = None \<Longrightarrow> step ed_verify ml_verify srv w (Run_accept (srv_handshakeSem srv) c w)"
| handshake_failed: "w_ctl w c = Some CtlHandshake \<Longrightarrow> handleControl_release c CtlClosed w = Some w' \<Longrightarrow>
    step ed_verify ml_verify srv w w'"
| handshake_ok: "w_ctl w c = Some CtlHandshake \<Longrightarrow>
    runHandshake ed_verify ml_verify srv rand_read sidBytes t1 t2 dl exporter conn = (Inr (cid, sid, rs), conn') \<Longrightarrow>
    handleControl_release c (CtlStart cid sid rs) w = Some w' \<Longrightarrow>
    step ed_verify ml_verify srv w w'"
| start: "w_ctl w c = Some (CtlStart cid sid rs) \<Longrightarrow> w_objs w p = None \<Longrightarrow>
    step ed_verify ml_verify srv w (runSession_start c cid sid rs p w)"
| shutdown_old: "w_ctl w c = Some (CtlShutdownOld calls p rs) \<Longrightarrow>
    step ed_verify ml_verify srv w (runSession_shutdown_old c calls p rs w)"
| listen: "w_ctl w c = Some (CtlListen p (name # rest)) \<Longrightarrow> w_objs w p = Some ss \<Longrightarrow>
    (listen_ok \<Longrightarrow> \<forall>svc. allowed_for srv (ss_clientID ss) name = Some svc \<longrightarrow> \<not> bound w (se_Listen svc)) \<Longrightarrow>
    step ed_verify ml_verify srv w (runSession_listen (allowed_for srv (ss_clientID ss)) listen_ok c p name rest w)"
| listening: "w_ctl w c = Some (CtlListen p []) \<Longrightarrow> step ed_verify ml_verify srv w (set_ctl c (CtlWait p) w)"
| yam_closed: "w_objs w p = Some ss \<Longrightarrow>
    step ed_verify ml_verify srv w (upd_obj p (shutdown_exec SdYam) w)"
| stopped: "w_objs w p = Some ss \<Longrightarrow> step ed_verify ml_verify srv w (upd_obj p (shutdown_exec SdCancel) w)"
| wait_over: "w_ctl w c = Some (CtlWait p) \<Longrightarrow> w_objs w p = Some ss \<Longrightarrow> ss_yamClosed ss \<Longrightarrow>
    step ed_verify ml_verify srv w (set_ctl c (CtlRemove p) w)"
| remove: "w_ctl w c = Some (CtlRemove p) \<Longrightarrow> w_objs w p = Some ss \<Longrightarrow>
    step ed_verify ml_verify srv w (removeSession c (ss_clientID ss) p w)"
| unwind: "w_ctl w c = Some (CtlUnwind p) \<Longrightarrow> step ed_verify ml_verify srv w (runSession_unwind c p w)"
| cancel: "w_ctl w c = Some (CtlCancel p) \<Longrightarrow> step ed_verify ml_verify srv w (runSession_cancel c p w)"
| ctx_done: "w_objs w p = Some ss \<Longrightarrow> ss_cancelled ss \<Longrightarrow>
    step ed_verify ml_verify srv w (upd_obj p (shutdown_exec (SdWatcher i)) w)"
| user_accept: "w_usr w u = None \<Longrightarrow> w_objs w p = Some ss \<Longrightarrow> ln \<in> set (ss_listeners ss) \<Longrightarrow> ln_open ln \<Longrightarrow>
    step ed_verify ml_verify srv w (acceptUsers_one u p (ln_svc ln) remote w)"
| user_enter: "w_usr w u = Some (UsrEnter p svc remote) \<Longrightarrow> w_objs w p = Some ss \<Longrightarrow>
    step ed_verify ml_verify srv w (proxyUser_enter (max_streams srv) u p svc remote ss w)"
| user_opened: "w_usr w u = Some (UsrSlot p svc remote) \<Longrightarrow> proxyUser_open svc stream_id stream = (None, stream') \<Longrightarrow>
    step ed_verify ml_verify srv w (set_usr u (UsrRelay p svc remote) w)"
| user_left: "w_usr w u = Some (UsrSlot p svc remote) \<or> w_usr w u = Some (UsrRelay p svc remote) \<Longrightarrow> w_objs w p = Some ss \<Longrightarrow>
    proxyUser_leave u p ss w = Some w' \<Longrightarrow> step ed_verify ml_verify srv w w'"

inductive reachable ::
  "(bytes \<Rightarrow> bytes \<Rightarrow> bytes \<Rightarrow> bool) \<Rightarrow> ('pk \<Rightarrow> bytes \<Rightarrow> bytes \<Rightarrow> bytes \<Rightarrow> bool) \<Rightarrow> ('pk, 'kp) Server
     \<Rightarrow> world \<Rightarrow> bool"
  for ed_verify ml_verify srv where
  init: "reachable ed_verify ml_verify srv initial_world"
| steps: "reachable ed_verify ml_verify srv w \<Longrightarrow> step ed_verify ml_verify srv w w' \<Longrightarrow>
    reachable ed_verify ml_verify srv w'"

section \<open>Frame lemmas\<close>

lemma set_ctl_simps [simp]:
  "w_handshakeSem (set_ctl c pc w) = w_handshakeSem w" "w_sessions (set_ctl c pc w) = w_sessions w"
  "w_objs (set_ctl c pc w) = w_objs w" "w_usr (set_ctl c pc w) = w_usr w"
  "w_ctl (set_ctl c pc w) = (w_ctl w)(c \<mapsto> pc)"
  by (simp_all add: set_ctl_def)

lemma set_usr_simps [simp]:
  "w_handshakeSem (set_usr u pc w) = w_handshakeSem w" "w_sessions (set_usr u pc w) = w_sessions w"
  "w_objs (set_usr u pc w) = w_objs w" "w_ctl (set_usr u pc w) = w_ctl w"
  "w_usr (set_usr u pc w) = (w_usr w)(u \<mapsto> pc)"
  by (simp_all add: set_usr_def)

lemma upd_obj_simps [simp]:
  "w_handshakeSem (upd_obj p f w) = w_handshakeSem w" "w_sessions (upd_obj p f w) = w_sessions w"
  "w_ctl (upd_obj p f w) = w_ctl w" "w_usr (upd_obj p f w) = w_usr w"
  "w_objs (upd_obj p f w) = (w_objs w)(p := map_option f (w_objs w p))"
  by (simp_all add: upd_obj_def)

lemma shutdown_exec_simps [simp]:
  "ss_id (shutdown_exec x ss) = ss_id ss" "ss_clientID (shutdown_exec x ss) = ss_clientID ss"
  "ss_streamSem (shutdown_exec x ss) = ss_streamSem ss"
  "ss_yamClosed (shutdown_exec x ss) \<longleftrightarrow> ss_yamClosed ss \<or> x = SdYam"
  "ss_cancelled (shutdown_exec x ss) \<longleftrightarrow> ss_cancelled ss \<or> x = SdCancel"
  by (cases x; simp)+

lemma close_all_mem [simp]: "ln \<in> set (close_all lns) \<longleftrightarrow> (\<exists>l \<in> set lns. ln = l\<lparr>ln_open := False\<rparr>)"
  by (auto simp: close_all_def)

text \<open>No call opens a listener, and none changes its service.\<close>

lemma close_one_open [dest]: "ln \<in> set (close_one i lns) \<Longrightarrow> ln_open ln \<Longrightarrow> ln \<in> set lns"
  by (auto simp: close_one_def dest: set_update_subset_insert [THEN subsetD] split: if_splits)

lemma close_services [simp]:
  "ln_svc ` set (close_one i lns) = ln_svc ` set lns" "ln_svc ` set (close_all lns) = ln_svc ` set lns"
proof -
  have "map ln_svc (close_one i lns) = map ln_svc lns" "map ln_svc (close_all lns) = map ln_svc lns"
    by (simp_all add: close_all_def close_one_def map_update list_update_same_conv)
  then show "ln_svc ` set (close_one i lns) = ln_svc ` set lns" "ln_svc ` set (close_all lns) = ln_svc ` set lns"
    by (metis set_map)+
qed

lemma shutdown_exec_open [dest]:
  "ln \<in> set (ss_listeners (shutdown_exec x ss)) \<Longrightarrow> ln_open ln \<Longrightarrow> ln \<in> set (ss_listeners ss)"
  by (cases x) auto

lemma shutdown_exec_services [simp]:
  "ln_svc ` set (ss_listeners (shutdown_exec x ss)) = ln_svc ` set (ss_listeners ss)"
  by (cases x) (simp_all del: close_all_mem)

lemmas action_defs = Run_accept_def handleControl_release_def runSession_start_def
  runSession_listen_def removeSession_def runSession_unwind_def runSession_cancel_def acceptUsers_one_def proxyUser_enter_def
  proxyUser_leave_def replaceSession_def chan_try_send_def chan_recv_def Let_def

lemma reachable_rtranclp: "reachable ed_verify ml_verify srv w \<longleftrightarrow> (step ed_verify ml_verify srv)\<^sup>*\<^sup>* initial_world w"
proof
  show "reachable ed_verify ml_verify srv w \<Longrightarrow> (step ed_verify ml_verify srv)\<^sup>*\<^sup>* initial_world w"
    by (induction rule: reachable.induct) (auto intro: rtranclp.rtrancl_into_rtrancl)
  show "(step ed_verify ml_verify srv)\<^sup>*\<^sup>* initial_world w \<Longrightarrow> reachable ed_verify ml_verify srv w"
    by (induction rule: rtranclp_induct) (auto intro: reachable.intros)
qed

section \<open>Semaphores\<close>

text \<open>
  The contract of a channel used as a counting semaphore: every step of the machine leaves it alone,
  or is a successful send by a goroutine that did not hold a slot, or a receive by one that did.
\<close>

locale counting_semaphore =
  fixes next_state :: "'s \<Rightarrow> 's \<Rightarrow> bool"
    and start_state :: 's
    and capacity :: nat
    and holders :: "'s \<Rightarrow> nat set"
    and level :: "'s \<Rightarrow> nat"
  assumes start_empty: "holders start_state = {}" "level start_state = 0"
    and step_cases: "next_state s t \<Longrightarrow>
      holders t = holders s \<and> level t = level s \<or>
      (\<exists>x. x \<notin> holders s \<and> holders t = insert x (holders s) \<and> chan_try_send capacity (level s) = Some (level t)) \<or>
      (\<exists>x \<in> holders s. holders t = holders s - {x} \<and> chan_recv (level s) = Some (level t))"
begin

lemma level_counts:
  assumes "next_state\<^sup>*\<^sup>* start_state s"
  shows "finite (holders s) \<and> level s = card (holders s) \<and> level s \<le> capacity"
  using assms
proof (induction rule: rtranclp_induct)
  case (step s t)
  from step_cases [OF step(2)] show ?case
  proof (elim disjE)
    assume "\<exists>x. x \<notin> holders s \<and> holders t = insert x (holders s) \<and> chan_try_send capacity (level s) = Some (level t)"
    then show ?thesis using step.IH by (auto simp: chan_try_send_def split: if_splits)
  next
    assume "\<exists>x \<in> holders s. holders t = holders s - {x} \<and> chan_recv (level s) = Some (level t)"
    then obtain x where x: "x \<in> holders s" "holders t = holders s - {x}" "level s = Suc (level t)"
      by (auto simp: chan_recv_def split: nat.splits)
    then have "card (holders t) = card (holders s) - 1" by (simp add: card_Diff_singleton)
    with x step.IH show ?thesis by simp
  qed (use step.IH in simp)
qed (simp add: start_empty)

text \<open>A holder's receive never blocks, and a free slot is there unless that many hold one.\<close>

lemma holder_can_release:
  assumes "next_state\<^sup>*\<^sup>* start_state s" and "x \<in> holders s"
  shows "chan_recv (level s) = Some (level s - 1)"
proof -
  have "0 < card (holders s)" using level_counts [OF assms(1)] assms(2) card_gt_0_iff by blast
  with level_counts [OF assms(1)] have "0 < level s" by simp
  then show ?thesis by (simp add: chan_recv_def split: nat.split)
qed

lemma full_iff:
  assumes "next_state\<^sup>*\<^sup>* start_state s"
  shows "chan_try_send capacity (level s) = None \<longleftrightarrow> card (holders s) = capacity"
  using level_counts [OF assms] by (auto simp: chan_try_send_def)

end

definition hs_holders :: "world \<Rightarrow> nat set" where
  "hs_holders w = {c. w_ctl w c = Some CtlHandshake}"

definition slot_holders :: "ptr \<Rightarrow> world \<Rightarrow> nat set" where
  "slot_holders p w = {u. \<exists>svc remote. w_usr w u = Some (UsrSlot p svc remote) \<or> w_usr w u = Some (UsrRelay p svc remote)}"

definition slot_level :: "ptr \<Rightarrow> world \<Rightarrow> nat" where
  "slot_level p w = (case w_objs w p of None \<Rightarrow> 0 | Some ss \<Rightarrow> ss_streamSem ss)"

lemma hs_holders_set_ctl [simp]:
  "hs_holders (set_ctl c pc w) = (if pc = CtlHandshake then insert c (hs_holders w) else hs_holders w - {c})"
  by (auto simp: hs_holders_def)

lemma hs_holders_frame [simp]:
  "hs_holders (upd_obj p f w) = hs_holders w" "hs_holders (set_usr u pc' w) = hs_holders w"
  "hs_holders (w\<lparr>w_handshakeSem := n\<rparr>) = hs_holders w" "hs_holders (w\<lparr>w_sessions := t\<rparr>) = hs_holders w"
  "hs_holders (w\<lparr>w_objs := ob\<rparr>) = hs_holders w"
  by (simp_all add: hs_holders_def)

lemma hs_holders_mem: "c \<in> hs_holders w \<longleftrightarrow> w_ctl w c = Some CtlHandshake"
  by (simp add: hs_holders_def)

interpretation handshake_sem: counting_semaphore
  "step ed_verify ml_verify srv" initial_world "srv_handshakeSem srv" hs_holders w_handshakeSem
  for ed_verify ml_verify and srv :: "('pk, 'kp) Server"
proof
  show "hs_holders initial_world = {}" "w_handshakeSem initial_world = 0"
    by (simp_all add: hs_holders_def initial_world_def)
  show "hs_holders t = hs_holders s \<and> w_handshakeSem t = w_handshakeSem s \<or>
      (\<exists>x. x \<notin> hs_holders s \<and> hs_holders t = insert x (hs_holders s) \<and>
        chan_try_send (srv_handshakeSem srv) (w_handshakeSem s) = Some (w_handshakeSem t)) \<or>
      (\<exists>x \<in> hs_holders s. hs_holders t = hs_holders s - {x} \<and> chan_recv (w_handshakeSem s) = Some (w_handshakeSem t))"
    if "step ed_verify ml_verify srv s t" for s t
    using that
  proof cases
    case (accept c)
    then have "c \<notin> hs_holders s" by (simp add: hs_holders_mem)
    with accept show ?thesis
      by (cases "chan_try_send (srv_handshakeSem srv) (w_handshakeSem s)") (auto simp: Run_accept_def)
  next
    case (handshake_failed c)
    then show ?thesis
      by (intro disjI2 bexI [of _ c]) (auto simp: handleControl_release_def hs_holders_mem)
  next
    case (handshake_ok c)
    then show ?thesis
      by (intro disjI2 bexI [of _ c]) (auto simp: handleControl_release_def hs_holders_mem)
  next
    case (shutdown_old c calls q rs)
    then show ?thesis
      by (cases "(c, calls, q, rs, s)" rule: runSession_shutdown_old.cases) (auto simp: hs_holders_mem)
  qed (auto simp: action_defs hs_holders_mem split: option.splits if_splits nat.splits)
qed

lemma slot_holders_frame [simp]:
  "slot_holders p (set_ctl c pc w) = slot_holders p w" "slot_holders p (upd_obj q f w) = slot_holders p w"
  "slot_holders p (w\<lparr>w_handshakeSem := n\<rparr>) = slot_holders p w"
  "slot_holders p (w\<lparr>w_sessions := t\<rparr>) = slot_holders p w" "slot_holders p (w\<lparr>w_objs := ob\<rparr>) = slot_holders p w"
  by (simp_all add: slot_holders_def)

definition has_slot :: "ptr \<Rightarrow> usr_pc \<Rightarrow> bool" where
  "has_slot p pc \<longleftrightarrow> (\<exists>svc remote. pc = UsrSlot p svc remote \<or> pc = UsrRelay p svc remote)"

lemma has_slot_simps [simp]:
  "has_slot p (UsrSlot q svc remote) \<longleftrightarrow> p = q" "has_slot p (UsrRelay q svc remote) \<longleftrightarrow> p = q"
  "\<not> has_slot p (UsrEnter q svc remote)" "\<not> has_slot p UsrClosed"
  by (auto simp: has_slot_def)

lemma slot_holders_set_usr [simp]:
  "slot_holders p (set_usr u pc w) = (if has_slot p pc then insert u (slot_holders p w) else slot_holders p w - {u})"
  by (auto simp: slot_holders_def has_slot_def)

lemma slot_holders_mem: "u \<in> slot_holders p w \<longleftrightarrow> (\<exists>pc. w_usr w u = Some pc \<and> has_slot p pc)"
  by (auto simp: slot_holders_def has_slot_def)

lemma slot_level_frame [simp]:
  "slot_level p (set_ctl c pc w) = slot_level p w" "slot_level p (set_usr u pc' w) = slot_level p w"
  "slot_level p (w\<lparr>w_handshakeSem := n\<rparr>) = slot_level p w" "slot_level p (w\<lparr>w_sessions := t\<rparr>) = slot_level p w"
  by (simp_all add: slot_level_def)

lemma slot_level_upd: "slot_level p (upd_obj q f w) =
    (if p = q then case w_objs w q of None \<Rightarrow> 0 | Some ss \<Rightarrow> ss_streamSem (f ss) else slot_level p w)"
  by (auto simp: slot_level_def split: option.splits)

lemma slot_level_keep: "(\<And>ss. ss_streamSem (f ss) = ss_streamSem ss) \<Longrightarrow> slot_level p (upd_obj q f w) = slot_level p w"
  by (auto simp: slot_level_def split: option.splits)

interpretation stream_sem: counting_semaphore
  "step ed_verify ml_verify srv" initial_world "max_streams srv" "slot_holders p" "slot_level p"
  for ed_verify ml_verify and srv :: "('pk, 'kp) Server" and p
proof
  show "slot_holders p initial_world = {}" "slot_level p initial_world = 0"
    by (simp_all add: slot_holders_def slot_level_def initial_world_def)
  show "slot_holders p t = slot_holders p s \<and> slot_level p t = slot_level p s \<or>
      (\<exists>x. x \<notin> slot_holders p s \<and> slot_holders p t = insert x (slot_holders p s) \<and>
        chan_try_send (max_streams srv) (slot_level p s) = Some (slot_level p t)) \<or>
      (\<exists>x \<in> slot_holders p s. slot_holders p t = slot_holders p s - {x} \<and>
        chan_recv (slot_level p s) = Some (slot_level p t))"
    if "step ed_verify ml_verify srv s t" for s t
    using that
  proof cases
    case (user_enter u q svc remote ss)
    then have u: "u \<notin> slot_holders p s" by (simp add: slot_holders_mem)
    show ?thesis
    proof (cases "p = q")
      case True
      then have "slot_level p s = ss_streamSem ss" using user_enter by (simp add: slot_level_def)
      with True user_enter u show ?thesis
        by (cases "chan_try_send (max_streams srv) (ss_streamSem ss)")
          (auto simp: proxyUser_enter_def slot_level_upd)
    next
      case False
      with user_enter u show ?thesis
        by (cases "chan_try_send (max_streams srv) (ss_streamSem ss)")
          (auto simp: proxyUser_enter_def slot_level_upd)
    qed
  next
    case (user_left u q svc remote ss)
    then have u: "u \<in> slot_holders p s \<longleftrightarrow> p = q" by (auto simp: slot_holders_mem)
    from user_left(3) obtain n where n: "chan_recv (ss_streamSem ss) = Some n"
      and t: "t = set_usr u UsrClosed (upd_obj q (\<lambda>ss. ss\<lparr>ss_streamSem := n\<rparr>) s)"
      by (auto simp: proxyUser_leave_def)
    show ?thesis
    proof (cases "p = q")
      case True
      then have "slot_level p s = ss_streamSem ss" using user_left by (simp add: slot_level_def)
      with True u n t user_left show ?thesis by (intro disjI2 bexI [of _ u]) (simp_all add: slot_level_upd)
    next
      case False
      with u t show ?thesis by (simp add: slot_level_upd)
    qed
  next
    case (start c cid sid rs q)
    then show ?thesis by (auto simp: runSession_start_def replaceSession_def slot_level_def)
  next
    case (listen c q name rest ss listen_ok)
    then show ?thesis by (auto simp: runSession_listen_def slot_level_keep split: option.splits)
  next
    case (user_accept u q ss ln remote)
    then have "u \<notin> slot_holders p s" by (simp add: slot_holders_mem)
    with user_accept show ?thesis by (simp add: acceptUsers_one_def)
  next
    case (user_opened u q svc remote)
    then have "u \<in> slot_holders p s \<longleftrightarrow> p = q" by (auto simp: slot_holders_mem)
    with user_opened show ?thesis by auto
  next
    case (shutdown_old c calls q rs)
    then show ?thesis by (cases "(c, calls, q, rs, s)" rule: runSession_shutdown_old.cases) (auto simp: slot_level_keep)
  next
    case (accept c)
    then show ?thesis by (auto simp: Run_accept_def split: option.splits)
  qed (auto simp: handleControl_release_def removeSession_def runSession_unwind_def runSession_cancel_def slot_level_keep)
qed

section \<open>The session table\<close>

text \<open>
  The contract of the table, as the sessions rely on it: a replacement returns what it replaced, and a
  removal by a session that is no longer in the table changes nothing.
\<close>

locale session_registry =
  fixes lookup :: "'t \<Rightarrow> 'k \<Rightarrow> 'v option"
    and replace :: "'t \<Rightarrow> 'k \<Rightarrow> 'v \<Rightarrow> 'v option \<times> 't"
    and remove :: "'t \<Rightarrow> 'k \<Rightarrow> 'v \<Rightarrow> 't"
  assumes replaced: "fst (replace t k v) = lookup t k"
    and lookup_replace: "lookup (snd (replace t k v)) k' = (if k' = k then Some v else lookup t k')"
    and lookup_remove: "lookup (remove t k v) k' = (if k' = k \<and> lookup t k = Some v then None else lookup t k')"
begin

lemma late_removal_harmless:
  "v \<noteq> v' \<Longrightarrow> lookup (remove (snd (replace t k v')) k v) k' = lookup (snd (replace t k v')) k'"
  by (simp add: lookup_remove lookup_replace)

lemma removal_undoes:
  "lookup t k = None \<Longrightarrow> lookup (remove (snd (replace t k v)) k v) k' = lookup t k'"
  by (simp add: lookup_remove lookup_replace)

end

interpretation session_table: session_registry "\<lambda>t k. t k" replaceSession remove_entry
  by unfold_locales (simp_all add: replaceSession_def remove_entry_def)

section \<open>Who is turned away\<close>

text \<open>A connection that appears, and a user that leaves the point where a slot is taken.\<close>

lemma new_control:
  assumes "step ed_verify ml_verify srv w w'" and "w_ctl w c = None" and "w_ctl w' c \<noteq> None"
  shows "w_ctl w' c = Some (case chan_try_send (srv_handshakeSem srv) (w_handshakeSem w) of
    Some _ \<Rightarrow> CtlHandshake | None \<Rightarrow> CtlClosed)"
  using assms(1)
proof cases
  case (accept c')
  then show ?thesis using assms(2,3) by (auto simp: Run_accept_def split: option.splits if_splits)
next
  case (shutdown_old c' calls p rs)
  then show ?thesis using assms(2,3)
    by (cases "(c', calls, p, rs, w)" rule: runSession_shutdown_old.cases) (auto split: if_splits)
next
  case (listen c' p name rest ss listen_ok)
  then show ?thesis using assms(2,3)
    by (auto simp: runSession_listen_def split: option.splits if_splits)
qed (use assms(2,3) in \<open>auto simp: action_defs split: option.splits if_splits nat.splits\<close>)

lemma entering_user:
  assumes "step ed_verify ml_verify srv w w'" and "w_usr w u = Some (UsrEnter p svc remote)"
    and "w_usr w' u \<noteq> w_usr w u" and "w_objs w p = Some ss"
  shows "w_usr w' u = Some (case chan_try_send (max_streams srv) (ss_streamSem ss) of
    Some _ \<Rightarrow> UsrSlot p svc remote | None \<Rightarrow> UsrClosed)"
  using assms(1)
proof cases
  case (user_enter u' q svc' remote' ss')
  then show ?thesis using assms(2-4) by (auto simp: proxyUser_enter_def split: option.splits if_splits)
next
  case (shutdown_old c' calls q rs)
  then show ?thesis using assms(2,3)
    by (cases "(c', calls, q, rs, w)" rule: runSession_shutdown_old.cases) auto
next
  case (listen c' q name rest ss' listen_ok)
  then show ?thesis using assms(2,3)
    by (auto simp: runSession_listen_def split: option.splits if_splits)
qed (use assms(2,3) in \<open>auto simp: action_defs split: option.splits if_splits nat.splits\<close>)

end
