(* ===== verification/SessionInvariants.thy ===== *)
theory SessionInvariants
  imports Sessions
begin

text \<open>
  What holds in every state the session machine of \<open>internal/tunnel/server.go\<close> can reach, whatever the
  interleaving: each session is run by one goroutine, the table points to sessions of their own client,
  a session that has been replaced is shut down or about to be, a port is bound only by a live session,
  and users are served only on services the session's client may offer and asked for.
\<close>


section \<open>Who runs a session\<close>

text \<open>The session a control goroutine runs, from its creation to its return.\<close>

fun own :: "ctl_pc \<Rightarrow> ptr option" where
  "own CtlHandshake = None"
| "own (CtlStart cid sid rs) = None"
| "own (CtlShutdownOld old p rs) = Some p"
| "own (CtlListen p rs) = Some p"
| "own (CtlWait p) = Some p"
| "own (CtlRemove p) = Some p"
| "own (CtlUnwind p) = Some p"
| "own (CtlCancel p) = Some p"
| "own CtlClosed = None"

text \<open>Before \<open>removeSession\<close>, and before the session has ended.\<close>

fun registered_pc :: "ctl_pc \<Rightarrow> bool" where
  "registered_pc (CtlUnwind p) = False"
| "registered_pc (CtlCancel p) = False"
| "registered_pc pc = (own pc \<noteq> None)"

fun running_pc :: "ctl_pc \<Rightarrow> bool" where
  "running_pc (CtlRemove p) = False"
| "running_pc pc = registered_pc pc"

definition runs :: "world \<Rightarrow> nat \<Rightarrow> ctl_pc \<Rightarrow> ptr \<Rightarrow> bool" where
  "runs w c pc p \<longleftrightarrow> w_ctl w c = Some pc \<and> own pc = Some p"

definition ptr_inv :: "world \<Rightarrow> bool" where
  "ptr_inv w \<longleftrightarrow> (\<forall>c pc p. runs w c pc p \<longrightarrow> w_objs w p \<noteq> None) \<and>
     (\<forall>c pc c' pc' p. runs w c pc p \<longrightarrow> runs w c' pc' p \<longrightarrow> c = c')"

definition has_owner :: "world \<Rightarrow> ptr \<Rightarrow> bool" where
  "has_owner w p \<longleftrightarrow> (\<exists>c pc. runs w c pc p \<and> registered_pc pc)"

definition running :: "world \<Rightarrow> ptr \<Rightarrow> bool" where
  "running w p \<longleftrightarrow> (\<exists>c pc. runs w c pc p \<and> running_pc pc)"

text \<open>A call of \<open>shutdown\<close> that some goroutine still has to make, and what a call achieves for good.\<close>

definition shutdown_pending :: "world \<Rightarrow> shutdown_call \<Rightarrow> ptr \<Rightarrow> bool" where
  "shutdown_pending w x p \<longleftrightarrow> (\<exists>c calls q rs. w_ctl w c = Some (CtlShutdownOld calls q rs) \<and> (p, x) \<in> set calls)"

fun achieved :: "shutdown_call \<Rightarrow> serverSession \<Rightarrow> bool" where
  "achieved SdCancel ss = ss_cancelled ss"
| "achieved SdListeners ss = True"
| "achieved (SdWatcher _) ss = True"
| "achieved SdYam ss = ss_yamClosed ss"

definition table_inv :: "world \<Rightarrow> bool" where
  "table_inv w \<longleftrightarrow> (\<forall>cid p. w_sessions w cid = Some p \<longrightarrow>
     has_owner w p \<and> (\<exists>ss. w_objs w p = Some ss \<and> ss_clientID ss = cid))"

definition replaced_inv :: "world \<Rightarrow> bool" where
  "replaced_inv w \<longleftrightarrow> (\<forall>p ss x. running w p \<longrightarrow> w_objs w p = Some ss \<longrightarrow>
     w_sessions w (ss_clientID ss) = Some p \<or> achieved x ss \<or> shutdown_pending w x p)"

definition ports_inv :: "world \<Rightarrow> bool" where
  "ports_inv w \<longleftrightarrow> (\<forall>p ss. w_objs w p = Some ss \<longrightarrow> (\<exists>ln \<in> set (ss_listeners ss). ln_open ln) \<longrightarrow> has_owner w p)"

lemma runs_frame [simp]:
  "runs (upd_obj q f w) = runs w" "runs (set_usr u pc' w) = runs w" "runs (w\<lparr>w_handshakeSem := n\<rparr>) = runs w"
  "runs (w\<lparr>w_sessions := t\<rparr>) = runs w" "runs (w\<lparr>w_objs := ob\<rparr>) = runs w"
  by (simp_all add: runs_def fun_eq_iff)

lemma runs_set_ctl [simp]:
  "runs (set_ctl c pc w) c' pc' p \<longleftrightarrow>
     c' = c \<and> pc' = pc \<and> own pc = Some p \<or> c' \<noteq> c \<and> runs w c' pc' p"
  by (auto simp: runs_def)

lemma ptr_inv_step:
  assumes "step ed_verify ml_verify srv w w'" and "ptr_inv w"
  shows "ptr_inv w'"
  using assms(1)
proof cases
  case (accept c)
  then show ?thesis using assms(2) by (auto simp: ptr_inv_def Run_accept_def split: option.splits)
next
  case (handshake_failed c)
  then show ?thesis using assms(2) by (auto simp: ptr_inv_def handleControl_release_def)
next
  case (handshake_ok c)
  then show ?thesis using assms(2) by (auto simp: ptr_inv_def handleControl_release_def)
next
  case (start c cid sid rs p)
  then have "\<not> runs w c' pc p" for c' pc using assms(2) unfolding ptr_inv_def by blast
  with start assms(2) show ?thesis
    by (auto simp: ptr_inv_def runSession_start_def replaceSession_def)
next
  case (shutdown_old c calls p rs)
  then have "runs w c (CtlShutdownOld calls p rs) p" by (simp add: runs_def)
  with shutdown_old assms(2) show ?thesis
    by (cases "(c, calls, p, rs, w)" rule: runSession_shutdown_old.cases) (auto simp: ptr_inv_def)
next
  case (listen c p name rest ss listen_ok)
  then have "runs w c (CtlListen p (name # rest)) p" by (simp add: runs_def)
  with listen assms(2) show ?thesis by (auto simp: ptr_inv_def runSession_listen_def split: option.splits)
next
  case (listening c p)
  then have "runs w c (CtlListen p []) p" by (simp add: runs_def)
  with listening assms(2) show ?thesis by (auto simp: ptr_inv_def)
next
  case (wait_over c p ss)
  then have "runs w c (CtlWait p) p" by (simp add: runs_def)
  with wait_over assms(2) show ?thesis by (auto simp: ptr_inv_def)
next
  case (remove c p ss)
  then have "runs w c (CtlRemove p) p" by (simp add: runs_def)
  with remove assms(2) show ?thesis by (auto simp: ptr_inv_def removeSession_def)
next
  case (unwind c p)
  then have "runs w c (CtlUnwind p) p" by (simp add: runs_def)
  with unwind assms(2) show ?thesis by (auto simp: ptr_inv_def runSession_unwind_def)
next
  case (cancel c p)
  then have "runs w c (CtlCancel p) p" by (simp add: runs_def)
  with cancel assms(2) show ?thesis by (auto simp: ptr_inv_def runSession_cancel_def)
next
  case (user_enter u p svc remote ss)
  then show ?thesis using assms(2) by (auto simp: ptr_inv_def proxyUser_enter_def split: option.splits)
next
  case (user_left u p svc remote ss)
  then show ?thesis using assms(2) by (auto simp: ptr_inv_def proxyUser_leave_def)
qed (use assms(2) in \<open>auto simp: ptr_inv_def acceptUsers_one_def\<close>)

subsection \<open>How the actions change ownership\<close>

lemma owner_frame [simp]:
  "has_owner (upd_obj q f w) = has_owner w" "has_owner (set_usr u pc' w) = has_owner w"
  "has_owner (w\<lparr>w_handshakeSem := n\<rparr>) = has_owner w" "has_owner (w\<lparr>w_sessions := t\<rparr>) = has_owner w"
  "has_owner (w\<lparr>w_objs := ob\<rparr>) = has_owner w"
  "running (upd_obj q f w) = running w" "running (set_usr u pc' w) = running w"
  "running (w\<lparr>w_handshakeSem := n\<rparr>) = running w" "running (w\<lparr>w_sessions := t\<rparr>) = running w"
  "running (w\<lparr>w_objs := ob\<rparr>) = running w"
  by (simp_all add: has_owner_def running_def fun_eq_iff)

lemma pending_frame [simp]:
  "shutdown_pending (upd_obj q f w) = shutdown_pending w" "shutdown_pending (set_usr u pc' w) = shutdown_pending w"
  "shutdown_pending (w\<lparr>w_handshakeSem := n\<rparr>) = shutdown_pending w"
  "shutdown_pending (w\<lparr>w_sessions := t\<rparr>) = shutdown_pending w"
  "shutdown_pending (w\<lparr>w_objs := ob\<rparr>) = shutdown_pending w"
  by (simp_all add: shutdown_pending_def fun_eq_iff)

lemma has_owner_new:
  assumes "w_ctl w c = None" and "own pc = None"
  shows "has_owner (set_ctl c pc w) = has_owner w" "running (set_ctl c pc w) = running w"
  using assms unfolding has_owner_def running_def fun_eq_iff runs_set_ctl
  by (metis option.distinct(1) runs_def)+

lemma has_owner_move:
  assumes "w_ctl w c = Some pc0" and "registered_pc pc = registered_pc pc0" and "\<not> registered_pc pc \<or> own pc = own pc0"
  shows "has_owner (set_ctl c pc w) = has_owner w"
  using assms unfolding has_owner_def fun_eq_iff runs_set_ctl by (metis option.inject runs_def)

lemma running_move:
  assumes "running (set_ctl c pc w) p" and "w_ctl w c = Some pc0"
    and "\<not> running_pc pc \<or> own pc = own pc0 \<and> running_pc pc0"
  shows "running w p"
  using assms unfolding running_def runs_set_ctl by (metis runs_def)

lemma pending_set_ctl:
  "shutdown_pending (set_ctl c pc w) x q \<longleftrightarrow>
     (\<exists>calls p rs. pc = CtlShutdownOld calls p rs \<and> (q, x) \<in> set calls) \<or>
     (\<exists>c' calls p rs. c' \<noteq> c \<and> w_ctl w c' = Some (CtlShutdownOld calls p rs) \<and> (q, x) \<in> set calls)"
  unfolding shutdown_pending_def by auto

lemma pending_move:
  assumes "shutdown_pending w x q" and "\<And>calls p rs. w_ctl w c \<noteq> Some (CtlShutdownOld calls p rs)"
  shows "shutdown_pending (set_ctl c pc w) x q"
  using assms unfolding pending_set_ctl unfolding shutdown_pending_def by metis

lemma has_owner_start:
  assumes "w_ctl w c = Some (CtlStart cid sid rs)"
  shows "has_owner (set_ctl c (CtlShutdownOld calls p rs') w) q \<longleftrightarrow> q = p \<or> has_owner w q"
    and "running (set_ctl c (CtlShutdownOld calls p rs') w) q \<longleftrightarrow> q = p \<or> running w q"
proof -
  have c: "\<not> runs w c pc q" for pc q using assms by (auto simp: runs_def)
  have pc: "own (CtlShutdownOld calls p rs') = Some p" "registered_pc (CtlShutdownOld calls p rs')"
    "running_pc (CtlShutdownOld calls p rs')" by simp_all
  show "has_owner (set_ctl c (CtlShutdownOld calls p rs') w) q \<longleftrightarrow> q = p \<or> has_owner w q"
    unfolding has_owner_def runs_set_ctl using c pc by (metis option.inject)
  show "running (set_ctl c (CtlShutdownOld calls p rs') w) q \<longleftrightarrow> q = p \<or> running w q"
    unfolding running_def runs_set_ctl using c pc by (metis option.inject)
qed

lemma has_owner_remove:
  assumes "w_ctl w c = Some (CtlRemove p)" and "ptr_inv w"
  shows "has_owner (set_ctl c (CtlUnwind p) w) q \<longleftrightarrow> has_owner w q \<and> q \<noteq> p"
proof -
  have c: "runs w c (CtlRemove p) p" using assms(1) by (simp add: runs_def)
  then have "runs w c' pc p \<Longrightarrow> c' = c" for c' pc using assms(2) unfolding ptr_inv_def by blast
  moreover have "runs w c pc q \<Longrightarrow> pc = CtlRemove p \<and> q = p" for pc using assms(1) by (auto simp: runs_def)
  ultimately show ?thesis unfolding has_owner_def runs_set_ctl by (metis option.inject own.simps(7) registered_pc.simps(1))
qed

lemma running_registered: "running_pc pc \<Longrightarrow> registered_pc pc"
  by (cases pc) auto

lemma owner_running: "running w p \<Longrightarrow> has_owner w p"
  unfolding running_def has_owner_def using running_registered by blast

subsection \<open>Each step preserves the invariants\<close>

lemma table_inv_move:
  assumes "table_inv w" and "w_sessions w' = w_sessions w" and "\<And>p. has_owner w p \<Longrightarrow> has_owner w' p"
    and "\<And>p ss. w_objs w p = Some ss \<Longrightarrow> \<exists>ss'. w_objs w' p = Some ss' \<and> ss_clientID ss' = ss_clientID ss"
  shows "table_inv w'"
  using assms unfolding table_inv_def by metis

lemma upd_obj_keeps:
  assumes "\<And>ss. ss_clientID (f ss) = ss_clientID ss" and "w_objs w p = Some ss"
  shows "\<exists>ss'. w_objs (upd_obj q f w) p = Some ss' \<and> ss_clientID ss' = ss_clientID ss"
  using assms by auto

lemma table_inv_step:
  assumes "step ed_verify ml_verify srv w w'" and "ptr_inv w" and "table_inv w"
  shows "table_inv w'"
  using assms(1)
proof cases
  case (accept c)
  then show ?thesis using assms(3)
    by (intro table_inv_move [OF assms(3)]) (auto simp: Run_accept_def has_owner_new split: option.splits)
next
  case (handshake_failed c)
  then show ?thesis
    by (intro table_inv_move [OF assms(3)]) (auto simp: handleControl_release_def has_owner_move)
next
  case (handshake_ok c)
  then show ?thesis
    by (intro table_inv_move [OF assms(3)]) (auto simp: handleControl_release_def has_owner_move)
next
  case (start c cid sid rs p)
  then have "w_sessions w k \<noteq> Some p" for k using assms(3) unfolding table_inv_def by fastforce
  with start assms(3) show ?thesis
    by (auto simp: table_inv_def runSession_start_def replaceSession_def has_owner_start)
next
  case (shutdown_old c calls p rs)
  then show ?thesis
    by (intro table_inv_move [OF assms(3)]; cases "(c, calls, p, rs, w)" rule: runSession_shutdown_old.cases)
      (auto simp: has_owner_move)
next
  case (listen c p name rest ss listen_ok)
  then show ?thesis
    by (intro table_inv_move [OF assms(3)]) (auto simp: runSession_listen_def has_owner_move split: option.splits)
next
  case (listening c p)
  then show ?thesis by (intro table_inv_move [OF assms(3)]) (auto simp: has_owner_move)
next
  case (wait_over c p ss)
  then show ?thesis by (intro table_inv_move [OF assms(3)]) (auto simp: has_owner_move)
next
  case (remove c p ss)
  have lookup': "w_sessions w' k = remove_entry (w_sessions w) (ss_clientID ss) p k" for k
    by (simp add: remove(1) removeSession_def)
  have "has_owner w' q \<longleftrightarrow> has_owner w q \<and> q \<noteq> p" for q
    using has_owner_remove [OF remove(2) assms(2), of q] unfolding remove(1) removeSession_def
    by (simp only: has_owner_def runs_set_ctl runs_frame)
  moreover have "k = ss_clientID ss" if "w_sessions w k = Some p" for k
    using that remove(3) assms(3) unfolding table_inv_def by fastforce
  then have "w_sessions w' k = (if w_sessions w k = Some p then None else w_sessions w k)" for k
    unfolding lookup' session_table.lookup_remove by metis
  moreover have "q \<noteq> p \<Longrightarrow> w_objs w' q = w_objs w q" for q
    unfolding remove(1) removeSession_def by simp
  ultimately show ?thesis using assms(3) unfolding table_inv_def by (metis option.discI)
next
  case (unwind c p)
  then show ?thesis
    by (intro table_inv_move [OF assms(3)]) (auto simp: runSession_unwind_def has_owner_move)
next
  case (cancel c p)
  then show ?thesis
    by (intro table_inv_move [OF assms(3)]) (auto simp: runSession_cancel_def has_owner_move)
next
  case (user_enter u p svc remote ss)
  then show ?thesis
    by (intro table_inv_move [OF assms(3)]) (auto simp: proxyUser_enter_def split: option.splits)
next
  case (user_left u p svc remote ss)
  then show ?thesis by (intro table_inv_move [OF assms(3)]) (auto simp: proxyUser_leave_def)
qed (intro table_inv_move [OF assms(3)]; auto simp: acceptUsers_one_def)+

lemma achieved_mono: "achieved x ss \<Longrightarrow> achieved x (shutdown_exec y ss)"
  by (cases x) auto

lemma achieved_flags [simp]:
  "achieved x (ss\<lparr>ss_yamClosed := True\<rparr>) \<longleftrightarrow> achieved x ss \<or> x = SdYam"
  "achieved x (ss\<lparr>ss_cancelled := True\<rparr>) \<longleftrightarrow> achieved x ss \<or> x = SdCancel"
  by (cases x; simp)+

lemma achieved_exec [simp]: "achieved x (shutdown_exec x ss)"
  by (cases x) auto

lemma achieved_simps [simp]:
  "achieved x (ss\<lparr>ss_listeners := l\<rparr>) = achieved x ss" "achieved x (ss\<lparr>ss_streamSem := n\<rparr>) = achieved x ss"
  by (cases x; simp)+

lemma replaced_inv_move:
  assumes "replaced_inv w" and "w_sessions w' = w_sessions w"
    and "\<And>p. running w' p \<Longrightarrow> running w p"
    and "\<And>p ss'. w_objs w' p = Some ss' \<Longrightarrow>
           \<exists>ss. w_objs w p = Some ss \<and> ss_clientID ss' = ss_clientID ss \<and> (\<forall>x. achieved x ss \<longrightarrow> achieved x ss')"
    and "\<And>p x ss'. shutdown_pending w x p \<Longrightarrow> w_objs w' p = Some ss' \<Longrightarrow> shutdown_pending w' x p \<or> achieved x ss'"
  shows "replaced_inv w'"
  using assms unfolding replaced_inv_def by metis

lemma obj_kept:
  assumes "\<And>ss. ss_clientID (f ss) = ss_clientID ss" and "\<And>x ss. achieved x ss \<Longrightarrow> achieved x (f ss)"
    and "w_objs (upd_obj q f w) p = Some ss'"
  shows "\<exists>ss. w_objs w p = Some ss \<and> ss_clientID ss' = ss_clientID ss \<and> (\<forall>x. achieved x ss \<longrightarrow> achieved x ss')"
  using assms by (auto split: if_splits)

lemma replaced_inv_start:
  assumes "replaced_inv w" and "w_ctl w c = Some (CtlStart cid sid rs)" and "w_objs w p = None"
  shows "replaced_inv (runSession_start c cid sid rs p w)" (is "replaced_inv ?w")
  unfolding replaced_inv_def
proof (intro allI impI)
  fix q ss x
  assume run: "running ?w q" and ob: "w_objs ?w q = Some ss"
  show "w_sessions ?w (ss_clientID ss) = Some q \<or> achieved x ss \<or> shutdown_pending ?w x q"
  proof (cases "q = p")
    case True
    with ob show ?thesis by (auto simp: runSession_start_def replaceSession_def)
  next
    case False
    with run ob assms(2) have "running w q" "w_objs w q = Some ss"
      by (auto simp: runSession_start_def replaceSession_def has_owner_start)
    with assms(1) consider "w_sessions w (ss_clientID ss) = Some q" | "achieved x ss" | "shutdown_pending w x q"
      unfolding replaced_inv_def by blast
    then show ?thesis
    proof cases
      case 1
      then show ?thesis
        by (cases x; cases "ss_clientID ss = cid")
          (auto simp: runSession_start_def replaceSession_def pending_set_ctl shutdown_def)
    next
      case 3
      with assms(2) have "shutdown_pending (set_ctl c CtlClosed w) x q" by (auto intro: pending_move)
      then show ?thesis by (simp add: runSession_start_def replaceSession_def Let_def pending_set_ctl)
    qed simp
  qed
qed

lemma not_running_remove:
  assumes "w_ctl w c = Some (CtlRemove p)" and "ptr_inv w"
  shows "\<not> running w p"
proof
  assume "running w p"
  then obtain c' pc where r: "runs w c' pc p" "running_pc pc" by (auto simp: running_def)
  moreover have "runs w c (CtlRemove p) p" using assms(1) by (simp add: runs_def)
  ultimately have "c' = c" using assms(2) unfolding ptr_inv_def by blast
  with r assms(1) show False by (auto simp: runs_def)
qed

lemma replaced_inv_remove:
  assumes "replaced_inv w" and "ptr_inv w" and "w_ctl w c = Some (CtlRemove p)"
  shows "replaced_inv (removeSession c cid p w)"
proof -
  have run: "running w q \<and> q \<noteq> p" if "running (set_ctl c (CtlUnwind p) w) q" for q
  proof -
    have "running w q" by (rule running_move [OF that assms(3)]) simp
    with not_running_remove [OF assms(3,2)] show ?thesis by auto
  qed
  have pend: "shutdown_pending w x q \<Longrightarrow> shutdown_pending (set_ctl c (CtlUnwind p) w) x q" for x q
    using assms(3) by (auto intro: pending_move)
  have run': "running (removeSession c cid p w) = running (set_ctl c (CtlUnwind p) w)"
    "shutdown_pending (removeSession c cid p w) = shutdown_pending (set_ctl c (CtlUnwind p) w)"
    by (simp_all add: removeSession_def fun_eq_iff pending_set_ctl running_def)
  show ?thesis
    unfolding replaced_inv_def run'
  proof (intro allI impI)
    fix q ss x
    assume q: "running (set_ctl c (CtlUnwind p) w) q" and "w_objs (removeSession c cid p w) q = Some ss"
    with run [OF q] have "w_objs w q = Some ss" by (auto simp: removeSession_def)
    with assms(1) run [OF q] have "w_sessions w (ss_clientID ss) = Some q \<or> achieved x ss \<or> shutdown_pending w x q"
      unfolding replaced_inv_def by blast
    moreover have "w_sessions w k = Some q \<Longrightarrow> w_sessions (removeSession c cid p w) k = Some q" for k
      using run [OF q] by (auto simp: removeSession_def remove_entry_def)
    ultimately show "w_sessions (removeSession c cid p w) (ss_clientID ss) = Some q \<or> achieved x ss \<or>
        shutdown_pending (set_ctl c (CtlUnwind p) w) x q"
      using pend by blast
  qed
qed

lemma replaced_inv_shutdown_old:
  assumes "replaced_inv w" and "w_ctl w c = Some (CtlShutdownOld calls p rs)"
  shows "replaced_inv (runSession_shutdown_old c calls p rs w)"
proof (cases calls)
  case Nil
  with assms(2) have c: "w_ctl w c = Some (CtlShutdownOld [] p rs)" by simp
  let ?w' = "set_ctl c (CtlListen p rs) w"
  have run: "running w r" if "running ?w' r" for r by (rule running_move [OF that c]) simp
  have pend: "shutdown_pending ?w' x r" if "shutdown_pending w x r" for x r
    using that c unfolding pending_set_ctl unfolding shutdown_pending_def by (metis ctl_pc.inject(2) empty_iff option.inject list.set(1))
  have "replaced_inv ?w'" by (rule replaced_inv_move [OF assms(1)]) (use run pend in auto)
  with Nil show ?thesis by simp
next
  case (Cons qc calls')
  obtain q call where qc: "qc = (q, call)" by fastforce
  with assms(2) Cons have c: "w_ctl w c = Some (CtlShutdownOld ((q, call) # calls') p rs)" by simp
  let ?w' = "set_ctl c (CtlShutdownOld calls' p rs) (upd_obj q (shutdown_exec call) w)"
  have run: "running w r" if "running ?w' r" for r
  proof -
    have "w_ctl (upd_obj q (shutdown_exec call) w) c = Some (CtlShutdownOld ((q, call) # calls') p rs)"
      using c by simp
    from running_move [OF that this] have "running (upd_obj q (shutdown_exec call) w) r" by simp
    then show ?thesis by simp
  qed
  have pend: "shutdown_pending ?w' x r \<or> (r, x) = (q, call)" if "shutdown_pending w x r" for x r
    using that c unfolding pending_set_ctl upd_obj_simps unfolding shutdown_pending_def
    by (metis ctl_pc.inject(2) option.inject set_ConsD)
  have ob: "\<exists>ss. w_objs w r = Some ss \<and> ss_clientID ss' = ss_clientID ss \<and> (\<forall>x. achieved x ss \<longrightarrow> achieved x ss')"
    if "w_objs ?w' r = Some ss'" for r ss'
    by (rule obj_kept [of "shutdown_exec call" q]) (use that achieved_mono in auto)
  have ach: "shutdown_pending ?w' x r \<or> achieved x ss'" if "shutdown_pending w x r" "w_objs ?w' r = Some ss'" for x r ss'
    using pend [OF that(1)] that(2) by auto
  have "replaced_inv ?w'" by (rule replaced_inv_move [OF assms(1)]) (use run ob ach in auto)
  with Cons qc show ?thesis by simp
qed

lemma same_ctl:
  assumes "w_ctl w' = w_ctl w"
  shows "runs w' = runs w" "has_owner w' = has_owner w" "running w' = running w"
    "shutdown_pending w' = shutdown_pending w"
  using assms by (simp_all add: runs_def has_owner_def running_def shutdown_pending_def fun_eq_iff)

lemma moved_ctl:
  assumes "w_ctl w' = (w_ctl w)(c \<mapsto> pc)"
  shows "has_owner w' = has_owner (set_ctl c pc w)" "running w' = running (set_ctl c pc w)"
    "shutdown_pending w' = shutdown_pending (set_ctl c pc w)"
  by (rule same_ctl; use assms in simp)+

lemma replaced_inv_same:
  assumes "replaced_inv w" and "w_sessions w' = w_sessions w" and "w_ctl w' = w_ctl w"
    and "\<And>p ss'. w_objs w' p = Some ss' \<Longrightarrow>
           \<exists>ss. w_objs w p = Some ss \<and> ss_clientID ss' = ss_clientID ss \<and> (\<forall>x. achieved x ss \<longrightarrow> achieved x ss')"
  shows "replaced_inv w'"
  by (rule replaced_inv_move [OF assms(1,2)]) (use assms(3,4) same_ctl [OF assms(3)] in auto)

lemma replaced_inv_ctl:
  assumes "replaced_inv w" and "w_sessions w' = w_sessions w" and "w_ctl w' = (w_ctl w)(c \<mapsto> pc)"
    and "\<And>p ss'. w_objs w' p = Some ss' \<Longrightarrow>
           \<exists>ss. w_objs w p = Some ss \<and> ss_clientID ss' = ss_clientID ss \<and> (\<forall>x. achieved x ss \<longrightarrow> achieved x ss')"
    and "\<And>calls p rs. w_ctl w c \<noteq> Some (CtlShutdownOld calls p rs)"
    and "\<not> running_pc pc \<or> (\<exists>pc0. w_ctl w c = Some pc0 \<and> own pc = own pc0 \<and> running_pc pc0)"
  shows "replaced_inv w'"
proof -
  have "running w p" if "running (set_ctl c pc w) p" for p
  proof (cases "w_ctl w c")
    case None
    with assms(6) that show ?thesis unfolding running_def runs_set_ctl by (metis option.distinct(1))
  next
    case (Some pc0)
    with running_move [OF that Some] assms(6) show ?thesis by auto
  qed
  moreover have "shutdown_pending (set_ctl c pc w) x p" if "shutdown_pending w x p" for x p
    using that assms(5) by (rule pending_move)
  ultimately show ?thesis
    by (intro replaced_inv_move [OF assms(1,2)]) (use assms(4) moved_ctl [OF assms(3)] in auto)
qed

lemma replaced_inv_step:
  assumes "step ed_verify ml_verify srv w w'" and "ptr_inv w" and "replaced_inv w"
  shows "replaced_inv w'"
  using assms(1)
proof cases
  case (accept c)
  then show ?thesis
    by (cases "chan_try_send (srv_handshakeSem srv) (w_handshakeSem w)")
      (auto simp: Run_accept_def intro!: replaced_inv_ctl [OF assms(3)])
next
  case (handshake_failed c)
  then show ?thesis by (auto simp: handleControl_release_def intro!: replaced_inv_ctl [OF assms(3)])
next
  case (handshake_ok c)
  then show ?thesis by (auto simp: handleControl_release_def intro!: replaced_inv_ctl [OF assms(3)])
next
  case (start c cid sid rs p)
  with replaced_inv_start assms(3) show ?thesis by blast
next
  case (shutdown_old c calls p rs)
  with replaced_inv_shutdown_old assms(3) show ?thesis by blast
next
  case (remove c p ss)
  with replaced_inv_remove assms(2,3) show ?thesis by blast
next
  case (listen c p name rest ss listen_ok)
  then show ?thesis
    by (cases "allowed_for srv (ss_clientID ss) name"; cases listen_ok)
      (auto simp: runSession_listen_def intro!: replaced_inv_ctl [OF assms(3)] split: if_splits)
next
  case (listening c p)
  then show ?thesis by (auto intro!: replaced_inv_ctl [OF assms(3)])
next
  case (wait_over c p ss)
  then show ?thesis by (auto intro!: replaced_inv_ctl [OF assms(3)])
next
  case (unwind c p)
  then show ?thesis
    by (auto simp: runSession_unwind_def intro!: replaced_inv_ctl [OF assms(3)] intro: achieved_mono split: if_splits)
next
  case (cancel c p)
  then show ?thesis
    by (auto simp: runSession_cancel_def intro!: replaced_inv_ctl [OF assms(3)] intro: achieved_mono split: if_splits)
qed (auto simp: acceptUsers_one_def proxyUser_enter_def proxyUser_leave_def split: option.splits if_splits
       intro!: replaced_inv_same [OF assms(3)] intro: achieved_mono)

lemma ports_inv_move:
  assumes "ports_inv w" and "\<And>p. has_owner w p \<Longrightarrow> has_owner w' p"
    and "\<And>p ss' ln. w_objs w' p = Some ss' \<Longrightarrow> ln \<in> set (ss_listeners ss') \<Longrightarrow> ln_open ln \<Longrightarrow>
           has_owner w p \<or> (\<exists>ss. w_objs w p = Some ss \<and> ln \<in> set (ss_listeners ss))"
  shows "ports_inv w'"
  using assms unfolding ports_inv_def by blast

lemma ports_inv_step:
  assumes "step ed_verify ml_verify srv w w'" and "ptr_inv w" and "ports_inv w"
  shows "ports_inv w'"
  using assms(1)
proof cases
  case (accept c)
  then show ?thesis
    by (intro ports_inv_move [OF assms(3)]) (auto simp: Run_accept_def has_owner_new split: option.splits)
next
  case (handshake_failed c)
  then show ?thesis
    by (intro ports_inv_move [OF assms(3)]) (auto simp: handleControl_release_def has_owner_move)
next
  case (handshake_ok c)
  then show ?thesis
    by (intro ports_inv_move [OF assms(3)]) (auto simp: handleControl_release_def has_owner_move)
next
  case (start c cid sid rs p)
  then show ?thesis
    by (intro ports_inv_move [OF assms(3)])
      (auto simp: runSession_start_def replaceSession_def has_owner_start split: if_splits)
next
  case (shutdown_old c calls p rs)
  then show ?thesis
    by (intro ports_inv_move [OF assms(3)]; cases "(c, calls, p, rs, w)" rule: runSession_shutdown_old.cases)
      (auto simp: has_owner_move split: if_splits)
next
  case (listen c p name rest ss listen_ok)
  then have "has_owner w p" unfolding has_owner_def runs_def by force
  with listen show ?thesis
    by (intro ports_inv_move [OF assms(3)])
      (auto simp: runSession_listen_def has_owner_move split: option.splits if_splits)
next
  case (listening c p)
  then show ?thesis by (intro ports_inv_move [OF assms(3)]) (auto simp: has_owner_move)
next
  case (wait_over c p ss)
  then show ?thesis by (intro ports_inv_move [OF assms(3)]) (auto simp: has_owner_move)
next
  case (remove c p ss)
  have own: "has_owner w' q \<longleftrightarrow> has_owner w q \<and> q \<noteq> p" for q
    using has_owner_remove [OF remove(2) assms(2), of q] unfolding remove(1) removeSession_def
    by (simp only: has_owner_def runs_set_ctl runs_frame)
  have "ln \<in> set (ss_listeners ss') \<Longrightarrow> \<not> ln_open ln" if "w_objs w' p = Some ss'" for ss' ln
    using that unfolding remove(1) removeSession_def by auto
  moreover have "w_objs w' q = w_objs w q" if "q \<noteq> p" for q
    using that unfolding remove(1) removeSession_def by simp
  ultimately show ?thesis using assms(3) own unfolding ports_inv_def by metis
next
  case (unwind c p)
  then show ?thesis
    by (intro ports_inv_move [OF assms(3)]) (auto simp: runSession_unwind_def has_owner_move split: if_splits)
next
  case (cancel c p)
  then show ?thesis
    by (intro ports_inv_move [OF assms(3)]) (auto simp: runSession_cancel_def has_owner_move split: if_splits)
qed (intro ports_inv_move [OF assms(3)];
     auto simp: acceptUsers_one_def proxyUser_enter_def proxyUser_leave_def split: option.splits if_splits)+

section \<open>Who is served\<close>

text \<open>A client that has passed \<open>validateAuth\<close> asking for the services \<open>rs\<close>.\<close>

definition authenticated ::
  "(bytes \<Rightarrow> bytes \<Rightarrow> bytes \<Rightarrow> bool) \<Rightarrow> ('pk \<Rightarrow> bytes \<Rightarrow> bytes \<Rightarrow> bytes \<Rightarrow> bool) \<Rightarrow> ('pk, 'kp) Server
     \<Rightarrow> string \<Rightarrow> string list \<Rightarrow> bool" where
  "authenticated ed_verify ml_verify srv cid rs \<longleftrightarrow> (\<exists>now nonce exporter ca.
     validateAuth ed_verify ml_verify srv now nonce exporter ca = ([], True) \<and>
     ca_ClientID ca = cid \<and> ca_RequestedServices ca = rs)"

text \<open>The services a goroutine still has to open, and the session and service a user goroutine serves.\<close>

fun names_left :: "ctl_pc \<Rightarrow> string list" where
  "names_left (CtlShutdownOld calls p rs) = rs"
| "names_left (CtlListen p rs) = rs"
| "names_left pc = []"

fun serves :: "usr_pc \<Rightarrow> (ptr \<times> ServiceEntry \<times> string) option" where
  "serves (UsrEnter p svc remote) = Some (p, svc, remote)"
| "serves (UsrSlot p svc remote) = Some (p, svc, remote)"
| "serves (UsrRelay p svc remote) = Some (p, svc, remote)"
| "serves UsrClosed = None"

definition asked :: "('pk, 'kp) Server \<Rightarrow> string list \<Rightarrow> serverSession \<Rightarrow> bool" where
  "asked srv rs ss \<longleftrightarrow> (\<forall>ln \<in> set (ss_listeners ss). \<exists>name \<in> set rs.
     allowed_for srv (ss_clientID ss) name = Some (ln_svc ln))"

definition auth_inv ::
  "(string \<Rightarrow> string list \<Rightarrow> bool) \<Rightarrow> ('pk, 'kp) Server \<Rightarrow> world \<Rightarrow> bool" where
  "auth_inv A srv w \<longleftrightarrow>
     (\<forall>c cid sid rs. w_ctl w c = Some (CtlStart cid sid rs) \<longrightarrow> A cid rs) \<and>
     (\<forall>p ss. w_objs w p = Some ss \<longrightarrow> (\<exists>rs. A (ss_clientID ss) rs \<and> asked srv rs ss \<and>
        (\<forall>c pc. runs w c pc p \<longrightarrow> set (names_left pc) \<subseteq> set rs)))"

definition usr_inv :: "world \<Rightarrow> bool" where
  "usr_inv w \<longleftrightarrow> (\<forall>u pc p svc remote. w_usr w u = Some pc \<longrightarrow> serves pc = Some (p, svc, remote) \<longrightarrow>
     cidrAllowed remote (parseCIDRs (se_AllowedUserCIDRs svc)) \<and>
     (\<exists>ss. w_objs w p = Some ss \<and> svc \<in> ln_svc ` set (ss_listeners ss)))"

lemma auth_inv_move:
  assumes "auth_inv A srv w"
    and "\<And>c cid sid rs. w_ctl w' c = Some (CtlStart cid sid rs) \<Longrightarrow> w_ctl w c = Some (CtlStart cid sid rs) \<or> A cid rs"
    and "\<And>p ss'. w_objs w' p = Some ss' \<Longrightarrow> \<exists>ss. w_objs w p = Some ss \<and> ss_clientID ss' = ss_clientID ss \<and>
           ln_svc ` set (ss_listeners ss') \<subseteq> ln_svc ` set (ss_listeners ss)"
    and "\<And>c pc' p. runs w' c pc' p \<Longrightarrow> names_left pc' = [] \<or>
           (\<exists>pc. runs w c pc p \<and> set (names_left pc') \<subseteq> set (names_left pc))"
  shows "auth_inv A srv w'"
proof -
  have "\<exists>rs. A (ss_clientID ss') rs \<and> asked srv rs ss' \<and> (\<forall>c pc. runs w' c pc p \<longrightarrow> set (names_left pc) \<subseteq> set rs)"
    if ss': "w_objs w' p = Some ss'" for p ss'
  proof -
    from assms(3) [OF ss'] obtain ss where ss: "w_objs w p = Some ss" "ss_clientID ss' = ss_clientID ss"
      "ln_svc ` set (ss_listeners ss') \<subseteq> ln_svc ` set (ss_listeners ss)" by blast
    with assms(1) obtain rs where rs: "A (ss_clientID ss) rs" "asked srv rs ss"
      "\<forall>c pc. runs w c pc p \<longrightarrow> set (names_left pc) \<subseteq> set rs" unfolding auth_inv_def by blast
    have "asked srv rs ss'"
      unfolding asked_def
    proof
      fix ln assume "ln \<in> set (ss_listeners ss')"
      then obtain l where "l \<in> set (ss_listeners ss)" "ln_svc ln = ln_svc l" using ss(3) by (auto simp: image_subset_iff)
      then show "\<exists>name \<in> set rs. allowed_for srv (ss_clientID ss') name = Some (ln_svc ln)"
        using rs(2) ss(2) by (auto simp: asked_def)
    qed
    moreover have "set (names_left pc) \<subseteq> set rs" if "runs w' c pc p" for c pc
      using assms(4) [OF that] rs(3) by fastforce
    ultimately show ?thesis using rs(1) ss(2) by auto
  qed
  with assms(1,2) show ?thesis unfolding auth_inv_def by blast
qed

lemma runHandshake_authenticated:
  assumes "runHandshake ed_verify ml_verify srv rand_read sidBytes t1 t2 dl exporter conn = (Inr (cid, sid, rs), conn')"
  shows "authenticated ed_verify ml_verify srv cid rs"
proof -
  from assms obtain conn1 conn2 where
    "handshake_body ed_verify ml_verify srv rand_read sidBytes t1 t2 exporter conn1 = (Inr (cid, sid, rs), conn2)"
    by (auto simp: runHandshake_def Let_def split: option.splits prod.splits)
  then show ?thesis unfolding authenticated_def by (blast dest: handshake_body_ok)
qed

lemma obj_listeners_kept:
  assumes "w_objs (upd_obj q (shutdown_exec x) w) p = Some ss'"
  shows "\<exists>ss. w_objs w p = Some ss \<and> ss_clientID ss' = ss_clientID ss \<and>
           ln_svc ` set (ss_listeners ss') \<subseteq> ln_svc ` set (ss_listeners ss)"
  using assms by (auto split: if_splits)

lemma auth_inv_ctl:
  assumes "auth_inv A srv w" and "w_ctl w' = (w_ctl w)(c \<mapsto> pc)"
    and "\<And>p ss'. w_objs w' p = Some ss' \<Longrightarrow> \<exists>ss. w_objs w p = Some ss \<and> ss_clientID ss' = ss_clientID ss \<and>
           ln_svc ` set (ss_listeners ss') \<subseteq> ln_svc ` set (ss_listeners ss)"
    and "names_left pc = [] \<or> (\<exists>pc0. w_ctl w c = Some pc0 \<and> own pc = own pc0 \<and> set (names_left pc) \<subseteq> set (names_left pc0))"
    and "\<And>cid sid rs. pc = CtlStart cid sid rs \<Longrightarrow> A cid rs"
  shows "auth_inv A srv w'"
proof (rule auth_inv_move [OF assms(1) _ assms(3)])
  have r: "runs w' = runs (set_ctl c pc w)" by (rule same_ctl) (simp add: assms(2))
  show "w_ctl w c' = Some (CtlStart cid sid rs) \<or> A cid rs" if "w_ctl w' c' = Some (CtlStart cid sid rs)" for c' cid sid rs
    using that assms(2,5) by (auto split: if_splits)
  show "names_left pc' = [] \<or> (\<exists>pc. runs w c' pc p \<and> set (names_left pc') \<subseteq> set (names_left pc))"
    if "runs w' c' pc' p" for c' pc' p
    using that assms(4) unfolding r by (auto simp: runs_def split: if_splits)
qed

lemma auth_inv_same:
  assumes "auth_inv A srv w" and "w_ctl w' = w_ctl w"
    and "\<And>p ss'. w_objs w' p = Some ss' \<Longrightarrow> \<exists>ss. w_objs w p = Some ss \<and> ss_clientID ss' = ss_clientID ss \<and>
           ln_svc ` set (ss_listeners ss') \<subseteq> ln_svc ` set (ss_listeners ss)"
  shows "auth_inv A srv w'"
  by (rule auth_inv_move [OF assms(1) _ assms(3)]) (use assms(2) same_ctl(1) [OF assms(2)] in auto)

lemma auth_inv_start:
  assumes "auth_inv A srv w" and "w_ctl w c = Some (CtlStart cid sid rs)" and "ptr_inv w" and "w_objs w p = None"
  shows "auth_inv A srv (runSession_start c cid sid rs p w)" (is "auth_inv A srv ?w")
proof -
  have A: "A cid rs" using assms(1,2) unfolding auth_inv_def by blast
  have fresh: "\<not> runs w c' pc p" for c' pc using assms(3,4) unfolding ptr_inv_def by blast
  have "\<exists>rs'. A (ss_clientID ss) rs' \<and> asked srv rs' ss \<and> (\<forall>c' pc. runs ?w c' pc q \<longrightarrow> set (names_left pc) \<subseteq> set rs')"
    if "w_objs ?w q = Some ss" for q ss
  proof (cases "q = p")
    case True
    with that A fresh show ?thesis
      by (intro exI [of _ rs]) (auto simp: runSession_start_def replaceSession_def asked_def)
  next
    case False
    with that have "w_objs w q = Some ss" by (simp add: runSession_start_def replaceSession_def)
    with assms(1) obtain rs' where "A (ss_clientID ss) rs'" "asked srv rs' ss"
      "\<forall>c pc. runs w c pc q \<longrightarrow> set (names_left pc) \<subseteq> set rs'" unfolding auth_inv_def by blast
    with False show ?thesis by (intro exI [of _ rs']) (auto simp: runSession_start_def replaceSession_def)
  qed
  moreover have "w_ctl ?w c' = Some (CtlStart cid' sid' rs') \<Longrightarrow> A cid' rs'" for c' cid' sid' rs'
    using assms(1) unfolding auth_inv_def by (auto simp: runSession_start_def replaceSession_def split: if_splits)
  ultimately show ?thesis unfolding auth_inv_def by blast
qed

lemma auth_inv_listen:
  assumes "auth_inv A srv w" and "w_ctl w c = Some (CtlListen p (name # rest))" and "w_objs w p = Some ss"
  shows "auth_inv A srv (runSession_listen (allowed_for srv (ss_clientID ss)) listen_ok c p name rest w)"
    (is "auth_inv A srv ?w")
proof (cases "\<exists>svc. allowed_for srv (ss_clientID ss) name = Some svc \<and> listen_ok")
  case False
  then have "?w = set_ctl c (CtlListen p rest) w \<or> ?w = set_ctl c (CtlRemove p) w"
    by (auto simp: runSession_listen_def split: option.splits)
  with assms(2) show ?thesis by (auto intro!: auth_inv_ctl [OF assms(1)])
next
  case True
  then obtain svc where svc: "allowed_for srv (ss_clientID ss) name = Some svc" and l: listen_ok by blast
  have run: "runs w c (CtlListen p (name # rest)) p" using assms(2) by (simp add: runs_def)
  have "\<exists>rs'. A (ss_clientID ss') rs' \<and> asked srv rs' ss' \<and> (\<forall>c' pc. runs ?w c' pc q \<longrightarrow> set (names_left pc) \<subseteq> set rs')"
    if ss': "w_objs ?w q = Some ss'" for q ss'
  proof -
    from ss' svc l obtain ss0 where ss0: "w_objs w q = Some ss0" "ss_clientID ss' = ss_clientID ss0"
      "set (ss_listeners ss') \<subseteq> set (ss_listeners ss0) \<union> (if q = p then {\<lparr>ln_svc = svc, ln_open = True\<rparr>} else {})"
      by (auto simp: runSession_listen_def split: if_splits)
    with assms(1) obtain rs' where rs': "A (ss_clientID ss0) rs'" "asked srv rs' ss0"
      "\<forall>c pc. runs w c pc q \<longrightarrow> set (names_left pc) \<subseteq> set rs'" unfolding auth_inv_def by blast
    have "name \<in> set rs'" if "q = p" using rs'(3) run that by fastforce
    then have "asked srv rs' ss'" using rs'(2) ss0 svc assms(3) unfolding asked_def
      by (fastforce split: if_splits)
    moreover have "runs ?w c' pc q \<Longrightarrow> set (names_left pc) \<subseteq> set rs'" for c' pc
      using rs'(3) run svc l by (fastforce simp: runSession_listen_def)
    ultimately show ?thesis using rs'(1) ss0(2) by auto
  qed
  moreover have "w_ctl ?w c' = Some (CtlStart cid' sid' rs') \<Longrightarrow> A cid' rs'" for c' cid' sid' rs'
    using assms(1) svc l unfolding auth_inv_def by (auto simp: runSession_listen_def split: if_splits)
  ultimately show ?thesis unfolding auth_inv_def by blast
qed

lemma auth_inv_step:
  assumes "step ed_verify ml_verify srv w w'" and "ptr_inv w"
    and "auth_inv (authenticated ed_verify ml_verify srv) srv w"
  shows "auth_inv (authenticated ed_verify ml_verify srv) srv w'"
  using assms(1)
proof cases
  case (accept c)
  then show ?thesis
    by (cases "chan_try_send (srv_handshakeSem srv) (w_handshakeSem w)")
      (auto simp: Run_accept_def intro!: auth_inv_ctl [OF assms(3)])
next
  case (handshake_failed c)
  then show ?thesis by (auto simp: handleControl_release_def intro!: auth_inv_ctl [OF assms(3)])
next
  case (handshake_ok c)
  from runHandshake_authenticated [OF handshake_ok(2)] handshake_ok(3) show ?thesis
    by (auto simp: handleControl_release_def intro!: auth_inv_ctl [OF assms(3)])
next
  case (start c cid sid rs p)
  with auth_inv_start assms(2,3) show ?thesis by blast
next
  case (shutdown_old c calls p rs)
  then show ?thesis
    by (cases "(c, calls, p, rs, w)" rule: runSession_shutdown_old.cases)
      (auto intro!: auth_inv_ctl [OF assms(3)] split: if_splits)
next
  case (listen c p name rest ss listen_ok)
  with auth_inv_listen [OF assms(3)] show ?thesis by blast
next
  case (listening c p)
  then show ?thesis by (auto intro!: auth_inv_ctl [OF assms(3)])
next
  case (wait_over c p ss)
  then show ?thesis by (auto intro!: auth_inv_ctl [OF assms(3)])
next
  case (remove c p ss)
  then show ?thesis by (auto simp: removeSession_def intro!: auth_inv_ctl [OF assms(3)] split: if_splits)
next
  case (unwind c p)
  then show ?thesis by (auto simp: runSession_unwind_def intro!: auth_inv_ctl [OF assms(3)] split: if_splits)
next
  case (cancel c p)
  then show ?thesis by (auto simp: runSession_cancel_def intro!: auth_inv_ctl [OF assms(3)] split: if_splits)
next
  case (ctx_done p ss i)
  show ?thesis unfolding ctx_done(1)
    by (rule auth_inv_same [OF assms(3) _ obj_listeners_kept]) (simp, assumption)
qed (auto simp: acceptUsers_one_def proxyUser_enter_def proxyUser_leave_def split: option.splits if_splits
       intro!: auth_inv_same [OF assms(3)])

lemma usr_inv_move:
  assumes "usr_inv w"
    and "\<And>p ss. w_objs w p = Some ss \<Longrightarrow> \<exists>ss'. w_objs w' p = Some ss' \<and>
           ln_svc ` set (ss_listeners ss) \<subseteq> ln_svc ` set (ss_listeners ss')"
    and "\<And>u pc p svc remote. w_usr w' u = Some pc \<Longrightarrow> serves pc = Some (p, svc, remote) \<Longrightarrow>
           (\<exists>u pc0. w_usr w u = Some pc0 \<and> serves pc0 = Some (p, svc, remote)) \<or>
           cidrAllowed remote (parseCIDRs (se_AllowedUserCIDRs svc)) \<and>
           (\<exists>ss. w_objs w p = Some ss \<and> svc \<in> ln_svc ` set (ss_listeners ss))"
  shows "usr_inv w'"
  unfolding usr_inv_def
proof (intro allI impI)
  fix u pc p svc remote
  assume "w_usr w' u = Some pc" "serves pc = Some (p, svc, remote)"
  with assms(1,3) have "cidrAllowed remote (parseCIDRs (se_AllowedUserCIDRs svc))"
    "\<exists>ss. w_objs w p = Some ss \<and> svc \<in> ln_svc ` set (ss_listeners ss)"
    unfolding usr_inv_def by metis+
  with assms(2) show "cidrAllowed remote (parseCIDRs (se_AllowedUserCIDRs svc)) \<and>
      (\<exists>ss. w_objs w' p = Some ss \<and> svc \<in> ln_svc ` set (ss_listeners ss))" by blast
qed

lemma usr_inv_step:
  assumes "step ed_verify ml_verify srv w w'" and "usr_inv w"
  shows "usr_inv w'"
  using assms(1)
proof cases
  case (start c cid sid rs p)
  then show ?thesis
    by (intro usr_inv_move [OF assms(2)]) (auto simp: runSession_start_def replaceSession_def)
next
  case (shutdown_old c calls p rs)
  then show ?thesis
    by (cases "(c, calls, p, rs, w)" rule: runSession_shutdown_old.cases)
      (auto intro!: usr_inv_move [OF assms(2)])
next
  case (user_accept u p ss ln remote)
  then show ?thesis
    by (intro usr_inv_move [OF assms(2)]) (auto simp: acceptUsers_one_def split: if_splits)
next
  case (user_enter u p svc remote ss)
  then have "cidrAllowed remote (parseCIDRs (se_AllowedUserCIDRs svc)) \<and>
      (\<exists>ss. w_objs w p = Some ss \<and> svc \<in> ln_svc ` set (ss_listeners ss))"
    using assms(2) unfolding usr_inv_def by fastforce
  with user_enter show ?thesis
    by (intro usr_inv_move [OF assms(2)]) (auto simp: proxyUser_enter_def split: if_splits option.splits)
next
  case (user_opened u p svc remote)
  then have "cidrAllowed remote (parseCIDRs (se_AllowedUserCIDRs svc)) \<and>
      (\<exists>ss. w_objs w p = Some ss \<and> svc \<in> ln_svc ` set (ss_listeners ss))"
    using assms(2) unfolding usr_inv_def by fastforce
  with user_opened show ?thesis
    by (intro usr_inv_move [OF assms(2)]) (auto split: if_splits)
next
  case (user_left u p svc remote ss)
  then show ?thesis
    by (intro usr_inv_move [OF assms(2)]) (auto simp: proxyUser_leave_def split: if_splits)
next
  case (listen c p name rest ss listen_ok)
  then show ?thesis
    by (intro usr_inv_move [OF assms(2)]; cases listen_ok) (auto simp: runSession_listen_def split: option.splits)
qed (intro usr_inv_move [OF assms(2)];
     auto simp: Run_accept_def handleControl_release_def removeSession_def runSession_unwind_def runSession_cancel_def
       split: option.splits)+

section \<open>Every reachable state\<close>

definition session_inv ::
  "(bytes \<Rightarrow> bytes \<Rightarrow> bytes \<Rightarrow> bool) \<Rightarrow> ('pk \<Rightarrow> bytes \<Rightarrow> bytes \<Rightarrow> bytes \<Rightarrow> bool) \<Rightarrow> ('pk, 'kp) Server
     \<Rightarrow> world \<Rightarrow> bool" where
  "session_inv ed_verify ml_verify srv w \<longleftrightarrow> ptr_inv w \<and> table_inv w \<and> replaced_inv w \<and> ports_inv w \<and>
     usr_inv w \<and> auth_inv (authenticated ed_verify ml_verify srv) srv w"

lemma session_inv_init: "session_inv ed_verify ml_verify srv initial_world"
  by (simp add: session_inv_def initial_world_def ptr_inv_def table_inv_def replaced_inv_def ports_inv_def usr_inv_def
      auth_inv_def runs_def)

lemma session_inv_step:
  "session_inv ed_verify ml_verify srv w \<Longrightarrow> step ed_verify ml_verify srv w w' \<Longrightarrow> session_inv ed_verify ml_verify srv w'"
  unfolding session_inv_def
  using ptr_inv_step table_inv_step replaced_inv_step ports_inv_step usr_inv_step auth_inv_step by metis

lemma reachable_inv:
  assumes "reachable ed_verify ml_verify srv w"
  shows "session_inv ed_verify ml_verify srv w"
  using assms by (induction rule: reachable.induct) (auto intro: session_inv_init session_inv_step)

subsection \<open>Sessions that are over\<close>

text \<open>
  A session object is run by a goroutine, which has closed its multiplexer by the time only the
  cancellation is left, or is over: cancelled, with its multiplexer closed.
\<close>

definition ended_inv :: "world \<Rightarrow> bool" where
  "ended_inv w \<longleftrightarrow> (\<forall>p ss. w_objs w p = Some ss \<longrightarrow>
     (\<exists>c pc. runs w c pc p \<and> (pc = CtlCancel p \<longrightarrow> ss_yamClosed ss)) \<or> ss_cancelled ss \<and> ss_yamClosed ss)"

definition flags_kept :: "serverSession \<Rightarrow> serverSession \<Rightarrow> bool" where
  "flags_kept ss ss' \<longleftrightarrow> (ss_cancelled ss \<longrightarrow> ss_cancelled ss') \<and> (ss_yamClosed ss \<longrightarrow> ss_yamClosed ss')"

lemma ended_inv_same:
  assumes "ended_inv w" and "w_ctl w' = w_ctl w"
    and "\<And>p ss'. w_objs w' p = Some ss' \<Longrightarrow> \<exists>ss. w_objs w p = Some ss \<and> flags_kept ss ss'"
  shows "ended_inv w'"
  using assms(1,3) unfolding ended_inv_def flags_kept_def same_ctl(1) [OF assms(2)] by meson

lemma ended_inv_ctl:
  assumes "ended_inv w" and "w_ctl w' = (w_ctl w)(c \<mapsto> pc')"
    and "\<And>p ss'. w_objs w' p = Some ss' \<Longrightarrow> own pc' = Some p \<or> (\<exists>ss. w_objs w p = Some ss \<and> flags_kept ss ss')"
    and "\<And>pc p ss'. w_ctl w c = Some pc \<Longrightarrow> own pc = Some p \<Longrightarrow> w_objs w' p = Some ss' \<Longrightarrow>
      own pc' = Some p \<or> ss_cancelled ss' \<and> ss_yamClosed ss'"
    and "\<And>p ss'. pc' = CtlCancel p \<Longrightarrow> w_objs w' p = Some ss' \<Longrightarrow> ss_yamClosed ss'"
  shows "ended_inv w'"
  unfolding ended_inv_def
proof (intro allI impI)
  fix p ss'
  assume ob: "w_objs w' p = Some ss'"
  have r: "runs w' c' pc p \<longleftrightarrow> c' = c \<and> pc = pc' \<and> own pc' = Some p \<or> c' \<noteq> c \<and> runs w c' pc p" for c' pc
    using assms(2) by (auto simp: runs_def)
  show "(\<exists>c pc. runs w' c pc p \<and> (pc = CtlCancel p \<longrightarrow> ss_yamClosed ss')) \<or> ss_cancelled ss' \<and> ss_yamClosed ss'"
  proof (cases "own pc' = Some p")
    case True
    then show ?thesis using r assms(5) [OF _ ob] by blast
  next
    case False
    with assms(3) [OF ob] obtain ss where ss: "w_objs w p = Some ss" "flags_kept ss ss'" by blast
    with assms(1) consider c0 pc where "runs w c0 pc p" "pc = CtlCancel p \<longrightarrow> ss_yamClosed ss"
      | "ss_cancelled ss \<and> ss_yamClosed ss" unfolding ended_inv_def by blast
    then show ?thesis
    proof cases
      case 1
      show ?thesis
      proof (cases "c0 = c")
        case True
        with 1 assms(4) [of pc p ss'] ob False show ?thesis by (auto simp: runs_def)
      next
        case False
        with 1 ss r show ?thesis unfolding flags_kept_def by blast
      qed
    next
      case 2
      then show ?thesis using ss(2) by (simp add: flags_kept_def)
    qed
  qed
qed

lemma flags_kept_simps [simp]:
  "flags_kept ss ss" "flags_kept ss (shutdown_exec x ss)" "flags_kept ss (ss\<lparr>ss_listeners := l\<rparr>)"
  "flags_kept ss (ss\<lparr>ss_streamSem := n\<rparr>)" "flags_kept ss (ss\<lparr>ss_cancelled := True\<rparr>)"
  "flags_kept ss (ss\<lparr>ss_yamClosed := True\<rparr>)"
  unfolding flags_kept_def by simp_all

lemma ended_inv_step:
  assumes "step ed_verify ml_verify srv w w'" and "ended_inv w" and "ptr_inv w"
  shows "ended_inv w'"
  using assms(1)
proof cases
  case (accept c)
  then show ?thesis
    by (cases "chan_try_send (srv_handshakeSem srv) (w_handshakeSem w)")
       (auto simp: Run_accept_def intro!: ended_inv_ctl [OF assms(2), where c = c])
next
  case (handshake_failed c)
  then show ?thesis by (auto simp: handleControl_release_def intro!: ended_inv_ctl [OF assms(2), where c = c])
next
  case (handshake_ok c)
  then show ?thesis by (auto simp: handleControl_release_def intro!: ended_inv_ctl [OF assms(2), where c = c])
next
  case (start c cid sid rs p)
  then show ?thesis
    by (auto simp: runSession_start_def replaceSession_def intro!: ended_inv_ctl [OF assms(2), where c = c] split: if_splits)
next
  case (shutdown_old c calls p rs)
  then show ?thesis
    by (cases "(c, calls, p, rs, w)" rule: runSession_shutdown_old.cases)
       (auto intro!: ended_inv_ctl [OF assms(2), where c = c] split: if_splits)
next
  case (listen c p name rest ss listen_ok)
  then show ?thesis
    by (cases listen_ok)
       (auto simp: runSession_listen_def intro!: ended_inv_ctl [OF assms(2), where c = c] split: option.splits if_splits)
next
  case (listening c p)
  then show ?thesis by (auto intro!: ended_inv_ctl [OF assms(2), where c = c])
next
  case (wait_over c p ss)
  then show ?thesis by (auto intro!: ended_inv_ctl [OF assms(2), where c = c])
next
  case (remove c p ss)
  then show ?thesis by (auto simp: removeSession_def intro!: ended_inv_ctl [OF assms(2), where c = c] split: if_splits)
next
  case (unwind c p)
  then show ?thesis by (auto simp: runSession_unwind_def intro!: ended_inv_ctl [OF assms(2), where c = c] split: if_splits)
next
  case (cancel c p)
  then have c: "runs w c (CtlCancel p) p" by (simp add: runs_def)
  have "ss_yamClosed ss" if "w_objs w p = Some ss" for ss
    using that c assms(2,3) unfolding ended_inv_def ptr_inv_def runs_def by (metis option.inject)
  with cancel show ?thesis
    by (auto simp: runSession_cancel_def intro!: ended_inv_ctl [OF assms(2), where c = c] split: if_splits)
next
  case (yam_closed p ss)
  then show ?thesis by (intro ended_inv_same [OF assms(2)]) (auto split: if_splits)
next
  case (stopped p ss)
  then show ?thesis by (intro ended_inv_same [OF assms(2)]) (auto split: if_splits)
next
  case (ctx_done p ss i)
  then show ?thesis by (intro ended_inv_same [OF assms(2)]) (auto split: if_splits)
qed (intro ended_inv_same [OF assms(2)];
     auto simp: acceptUsers_one_def proxyUser_enter_def proxyUser_leave_def split: option.splits if_splits)+


lemma reachable_ended:
  assumes "reachable ed_verify ml_verify srv w"
  shows "ended_inv w"
  using assms
proof (induction rule: reachable.induct)
  case init
  show ?case by (simp add: ended_inv_def initial_world_def)
next
  case (steps w w')
  then show ?case using ended_inv_step reachable_inv [OF steps.hyps(1)] by (auto simp: session_inv_def)
qed

end
