(* ===== verification/SessionProgress.thy ===== *)
theory SessionProgress
  imports SessionInvariants
begin

text \<open>
  Two views of the session machine as a whole: its table refines a map from clients to their current
  session, and every control goroutine ends after a bounded number of its own actions, none of which
  can block but the wait for the multiplexer to close.
\<close>

section \<open>Refinement of the session table\<close>

text \<open>
  The table as its users see it: which session each client has.  A login replaces the client's
  session, a logout removes the session that ends and no other; everything else leaves it alone.
\<close>

definition current :: "world \<Rightarrow> (string \<rightharpoonup> string)" where
  "current w cid = (case w_sessions w cid of None \<Rightarrow> None | Some p \<Rightarrow> map_option ss_id (w_objs w p))"

datatype table_event = Login string string | Logout string | Stutter

fun table_spec :: "table_event \<Rightarrow> (string \<rightharpoonup> string) \<Rightarrow> (string \<rightharpoonup> string)" where
  "table_spec (Login cid sid) t = t(cid \<mapsto> sid)"
| "table_spec (Logout cid) t = t(cid := None)"
| "table_spec Stutter t = t"

text \<open>The event a goroutine's next action performs.\<close>

fun event_of :: "world \<Rightarrow> ctl_pc \<Rightarrow> table_event" where
  "event_of w (CtlStart cid sid rs) = Login cid sid"
| "event_of w (CtlRemove p) = (case w_objs w p of
     Some ss \<Rightarrow> if w_sessions w (ss_clientID ss) = Some p then Logout (ss_clientID ss) else Stutter
   | None \<Rightarrow> Stutter)"
| "event_of w pc = Stutter"

lemma current_frame:
  assumes "w_sessions w' = w_sessions w" and "\<And>p. map_option ss_id (w_objs w' p) = map_option ss_id (w_objs w p)"
  shows "current w' = current w"
  using assms by (auto simp: current_def fun_eq_iff split: option.split)

lemma step_refines:
  assumes "step ed_verify ml_verify srv w w'" and "table_inv w"
  shows "\<exists>e. current w' = table_spec e (current w) \<and>
    (e \<noteq> Stutter \<longrightarrow> (\<exists>c pc. w_ctl w c = Some pc \<and> e = event_of w pc \<and> w_ctl w' c \<noteq> Some pc))"
proof -
  have stut: "?thesis" if "current w' = current w" using that by (intro exI [of _ Stutter]) simp
  from assms(1) show ?thesis
  proof cases
    case (start c cid sid rs p)
    then have "w_sessions w k \<noteq> Some p" for k using assms(2) unfolding table_inv_def by fastforce
    with start have "current w' = (current w)(cid \<mapsto> sid)"
      by (auto simp: current_def runSession_start_def replaceSession_def fun_eq_iff split: option.splits)
    with start show ?thesis
      by (intro exI [of _ "Login cid sid"]) (auto simp: runSession_start_def replaceSession_def intro!: exI [of _ c])
  next
    case (remove c p ss)
    show ?thesis
    proof (cases "w_sessions w (ss_clientID ss) = Some p")
      case True
      with remove have "current w' = (current w)(ss_clientID ss := None)"
        by (auto simp: current_def removeSession_def remove_entry_def fun_eq_iff split: option.splits)
      with remove True show ?thesis
        by (intro exI [of _ "Logout (ss_clientID ss)"]) (auto simp: removeSession_def intro!: exI [of _ c])
    next
      case False
      with remove show ?thesis
        by (intro stut current_frame) (auto simp: removeSession_def remove_entry_def)
    qed
  next
    case (shutdown_old c calls p rs)
    then show ?thesis
      by (intro stut current_frame; cases "(c, calls, p, rs, w)" rule: runSession_shutdown_old.cases)
        (auto simp: option.map_comp o_def)
  next
    case (listen c p name rest ss listen_ok)
    then show ?thesis
      by (intro stut current_frame; cases listen_ok) (auto simp: runSession_listen_def split: option.splits)
  qed (intro stut current_frame; auto simp: Run_accept_def handleControl_release_def runSession_unwind_def
        runSession_cancel_def acceptUsers_one_def proxyUser_enter_def proxyUser_leave_def option.map_comp o_def split: option.splits)+
qed

section \<open>Progress\<close>

text \<open>An upper bound on the actions a control goroutine still takes once its handshake is over.\<close>

fun actions_left :: "ctl_pc \<Rightarrow> nat" where
  "actions_left CtlHandshake = 0"
| "actions_left (CtlStart cid sid rs) = length rs + 10"
| "actions_left (CtlShutdownOld calls p rs) = length calls + length rs + 6"
| "actions_left (CtlListen p rs) = length rs + 5"
| "actions_left (CtlWait p) = 4"
| "actions_left (CtlRemove p) = 3"
| "actions_left (CtlUnwind p) = 2"
| "actions_left (CtlCancel p) = 1"
| "actions_left CtlClosed = 0"

lemma actions_left_decrease:
  assumes "step ed_verify ml_verify srv w w'" and "w_ctl w c = Some pc" and "pc \<noteq> CtlHandshake"
  shows "\<exists>pc'. w_ctl w' c = Some pc' \<and> (pc' = pc \<or> actions_left pc' < actions_left pc)"
  using assms(1)
proof cases
  case (shutdown_old c' calls p rs)
  with assms(2) show ?thesis
    by (cases "(c', calls, p, rs, w)" rule: runSession_shutdown_old.cases) auto
next
  case (start c' cid sid rs p)
  with assms(2) show ?thesis
    by (auto simp: runSession_start_def replaceSession_def shutdown_def split: option.splits)
next
  case (listen c' p name rest ss listen_ok)
  with assms(2) show ?thesis
    by (cases listen_ok) (auto simp: runSession_listen_def split: option.splits)
qed (use assms(2,3) in \<open>auto simp: Run_accept_def handleControl_release_def removeSession_def runSession_unwind_def
        runSession_cancel_def acceptUsers_one_def proxyUser_enter_def proxyUser_leave_def split: option.splits\<close>)

lemma never_stuck:
  assumes "ptr_inv w" and "w_ctl w c = Some pc" and "pc \<noteq> CtlHandshake" and "pc \<noteq> CtlClosed" and "\<exists>p. w_objs w p = None"
    and "\<And>p ss. pc = CtlWait p \<Longrightarrow> w_objs w p = Some ss \<Longrightarrow> ss_yamClosed ss"
  shows "\<exists>w' pc'. step ed_verify ml_verify srv w w' \<and> w_ctl w' c = Some pc' \<and> actions_left pc' < actions_left pc"
proof -
  have ob: "\<exists>ss. w_objs w p = Some ss" if "own pc = Some p" for p
    using assms(1,2) that unfolding ptr_inv_def runs_def by blast
  show ?thesis
  proof (cases pc)
    case (CtlStart cid sid rs)
    from assms(5) obtain p where p: "w_objs w p = None" by blast
    have "step ed_verify ml_verify srv w (runSession_start c cid sid rs p w)"
      using step.start [OF _ p] assms(2) CtlStart by blast
    then show ?thesis using CtlStart
      by (intro exI [of _ "runSession_start c cid sid rs p w"])
        (auto simp: runSession_start_def replaceSession_def shutdown_def split: option.splits)
  next
    case (CtlShutdownOld calls p rs)
    then have "step ed_verify ml_verify srv w (runSession_shutdown_old c calls p rs w)"
      using step.shutdown_old assms(2) by blast
    then show ?thesis using CtlShutdownOld
      by (cases "(c, calls, p, rs, w)" rule: runSession_shutdown_old.cases) fastforce+
  next
    case (CtlListen p rs)
    then obtain ss where ss: "w_objs w p = Some ss" using ob by auto
    show ?thesis
    proof (cases rs)
      case Nil
      with CtlListen assms(2) have "step ed_verify ml_verify srv w (set_ctl c (CtlWait p) w)" by (simp add: step.listening)
      with CtlListen show ?thesis by fastforce
    next
      case (Cons name rest)
      with CtlListen assms(2) ss
      have "step ed_verify ml_verify srv w (runSession_listen (allowed_for srv (ss_clientID ss)) False c p name rest w)"
        by (intro step.listen) auto
      with CtlListen Cons show ?thesis
        by (intro exI [of _ "runSession_listen (allowed_for srv (ss_clientID ss)) False c p name rest w"])
          (auto simp: runSession_listen_def split: option.splits)
    qed
  next
    case (CtlWait p)
    then obtain ss where "w_objs w p = Some ss" using ob by auto
    with CtlWait assms(2,6) have "step ed_verify ml_verify srv w (set_ctl c (CtlRemove p) w)"
      by (auto intro: step.wait_over)
    with CtlWait show ?thesis by fastforce
  next
    case (CtlRemove p)
    then obtain ss where "w_objs w p = Some ss" using ob by auto
    with CtlRemove assms(2) have "step ed_verify ml_verify srv w (removeSession c (ss_clientID ss) p w)"
      by (auto intro: step.remove)
    with CtlRemove show ?thesis
      by (intro exI [of _ "removeSession c (ss_clientID ss) p w"]) (auto simp: removeSession_def)
  next
    case (CtlUnwind p)
    with assms(2) have "step ed_verify ml_verify srv w (runSession_unwind c p w)" by (auto intro: step.unwind)
    with CtlUnwind show ?thesis by (intro exI [of _ "runSession_unwind c p w"]) (auto simp: runSession_unwind_def)
  next
    case (CtlCancel p)
    with assms(2) have "step ed_verify ml_verify srv w (runSession_cancel c p w)" by (auto intro: step.cancel)
    with CtlCancel show ?thesis by (intro exI [of _ "runSession_cancel c p w"]) (auto simp: runSession_cancel_def)
  qed (use assms(3,4) in auto)
qed

lemma finite_objs_step:
  assumes "step ed_verify ml_verify srv w w'" and "finite (dom (w_objs w))"
  shows "finite (dom (w_objs w'))"
proof -
  have upd: "dom (w_objs (upd_obj p f v)) = dom (w_objs v)" for p f v by (auto simp: dom_def)
  from assms(1) show ?thesis
  proof cases
    case (shutdown_old c calls p rs)
    with assms(2) show ?thesis
      by (cases "(c, calls, p, rs, w)" rule: runSession_shutdown_old.cases) (simp_all add: upd del: upd_obj_simps)
  next
    case (listen c p name rest ss listen_ok)
    with assms(2) show ?thesis
      by (cases listen_ok) (simp_all add: runSession_listen_def upd del: upd_obj_simps split: option.splits)
  qed (use assms(2) in \<open>auto simp add: Run_accept_def handleControl_release_def removeSession_def runSession_unwind_def
        runSession_start_def replaceSession_def runSession_cancel_def acceptUsers_one_def proxyUser_enter_def
        proxyUser_leave_def upd del: upd_obj_simps split: option.splits\<close>)
qed

lemma fresh_ptr:
  assumes "reachable ed_verify ml_verify srv w"
  shows "\<exists>p. w_objs w p = None"
proof -
  have "finite (dom (w_objs w))"
    using assms by (induction rule: reachable.induct) (auto simp: initial_world_def intro: finite_objs_step)
  then show ?thesis using infinite_UNIV_nat by (metis UNIV_I domIff finite_subset subsetI)
qed

end
