(* ===== verification/Scenario.thy ===== *)
theory Scenario
  imports Handshake SessionProgress
begin

text \<open>
  One concrete deployment: a server with the client \<open>alice\<close>, who offers one service, her handshake, and a
  run of the session machine in which she logs in, a user connects, and she logs in again.  The
  signature schemes are the padded copies of theory \<open>ServerAuth\<close>.
\<close>

section \<open>The client\<close>

text \<open>A client for the witnesses: it signs with the example schemes and offers one service.\<close>

definition ex_ed_sign :: "bytes \<Rightarrow> bytes \<Rightarrow> bytes" where
  "ex_ed_sign k m = ex_sign 64 m"

definition ex_ml_sign :: "bytes \<Rightarrow> bytes \<Rightarrow> bytes \<Rightarrow> bool \<Rightarrow> string + bytes" where
  "ex_ml_sign k m ctx r = Inr (ex_sign 3309 (ctx @ m))"

definition alice_client :: "(bytes, unit) Client" where
  "alice_client =
     \<lparr>cl_cfg = alice_config\<lparr>cc_Services := [(''ssh'', ''h:22'')]\<rparr>,
      cl_tlsCfg = projr (clientTLSConfig (\<lambda>_. []) (FormatFingerprint (replicate 32 7))),
      cl_priv = [], cl_pqPriv = []\<rparr>"

lemma alice_honest: "honest ex_ed_verify ex_ed_sign ex_ml_verify ex_ml_sign Some alice_client ex_entry"
proof -
  have "utf8_valid ''alice''" "utf8_valid ''ssh''" by code_simp+
  then show ?thesis
    by (simp add: honest_def alice_client_def alice_config_def ex_entry_def ServiceNames_def ex_keys
        ex_ed_verify_def ex_ed_sign_def ex_ml_verify_def ex_ml_sign_def)
qed

definition conn_with :: "bytes \<Rightarrow> net_conn" where
  "conn_with bs = ex_conn\<lparr>nc_in := \<lparr>rd_data = bs, rd_end = EOF\<rparr>\<rparr>"

lemma conn_with_fresh: "fresh_conn (conn_with bs) bs"
  by (simp add: fresh_conn_def conn_with_def ex_conn_def)

lemma alice_in_time: "CheckClockSkew (Unix 5) (unix_seconds (Unix 0)) = None"
  unfolding CheckClockSkew_iff unix_seconds_Unix by (simp add: time_ns_def Unix_def unixToInternal_def)

lemma alice_facts:
  "id_ID (cc_Identity (cl_cfg alice_client)) = ''alice''" "ServiceNames (cl_cfg alice_client) = [''ssh'']"
  by (simp_all add: alice_client_def alice_config_def ServiceNames_def)

lemma ex_server_valid: "Validate ex_server_config = None"
  using ex_server_config_ok by (simp add: Validate_None_iff)

lemma ex_entry_listed: "ex_entry \<in> set (sc_Clients ex_server_config)"
  by (simp add: ex_server_config_def)

section \<open>A run of the session machine\<close>

abbreviation alice_sid :: string where "alice_sid \<equiv> newSessionID (replicate 12 8)"

definition alice_ssh :: ServiceEntry where
  "alice_ssh = \<lparr>se_Name = ''ssh'', se_Listen = ''h:22'', se_AllowedUserCIDRs = []\<rparr>"

lemma alice_handshake:
  assumes srv: "NewServer (\<lambda>_ _. Inr ()) Some ex_server_config = Inr srv"
  shows "\<exists>conn conn'. runHandshake ex_ed_verify ex_ml_verify srv (\<lambda>_. Inr (replicate 32 5)) (replicate 12 8)
    (Unix 0) (Unix 5) (Some (Unix 10)) [1] conn = (Inr (''alice'', alice_sid, [''ssh'']), conn')"
proof -
  have d: "distinct (map ce_ID (sc_Clients ex_server_config))"
    using ex_server_config_ok by (simp add: server_config_ok_def)
  have n: "names_size (id_ID (cc_Identity (cl_cfg alice_client))) (ServiceNames (cl_cfg alice_client)) \<le> 37000"
    unfolding alice_facts by (simp add: names_size_def)
  have l: "length (replicate 32 5 :: bytes) = 32" "length (replicate 12 8 :: bytes) = 12" by simp_all
  from honest_handshake [where rand_read = "\<lambda>_. Inr (replicate 32 5)" and exporter = "[1]" and ?now1.0 = "Unix 0",
      OF srv d ex_entry_listed alice_honest n alice_in_time refl l]
  obtain c2s c' where
    "handshake_body ex_ed_verify ex_ml_verify srv (\<lambda>_. Inr (replicate 32 5)) (replicate 12 8) (Unix 0) (Unix 5) [1]
      (SetDeadline (conn_with c2s) (Some (Unix 10))) = (Inr (''alice'', alice_sid, [''ssh'']), c')"
    unfolding alice_facts using conn_with_fresh by (metis fresh_conn_SetDeadline)
  then have "runHandshake ex_ed_verify ex_ml_verify srv (\<lambda>_. Inr (replicate 32 5)) (replicate 12 8)
    (Unix 0) (Unix 5) (Some (Unix 10)) [1] (conn_with c2s) = (Inr (''alice'', alice_sid, [''ssh'']), SetDeadline c' None)"
    by (simp add: runHandshake_def)
  then show ?thesis by blast
qed

lemma alice_server:
  assumes "NewServer (\<lambda>_ _. Inr ()) Some ex_server_config = Inr srv"
  shows "allowed_for srv ''alice'' ''ssh'' = Some alice_ssh" "srv_handshakeSem srv = 64" "max_streams srv = 2"
proof -
  have d: "distinct (map ce_ID (sc_Clients ex_server_config))"
    using ex_server_config_ok by (simp add: server_config_ok_def)
  have "srv_allowed srv ''alice'' = Some (service_map (ce_Services ex_entry))"
    using NewServer_tables(1) [OF assms d] ex_entry_listed unfolding tables_for_def by (force simp: ex_entry_def)
  then show "allowed_for srv ''alice'' ''ssh'' = Some alice_ssh"
    by (simp add: allowed_for_def ex_entry_def service_map_def alice_ssh_def)
  show "srv_handshakeSem srv = 64" "max_streams srv = 2"
    using NewServer_tables [OF assms d] by (simp_all add: maxPendingHandshakes_def max_streams_def ex_server_config_def)
qed

lemma reach_by:
  "reachable ed_verify ml_verify srv w \<Longrightarrow> step ed_verify ml_verify srv w v \<Longrightarrow> v = w' \<Longrightarrow> reachable ed_verify ml_verify srv w'"
  using reachable.steps by blast

lemma alice_logs_in:
  assumes srv: "NewServer (\<lambda>_ _. Inr ()) Some ex_server_config = Inr srv"
    and w: "reachable ex_ed_verify ex_ml_verify srv w" and "w_ctl w c = None" and "w_handshakeSem w = 0"
    and "w_objs w p = None"
  shows "reachable ex_ed_verify ex_ml_verify srv
    (runSession_start c ''alice'' alice_sid [''ssh''] p (set_ctl c (CtlStart ''alice'' alice_sid [''ssh'']) w))"
proof -
  let ?w1 = "Run_accept 64 c w"
  let ?w2 = "set_ctl c (CtlStart ''alice'' alice_sid [''ssh'']) w"
  have w1: "?w1 = set_ctl c CtlHandshake (w\<lparr>w_handshakeSem := 1\<rparr>)"
    using assms(4) by (simp add: Run_accept_def chan_try_send_def)
  have r1: "reachable ex_ed_verify ex_ml_verify srv ?w1"
    by (rule reachable.steps [OF w]) (use assms(3) alice_server [OF srv] in \<open>metis step.accept\<close>)
  have w2: "handleControl_release c (CtlStart ''alice'' alice_sid [''ssh'']) ?w1 = Some ?w2"
    unfolding w1 using assms(4) by (cases w) (simp add: handleControl_release_def chan_recv_def set_ctl_def)
  from alice_handshake [OF srv] obtain conn conn' where
    "runHandshake ex_ed_verify ex_ml_verify srv (\<lambda>_. Inr (replicate 32 5)) (replicate 12 8)
    (Unix 0) (Unix 5) (Some (Unix 10)) [1] conn = (Inr (''alice'', alice_sid, [''ssh'']), conn')" by blast
  from reachable.steps [OF r1 step.handshake_ok [OF _ this w2]] have "reachable ex_ed_verify ex_ml_verify srv ?w2"
    by (simp add: w1)
  then show ?thesis by (rule reachable.steps, intro step.start) (use assms(5) in simp_all)
qed

definition alice_session :: "nat \<Rightarrow> serverSession" where
  "alice_session streams = \<lparr>ss_id = alice_sid, ss_clientID = ''alice'', ss_yamClosed = False, ss_cancelled = False,
     ss_listeners = [\<lparr>ln_svc = alice_ssh, ln_open = True\<rparr>], ss_streamSem = streams\<rparr>"

text \<open>Alice is connected and a user is being served; then she logs in a second time.\<close>

definition alice_world :: world where
  "alice_world = \<lparr>w_handshakeSem = 0, w_sessions = [''alice'' \<mapsto> 0], w_objs = [0 \<mapsto> alice_session 1],
     w_ctl = [0 \<mapsto> CtlWait 0], w_usr = [0 \<mapsto> UsrSlot 0 alice_ssh ''192.0.2.1:5000'']\<rparr>"

definition alice_again :: world where
  "alice_again = runSession_start 1 ''alice'' alice_sid [''ssh''] 1
     (set_ctl 1 (CtlStart ''alice'' alice_sid [''ssh'']) alice_world)"

lemma alice_world_reachable:
  assumes srv: "NewServer (\<lambda>_ _. Inr ()) Some ex_server_config = Inr srv"
  shows "reachable ex_ed_verify ex_ml_verify srv alice_world"
proof -
  let ?r = "reachable ex_ed_verify ex_ml_verify srv"
  let ?w = "\<lparr>w_handshakeSem = 0, w_sessions = [''alice'' \<mapsto> 0],
      w_objs = [0 \<mapsto> (alice_session 0)\<lparr>ss_listeners := []\<rparr>], w_ctl = [0 \<mapsto> CtlListen 0 [''ssh'']], w_usr = Map.empty\<rparr>"
  note facts = alice_server [OF srv]
  have "?r initial_world" by (rule reachable.init)
  from alice_logs_in [OF srv this, of 0 0] have "?r \<lparr>w_handshakeSem = 0, w_sessions = [''alice'' \<mapsto> 0],
      w_objs = [0 \<mapsto> (alice_session 0)\<lparr>ss_listeners := []\<rparr>], w_ctl = [0 \<mapsto> CtlShutdownOld [] 0 [''ssh'']], w_usr = Map.empty\<rparr>"
    by (simp add: initial_world_def runSession_start_def replaceSession_def set_ctl_def alice_session_def)
  then have "?r ?w"
    by (rule reach_by [OF _ step.shutdown_old [of _ 0 "[]" 0 "[''ssh'']"]]) (simp_all add: set_ctl_def)
  moreover have "step ex_ed_verify ex_ml_verify srv ?w
      (runSession_listen (allowed_for srv (ss_clientID ((alice_session 0)\<lparr>ss_listeners := []\<rparr>))) True 0 0 ''ssh'' [] ?w)"
    by (rule step.listen) (auto simp: bound_def alice_session_def)
  ultimately have "?r (runSession_listen (allowed_for srv (ss_clientID ((alice_session 0)\<lparr>ss_listeners := []\<rparr>))) True 0 0 ''ssh'' [] ?w)"
    by (rule reachable.steps)
  then have "?r \<lparr>w_handshakeSem = 0, w_sessions = [''alice'' \<mapsto> 0],
      w_objs = [0 \<mapsto> alice_session 0], w_ctl = [0 \<mapsto> CtlListen 0 []], w_usr = Map.empty\<rparr>"
    by (simp add: runSession_listen_def alice_session_def facts set_ctl_def upd_obj_def)
  then have "?r \<lparr>w_handshakeSem = 0, w_sessions = [''alice'' \<mapsto> 0],
      w_objs = [0 \<mapsto> alice_session 0], w_ctl = [0 \<mapsto> CtlWait 0], w_usr = Map.empty\<rparr>"
    by (rule reach_by [OF _ step.listening [of _ 0 0]]) (simp_all add: set_ctl_def)
  then have "?r \<lparr>w_handshakeSem = 0, w_sessions = [''alice'' \<mapsto> 0],
      w_objs = [0 \<mapsto> alice_session 0], w_ctl = [0 \<mapsto> CtlWait 0], w_usr = [0 \<mapsto> UsrEnter 0 alice_ssh ''192.0.2.1:5000'']\<rparr>"
    by (rule reach_by [OF _ step.user_accept [of _ 0 0 "alice_session 0" "\<lparr>ln_svc = alice_ssh, ln_open = True\<rparr>"
          _ _ _ "''192.0.2.1:5000''"]])
      (simp_all add: acceptUsers_one_def set_usr_def alice_session_def alice_ssh_def cidrAllowed_def parseCIDRs_def)
  then show ?thesis
    unfolding alice_world_def
    by (rule reach_by [OF _ step.user_enter [of _ 0 0 alice_ssh "''192.0.2.1:5000''" "alice_session 0"]])
      (simp_all add: facts proxyUser_enter_def chan_try_send_def set_usr_def upd_obj_def alice_session_def)
qed

lemma alice_again_reachable:
  assumes "NewServer (\<lambda>_ _. Inr ()) Some ex_server_config = Inr srv"
  shows "reachable ex_ed_verify ex_ml_verify srv alice_again"
  unfolding alice_again_def
  by (rule alice_logs_in [OF assms alice_world_reachable [OF assms]]) (simp_all add: alice_world_def)

end
