(* ===== verification/SessionTheorems.thy ===== *)
theory SessionTheorems
  imports Scenario
begin

text \<open>
  The properties of the server's sessions, each about every reachable state of the machine of theory
  \<open>Sessions\<close> or every step from one.
\<close>

section \<open>Access\<close>

lemma session_granted:
  assumes srv: "NewServer load_keypair unmarshal_pk cfg = Inr srv" and d: "distinct (map ce_ID (sc_Clients cfg))"
    and "authenticated ed_verify ml_verify srv cid rs"
  shows "\<exists>ce \<in> set (sc_Clients cfg). ce_ID ce = cid \<and>
    (\<exists>nonce exporter ca. entitled ed_verify ml_verify unmarshal_pk nonce exporter ca ce \<and> ca_RequestedServices ca = rs) \<and>
    (\<forall>name svc. allowed_for srv cid name = Some svc \<longrightarrow> svc \<in> set (ce_Services ce) \<and> se_Name svc = name)"
proof -
  from assms(3) obtain now nonce exporter ca where
    ca: "validateAuth ed_verify ml_verify srv now nonce exporter ca = ([], True)" "ca_ClientID ca = cid"
      "ca_RequestedServices ca = rs" unfolding authenticated_def by blast
  from validateAuth_entitled [OF srv d] ca(1) obtain ce where
    ce: "ce \<in> set (sc_Clients cfg)" "entitled ed_verify ml_verify unmarshal_pk nonce exporter ca ce" by metis
  have id: "ce_ID ce = cid" using entitled_id [OF ce(2)] ca(2) by simp
  have "srv_allowed srv cid = Some (service_map (ce_Services ce))"
    using NewServer_tables(1) [OF srv d] ce(1) id unfolding tables_for_def by blast
  then have "allowed_for srv cid name = Some svc \<longrightarrow> svc \<in> set (ce_Services ce) \<and> se_Name svc = name" for name svc
    using service_map_Some by (fastforce simp: allowed_for_def)
  with ce id ca(3) show ?thesis by blast
qed

text \<open>
  C5: users are served only what was granted.  In every reachable state of a server built from a valid
  configuration, a session belongs to a listed client that proved possession of one key of each kind
  it is listed with; every port the session listens on is a service listed for that client and among
  those the client asked for in that handshake; and every user connection the session serves is on
  such a service and comes from an address its network list admits.
\<close>

theorem served_only_what_was_granted:
  assumes "NewServer load_keypair unmarshal_pk cfg = Inr srv" and "Validate cfg = None"
    and "reachable ed_verify ml_verify srv w" and "w_objs w p = Some ss"
  shows "\<exists>ce \<in> set (sc_Clients cfg). \<exists>nonce exporter ca.
    entitled ed_verify ml_verify unmarshal_pk nonce exporter ca ce \<and> ce_ID ce = ss_clientID ss \<and>
    (\<forall>ln \<in> set (ss_listeners ss). ln_svc ln \<in> set (ce_Services ce) \<and> se_Name (ln_svc ln) \<in> set (ca_RequestedServices ca)) \<and>
    (\<forall>u pc svc remote. w_usr w u = Some pc \<longrightarrow> serves pc = Some (p, svc, remote) \<longrightarrow>
       svc \<in> set (ce_Services ce) \<and> se_Name svc \<in> set (ca_RequestedServices ca) \<and>
       cidrAllowed remote (parseCIDRs (se_AllowedUserCIDRs svc)))"
proof -
  have d: "distinct (map ce_ID (sc_Clients cfg))"
    using assms(2) by (simp add: Validate_None_iff server_config_ok_def)
  have inv: "usr_inv w" "auth_inv (authenticated ed_verify ml_verify srv) srv w"
    using reachable_inv [OF assms(3)] by (simp_all add: session_inv_def)
  from inv(2) assms(4) obtain rs where
    rs: "authenticated ed_verify ml_verify srv (ss_clientID ss) rs" "asked srv rs ss" unfolding auth_inv_def by blast
  from session_granted [OF assms(1) d rs(1)] obtain ce nonce exporter ca where
    ce: "ce \<in> set (sc_Clients cfg)" "ce_ID ce = ss_clientID ss"
      "entitled ed_verify ml_verify unmarshal_pk nonce exporter ca ce" "ca_RequestedServices ca = rs" and
    svc: "\<forall>name svc. allowed_for srv (ss_clientID ss) name = Some svc \<longrightarrow> svc \<in> set (ce_Services ce) \<and> se_Name svc = name"
    by blast
  have ln: "\<forall>ln \<in> set (ss_listeners ss). ln_svc ln \<in> set (ce_Services ce) \<and> se_Name (ln_svc ln) \<in> set (ca_RequestedServices ca)"
    using rs(2) svc ce(4) unfolding asked_def by blast
  have "\<forall>u pc svc remote. w_usr w u = Some pc \<longrightarrow> serves pc = Some (p, svc, remote) \<longrightarrow>
       svc \<in> set (ce_Services ce) \<and> se_Name svc \<in> set (ca_RequestedServices ca) \<and>
       cidrAllowed remote (parseCIDRs (se_AllowedUserCIDRs svc))"
    using inv(1) assms(4) ln unfolding usr_inv_def by fastforce
  with ce ln show ?thesis by blast
qed

lemma alice_state:
  "w_objs alice_world 0 = Some (alice_session 1)" "w_usr alice_world 0 = Some (UsrSlot 0 alice_ssh ''192.0.2.1:5000'')"
  "w_ctl alice_world 0 = Some (CtlWait 0)" "w_handshakeSem alice_world = 0"
  by (simp_all add: alice_world_def)

theorem served_only_what_was_granted_witness:
  "\<exists>srv. NewServer (\<lambda>_ _. Inr ()) Some ex_server_config = Inr srv \<and>
     reachable ex_ed_verify ex_ml_verify srv alice_world \<and>
     w_usr alice_world 0 = Some (UsrSlot 0 alice_ssh ''192.0.2.1:5000'') \<and> alice_ssh \<in> set (ce_Services ex_entry) \<and>
     cidrAllowed ''192.0.2.1:5000'' (parseCIDRs (se_AllowedUserCIDRs alice_ssh))"
proof -
  obtain srv where srv: "NewServer (\<lambda>_ _. Inr ()) Some ex_server_config = Inr srv" using ex_server by blast
  have "sc_Clients ex_server_config = [ex_entry]" by (simp add: ex_server_config_def)
  with served_only_what_was_granted [OF srv ex_server_valid alice_world_reachable [OF srv] alice_state(1)] alice_state(2)
  have "alice_ssh \<in> set (ce_Services ex_entry)" "cidrAllowed ''192.0.2.1:5000'' (parseCIDRs (se_AllowedUserCIDRs alice_ssh))"
    by fastforce+
  with alice_world_reachable [OF srv] alice_state(2) show ?thesis using srv by blast
qed

section \<open>The table\<close>

text \<open>
  C6: the session table implements its contract under every interleaving.  Seen as a map from clients
  to session ids, each step from a reachable state leaves it alone, or is a login that replaces one
  client's session, or the removal of a client's session by the goroutine of that very session: the
  late removal by a session that has been replaced is one of the steps that change nothing.
\<close>

theorem session_table_refines:
  assumes "reachable ed_verify ml_verify srv w" and "step ed_verify ml_verify srv w w'"
  shows "\<exists>e. current w' = table_spec e (current w) \<and>
    (e \<noteq> Stutter \<longrightarrow> (\<exists>c pc. w_ctl w c = Some pc \<and> e = event_of w pc \<and> w_ctl w' c \<noteq> Some pc))"
  using step_refines [OF assms(2)] reachable_inv [OF assms(1)] by (simp add: session_inv_def)

text \<open>Alice's connection has closed, and her goroutine is about to remove her session.\<close>

definition alice_leaving :: world where
  "alice_leaving = set_ctl 0 (CtlRemove 0) (upd_obj 0 (shutdown_exec SdYam) alice_world)"

lemma alice_leaving_reachable:
  assumes "NewServer (\<lambda>_ _. Inr ()) Some ex_server_config = Inr srv"
  shows "reachable ex_ed_verify ex_ml_verify srv alice_leaving"
  unfolding alice_leaving_def
  by (rule reachable.steps [OF reachable.steps [OF alice_world_reachable [OF assms] step.yam_closed]
      step.wait_over [where ss = "shutdown_exec SdYam (alice_session 1)"]])
     (simp_all add: alice_state)

theorem session_table_refines_witness:
  "\<exists>srv w' e. NewServer (\<lambda>_ _. Inr ()) Some ex_server_config = Inr srv \<and>
     reachable ex_ed_verify ex_ml_verify srv alice_leaving \<and> step ex_ed_verify ex_ml_verify srv alice_leaving w' \<and>
     current alice_leaving ''alice'' = Some alice_sid \<and> current w' ''alice'' = None \<and>
     e \<noteq> Stutter \<and> current w' = table_spec e (current alice_leaving)"
proof -
  obtain srv where srv: "NewServer (\<lambda>_ _. Inr ()) Some ex_server_config = Inr srv" using ex_server by blast
  let ?ss = "shutdown_exec SdYam (alice_session 1)"
  have ob: "w_objs alice_leaving 0 = Some ?ss" "w_ctl alice_leaving 0 = Some (CtlRemove 0)"
    "w_sessions alice_leaving ''alice'' = Some 0" "ss_clientID ?ss = ''alice''" "ss_id ?ss = alice_sid"
    by (simp_all add: alice_leaving_def alice_world_def alice_session_def)
  let ?w = "removeSession 0 (ss_clientID ?ss) 0 alice_leaving"
  have st: "step ex_ed_verify ex_ml_verify srv alice_leaving ?w" by (rule step.remove [OF ob(2,1)])
  have cur: "current alice_leaving ''alice'' = Some alice_sid" "current ?w ''alice'' = None"
    using ob by (simp_all add: current_def removeSession_def remove_entry_def)
  from session_table_refines [OF alice_leaving_reachable [OF srv] st] obtain e where
    e: "current ?w = table_spec e (current alice_leaving)" by blast
  with cur have "e \<noteq> Stutter" by auto
  with e cur st alice_leaving_reachable [OF srv] srv show ?thesis by blast
qed

text \<open>
  C11: no session outside the table is left open.  In every reachable state a session that is not the
  one the table holds for its client is still run by a goroutine, or it is over, and then it has been
  cancelled and its multiplexer closed.  If that goroutine has not yet come to its deferred calls (so
  the session was replaced), the session has been cancelled or the goroutine that replaced it is about
  to cancel it, and the same for closing the multiplexer, on which it waits.
\<close>

theorem replaced_session_shut_down:
  assumes "reachable ed_verify ml_verify srv w"
    and "w_objs w p = Some ss" and "w_sessions w (ss_clientID ss) \<noteq> Some p"
  shows "(\<exists>c pc. runs w c pc p \<and> (running_pc pc \<longrightarrow>
      (ss_cancelled ss \<or> shutdown_pending w SdCancel p) \<and> (ss_yamClosed ss \<or> shutdown_pending w SdYam p))) \<or>
    ss_cancelled ss \<and> ss_yamClosed ss"
proof (cases "\<exists>c pc. runs w c pc p")
  case True
  then obtain c pc where r: "runs w c pc p" by blast
  have "replaced_inv w" using reachable_inv [OF assms(1)] by (simp add: session_inv_def)
  then have "achieved x ss \<or> shutdown_pending w x p" if "running_pc pc" for x
    using that r assms(2,3) unfolding replaced_inv_def running_def by blast
  from this [of SdCancel] this [of SdYam] r show ?thesis by auto
next
  case False
  then show ?thesis using reachable_ended [OF assms(1)] assms(2) unfolding ended_inv_def by blast
qed

theorem replaced_session_shut_down_witness:
  "\<exists>srv. NewServer (\<lambda>_ _. Inr ()) Some ex_server_config = Inr srv \<and>
     reachable ex_ed_verify ex_ml_verify srv alice_again \<and> runs alice_again 0 (CtlWait 0) 0 \<and>
     shutdown_pending alice_again SdYam 0"
proof -
  obtain srv where srv: "NewServer (\<lambda>_ _. Inr ()) Some ex_server_config = Inr srv" using ex_server by blast
  have run: "runs alice_again 0 (CtlWait 0) 0" and ob: "w_objs alice_again 0 = Some (alice_session 1)"
    by (simp_all add: alice_again_def runSession_start_def replaceSession_def alice_world_def runs_def)
  have "w_sessions alice_again (ss_clientID (alice_session 1)) \<noteq> Some 0"
    by (simp add: alice_again_def runSession_start_def replaceSession_def alice_session_def)
  from replaced_session_shut_down [OF alice_again_reachable [OF srv] ob this] obtain c pc where
    "runs alice_again c pc 0" "running_pc pc \<longrightarrow> shutdown_pending alice_again SdYam 0" by (auto simp: alice_session_def)
  moreover have "ptr_inv alice_again"
    using reachable_inv [OF alice_again_reachable [OF srv]] by (simp add: session_inv_def)
  ultimately have "shutdown_pending alice_again SdYam 0"
    using run unfolding ptr_inv_def runs_def by force
  with alice_again_reachable [OF srv] run show ?thesis using srv by blast
qed

section \<open>Resources\<close>

text \<open>
  C12: no port and no table entry outlives its session.  In every reachable state an address is bound
  only by a listener of a session some goroutine is still running; so when no goroutine runs a
  session, no address is bound and the table is empty.
\<close>

theorem no_port_leak:
  assumes "reachable ed_verify ml_verify srv w"
  shows "(bound w a \<longrightarrow> (\<exists>c pc p ss. runs w c pc p \<and> registered_pc pc \<and> w_objs w p = Some ss \<and>
       (\<exists>ln \<in> set (ss_listeners ss). ln_open ln \<and> se_Listen (ln_svc ln) = a))) \<and>
    ((\<forall>c pc. w_ctl w c = Some pc \<longrightarrow> own pc = None) \<longrightarrow> \<not> bound w a \<and> w_sessions w = Map.empty)"
proof -
  have inv: "table_inv w" "ports_inv w" using reachable_inv [OF assms] by (simp_all add: session_inv_def)
  have b: "\<exists>c pc p ss. runs w c pc p \<and> registered_pc pc \<and> w_objs w p = Some ss \<and>
       (\<exists>ln \<in> set (ss_listeners ss). ln_open ln \<and> se_Listen (ln_svc ln) = a)" if "bound w a"
    using that inv(2) unfolding bound_def ports_inv_def has_owner_def by blast
  have "\<not> has_owner w p" if "\<forall>c pc. w_ctl w c = Some pc \<longrightarrow> own pc = None" for p
    using that unfolding has_owner_def runs_def by (metis option.distinct(1))
  moreover have "w_sessions w cid = None" if "\<And>p. \<not> has_owner w p" for cid
    using inv(1) that unfolding table_inv_def by (cases "w_sessions w cid") auto
  ultimately show ?thesis using b unfolding has_owner_def by blast
qed

theorem no_port_leak_witness:
  "\<exists>srv c pc p. NewServer (\<lambda>_ _. Inr ()) Some ex_server_config = Inr srv \<and>
     reachable ex_ed_verify ex_ml_verify srv alice_world \<and> bound alice_world ''h:22'' \<and>
     runs alice_world c pc p \<and> registered_pc pc"
proof -
  obtain srv where srv: "NewServer (\<lambda>_ _. Inr ()) Some ex_server_config = Inr srv" using ex_server by blast
  have "bound alice_world ''h:22''"
    unfolding bound_def using alice_state(1) by (intro exI [of _ 0] exI) (auto simp: alice_session_def alice_ssh_def)
  with no_port_leak [OF alice_world_reachable [OF srv], of "''h:22''"] alice_world_reachable [OF srv]
  show ?thesis using srv by blast
qed

text \<open>
  C13: the two semaphores count.  In every reachable state of a server built from a valid configuration
  the handshake channel holds one token for each connection in its handshake, at most 64, and the
  stream channel of a session one for each user connection it serves, at most the configured limit.
  A new connection is turned away exactly when 64 are in their handshake, and otherwise enters it; a user
  is turned away exactly when the session serves the configured number, and otherwise gets a slot; and
  the receive that gives a slot back never blocks.
\<close>

theorem slots_counted:
  assumes "NewServer load_keypair unmarshal_pk cfg = Inr srv" and "Validate cfg = None"
    and "reachable ed_verify ml_verify srv w" and "w_objs w p = Some ss"
  shows "w_handshakeSem w = card (hs_holders w) \<and> card (hs_holders w) \<le> 64 \<and>
    ss_streamSem ss = card (slot_holders p w) \<and>
    int (card (slot_holders p w)) \<le> sint (lim_MaxStreamsPerClient (sc_Limits cfg)) \<and>
    (\<forall>w' c. step ed_verify ml_verify srv w w' \<longrightarrow> w_ctl w c = None \<longrightarrow> w_ctl w' c \<noteq> None \<longrightarrow>
       w_ctl w' c = Some (if card (hs_holders w) = 64 then CtlClosed else CtlHandshake)) \<and>
    (\<forall>w' u svc remote. step ed_verify ml_verify srv w w' \<longrightarrow> w_usr w u = Some (UsrEnter p svc remote) \<longrightarrow>
       w_usr w' u \<noteq> w_usr w u \<longrightarrow>
       w_usr w' u = Some (if int (card (slot_holders p w)) = sint (lim_MaxStreamsPerClient (sc_Limits cfg))
                          then UsrClosed else UsrSlot p svc remote)) \<and>
    (\<forall>c \<in> hs_holders w. handleControl_release c pc w \<noteq> None) \<and>
    (\<forall>u \<in> slot_holders p w. proxyUser_leave u p ss w \<noteq> None)"
proof -
  have d: "distinct (map ce_ID (sc_Clients cfg))" and lim: "1 \<le> sint (lim_MaxStreamsPerClient (sc_Limits cfg))"
    using assms(2) by (auto simp: Validate_None_iff server_config_ok_def limits_ok_def)
  have srv: "srv_handshakeSem srv = 64" "int (max_streams srv) = sint (lim_MaxStreamsPerClient (sc_Limits cfg))"
    using NewServer_tables [OF assms(1) d] lim by (simp_all add: maxPendingHandshakes_def max_streams_def)
  have run: "(step ed_verify ml_verify srv)\<^sup>*\<^sup>* initial_world w" using assms(3) by (simp add: reachable_rtranclp)
  have lev: "slot_level p w = ss_streamSem ss" using assms(4) by (simp add: slot_level_def)
  have hs: "w_handshakeSem w = card (hs_holders w)" "w_handshakeSem w \<le> 64"
    using handshake_sem.level_counts [OF run] srv(1) by simp_all
  have st: "ss_streamSem ss = card (slot_holders p w)" "ss_streamSem ss \<le> max_streams srv"
    using stream_sem.level_counts [OF run, of p] lev by simp_all
  have new: "\<forall>w' c. step ed_verify ml_verify srv w w' \<longrightarrow> w_ctl w c = None \<longrightarrow> w_ctl w' c \<noteq> None \<longrightarrow>
       w_ctl w' c = Some (if card (hs_holders w) = 64 then CtlClosed else CtlHandshake)"
  proof (intro allI impI)
    fix w' c
    assume "step ed_verify ml_verify srv w w'" "w_ctl w c = None" "w_ctl w' c \<noteq> None"
    from new_control [OF this] show "w_ctl w' c = Some (if card (hs_holders w) = 64 then CtlClosed else CtlHandshake)"
      using handshake_sem.full_iff [OF run] srv(1) by (simp split: option.splits)
  qed
  have enter: "\<forall>w' u svc remote. step ed_verify ml_verify srv w w' \<longrightarrow> w_usr w u = Some (UsrEnter p svc remote) \<longrightarrow>
       w_usr w' u \<noteq> w_usr w u \<longrightarrow>
       w_usr w' u = Some (if int (card (slot_holders p w)) = int (max_streams srv) then UsrClosed else UsrSlot p svc remote)"
  proof (intro allI impI)
    fix w' u svc remote
    assume "step ed_verify ml_verify srv w w'" "w_usr w u = Some (UsrEnter p svc remote)" "w_usr w' u \<noteq> w_usr w u"
    from entering_user [OF this assms(4)]
    show "w_usr w' u = Some (if int (card (slot_holders p w)) = int (max_streams srv) then UsrClosed else UsrSlot p svc remote)"
      using stream_sem.full_iff [OF run, of p] lev by (simp split: option.splits)
  qed
  have rel: "\<forall>c \<in> hs_holders w. handleControl_release c pc w \<noteq> None"
    using handshake_sem.holder_can_release [OF run] by (auto simp: handleControl_release_def)
  have leave: "\<forall>u \<in> slot_holders p w. proxyUser_leave u p ss w \<noteq> None"
    using stream_sem.holder_can_release [OF run, of _ p] lev by (auto simp: proxyUser_leave_def)
  show ?thesis unfolding srv(2) [symmetric] using hs st rel leave new enter by simp
qed

theorem slots_counted_witness:
  "\<exists>srv. NewServer (\<lambda>_ _. Inr ()) Some ex_server_config = Inr srv \<and>
     reachable ex_ed_verify ex_ml_verify srv alice_world \<and> card (slot_holders 0 alice_world) = 1 \<and>
     proxyUser_leave 0 0 (alice_session 1) alice_world \<noteq> None"
proof -
  obtain srv where srv: "NewServer (\<lambda>_ _. Inr ()) Some ex_server_config = Inr srv" using ex_server by blast
  have h: "0 \<in> slot_holders 0 alice_world" by (simp add: slot_holders_mem alice_state)
  from slots_counted [OF srv ex_server_valid alice_world_reachable [OF srv] alice_state(1), of CtlClosed] h
  have "ss_streamSem (alice_session 1) = card (slot_holders 0 alice_world)"
    "proxyUser_leave 0 0 (alice_session 1) alice_world \<noteq> None" by blast+
  moreover have "ss_streamSem (alice_session 1) = 1" by (simp add: alice_session_def)
  ultimately have "card (slot_holders 0 alice_world) = 1" "proxyUser_leave 0 0 (alice_session 1) alice_world \<noteq> None"
    by simp_all
  with alice_world_reachable [OF srv] show ?thesis using srv by blast
qed

section \<open>Progress\<close>

text \<open>
  C14: control goroutines end.  Once its handshake is over, a control goroutine of a reachable state
  has a bounded number of actions left, which no step of the machine increases and each of its own
  decreases; and until it has returned it can always take one, unless it is waiting for its
  multiplexer, which is still open, to close.
\<close>

theorem control_goroutines_end:
  assumes "reachable ed_verify ml_verify srv w" and "w_ctl w c = Some pc" and "pc \<noteq> CtlHandshake"
  shows "(\<forall>w'. step ed_verify ml_verify srv w w' \<longrightarrow>
       (\<exists>pc'. w_ctl w' c = Some pc' \<and> (pc' = pc \<or> actions_left pc' < actions_left pc))) \<and>
    (pc = CtlClosed \<or> (\<exists>p ss. pc = CtlWait p \<and> w_objs w p = Some ss \<and> \<not> ss_yamClosed ss) \<or>
     (\<exists>w' pc'. step ed_verify ml_verify srv w w' \<and> w_ctl w' c = Some pc' \<and> actions_left pc' < actions_left pc))"
proof -
  have "ptr_inv w" using reachable_inv [OF assms(1)] by (simp add: session_inv_def)
  from never_stuck [OF this assms(2,3) _ fresh_ptr [OF assms(1)]]
  have "pc = CtlClosed \<or> (\<exists>p ss. pc = CtlWait p \<and> w_objs w p = Some ss \<and> \<not> ss_yamClosed ss) \<or>
     (\<exists>w' pc'. step ed_verify ml_verify srv w w' \<and> w_ctl w' c = Some pc' \<and> actions_left pc' < actions_left pc)"
    by blast
  with actions_left_decrease [OF _ assms(2,3)] show ?thesis by blast
qed

theorem control_goroutines_end_witness:
  "\<exists>srv w' pc'. NewServer (\<lambda>_ _. Inr ()) Some ex_server_config = Inr srv \<and>
     reachable ex_ed_verify ex_ml_verify srv alice_again \<and>
     step ex_ed_verify ex_ml_verify srv alice_again w' \<and> w_ctl w' 1 = Some pc' \<and> actions_left pc' < 10"
proof -
  obtain srv where srv: "NewServer (\<lambda>_ _. Inr ()) Some ex_server_config = Inr srv" using ex_server by blast
  have "w_ctl alice_again 1 = Some (CtlShutdownOld (shutdown 0) 1 [''ssh''])"
    by (simp add: alice_again_def runSession_start_def replaceSession_def alice_world_def)
  from control_goroutines_end [OF alice_again_reachable [OF srv] this] obtain w' pc' where
    "step ex_ed_verify ex_ml_verify srv alice_again w'" "w_ctl w' 1 = Some pc'" "actions_left pc' < 10"
    by (auto simp: shutdown_def)
  with alice_again_reachable [OF srv] show ?thesis using srv by blast
qed

end
