(* ===== verification/Relay.thy ===== *)
theory Relay
  imports Prelude "HOL-Library.Sublist"
begin

text \<open>
  \<open>relay\<close> of \<open>internal/tunnel/server.go\<close>, which both ends use: two goroutines copy in opposite directions
  between two connections, each closes the connection it has been writing to when its copy ends, and
  the caller returns once both have reported.  The goroutines interleave freely; the environment
  delivers data, ends it, or breaks a connection at any moment.  A write either goes through or fails: a
  peer that keeps its connection and never reads may block one for ever, which is left out.

  What \<open>Close\<close> does to the reads of a connection is up to its library, the parameter \<open>half_close\<close>: on a
  socket it ends them at once; on a stream of the multiplexer it only tells the peer that no more data
  will be written, and reads go on until the peer does the same or the stream breaks.
\<close>

section \<open>The state\<close>

datatype side = SideA | SideB

fun other :: "side \<Rightarrow> side" where
  "other SideA = SideB"
| "other SideB = SideA"

text \<open>
  One end of a relay: what has arrived and is not read yet, whether more may come, what has been
  written to it, whether writes fail, and whether it has been closed here.  \<open>ep_arrived\<close> records all
  that ever arrived.
\<close>

record endpoint =
  ep_in :: bytes
  ep_eof :: bool
  ep_out :: bytes
  ep_broken :: bool
  ep_closed :: bool
  ep_arrived :: bytes

text \<open>
  A copying goroutine: reading, holding a chunk to write, closing (after the end of its source, or
  after an error), reporting, returned.
\<close>

datatype copy_end = CopiedAll | CopyFailed

datatype copy_pc = CopyRead | CopyWrite bytes | CopyClose copy_end | CopySignal copy_end | CopyReturned copy_end

text \<open>\<open>rl_pc s\<close> is the goroutine that writes to side \<open>s\<close>; \<open>rl_wait\<close> counts the receives the caller still makes.\<close>

record relay_state =
  rl_ep :: "side \<Rightarrow> endpoint"
  rl_pc :: "side \<Rightarrow> copy_pc"
  rl_done :: nat
  rl_wait :: nat

definition fresh_endpoint :: endpoint where
  "fresh_endpoint = \<lparr>ep_in = [], ep_eof = False, ep_out = [], ep_broken = False, ep_closed = False, ep_arrived = []\<rparr>"

definition relay_start :: relay_state where
  "relay_start = \<lparr>rl_ep = (\<lambda>_. fresh_endpoint), rl_pc = (\<lambda>_. CopyRead), rl_done = 0, rl_wait = 2\<rparr>"

definition upd_ep :: "side \<Rightarrow> (endpoint \<Rightarrow> endpoint) \<Rightarrow> relay_state \<Rightarrow> relay_state" where
  "upd_ep s f r = r\<lparr>rl_ep := (rl_ep r)(s := f (rl_ep r s))\<rparr>"

definition set_pc :: "side \<Rightarrow> copy_pc \<Rightarrow> relay_state \<Rightarrow> relay_state" where
  "set_pc s pc r = r\<lparr>rl_pc := (rl_pc r)(s := pc)\<rparr>"

section \<open>The actions\<close>

text \<open>
  The copy into side \<open>s\<close>: \<open>io.Copy(s, other s)\<close>, \<open>s.Close()\<close>, \<open>done <- struct{}{}\<close>; and the two receives of
  the caller.
\<close>

definition reads_over :: "(side \<Rightarrow> bool) \<Rightarrow> side \<Rightarrow> relay_state \<Rightarrow> bool" where
  "reads_over half_close s r \<longleftrightarrow> ep_closed (rl_ep r s) \<and> \<not> half_close s"

inductive relay_step :: "(side \<Rightarrow> bool) \<Rightarrow> relay_state \<Rightarrow> relay_state \<Rightarrow> bool" for half_close where
  copy_read: "rl_pc r s = CopyRead \<Longrightarrow> \<not> reads_over half_close (other s) r \<Longrightarrow>
    ep_in (rl_ep r (other s)) = chunk @ rest \<Longrightarrow> chunk \<noteq> [] \<Longrightarrow>
    relay_step half_close r (set_pc s (CopyWrite chunk) (upd_ep (other s) (ep_in_update (\<lambda>_. rest)) r))"
| copy_eof: "rl_pc r s = CopyRead \<Longrightarrow> \<not> reads_over half_close (other s) r \<Longrightarrow>
    ep_in (rl_ep r (other s)) = [] \<Longrightarrow> ep_eof (rl_ep r (other s)) \<Longrightarrow>
    relay_step half_close r (set_pc s (CopyClose CopiedAll) r)"
| copy_read_error: "rl_pc r s = CopyRead \<Longrightarrow> reads_over half_close (other s) r \<or> ep_broken (rl_ep r (other s)) \<Longrightarrow>
    relay_step half_close r (set_pc s (CopyClose CopyFailed) r)"
| copy_write: "rl_pc r s = CopyWrite chunk \<Longrightarrow> \<not> ep_closed (rl_ep r s) \<Longrightarrow> \<not> ep_broken (rl_ep r s) \<Longrightarrow>
    relay_step half_close r (set_pc s CopyRead (upd_ep s (\<lambda>e. e\<lparr>ep_out := ep_out e @ chunk\<rparr>) r))"
| copy_write_error: "rl_pc r s = CopyWrite chunk \<Longrightarrow> ep_closed (rl_ep r s) \<or> ep_broken (rl_ep r s) \<Longrightarrow>
    relay_step half_close r (set_pc s (CopyClose CopyFailed) (upd_ep s (\<lambda>e. e\<lparr>ep_out := ep_out e @ take k chunk\<rparr>) r))"
| copy_close: "rl_pc r s = CopyClose e \<Longrightarrow>
    relay_step half_close r (set_pc s (CopySignal e) (upd_ep s (ep_closed_update (\<lambda>_. True)) r))"
| copy_signal: "rl_pc r s = CopySignal e \<Longrightarrow> rl_done r < 2 \<Longrightarrow>
    relay_step half_close r (set_pc s (CopyReturned e) (r\<lparr>rl_done := Suc (rl_done r)\<rparr>))"
| caller_receive: "rl_wait r = Suc n \<Longrightarrow> rl_done r = Suc m \<Longrightarrow> relay_step half_close r (r\<lparr>rl_wait := n, rl_done := m\<rparr>)"

text \<open>The environment: data arrives, the peer ends its stream, the connection breaks.\<close>

inductive env_step :: "relay_state \<Rightarrow> relay_state \<Rightarrow> bool" where
  arrive: "\<not> ep_eof (rl_ep r s) \<Longrightarrow> env_step r (upd_ep s (\<lambda>e. e\<lparr>ep_in := ep_in e @ d, ep_arrived := ep_arrived e @ d\<rparr>) r)"
| peer_eof: "env_step r (upd_ep s (ep_eof_update (\<lambda>_. True)) r)"
| break: "env_step r (upd_ep s (ep_broken_update (\<lambda>_. True)) r)"

inductive relay_run :: "(side \<Rightarrow> bool) \<Rightarrow> relay_state \<Rightarrow> bool" for half_close where
  start: "relay_run half_close relay_start"
| relay: "relay_run half_close r \<Longrightarrow> relay_step half_close r r' \<Longrightarrow> relay_run half_close r'"
| env: "relay_run half_close r \<Longrightarrow> env_step r r' \<Longrightarrow> relay_run half_close r'"

definition relay_returned :: "relay_state \<Rightarrow> bool" where
  "relay_returned r \<longleftrightarrow> rl_wait r = 0"

lemma upd_ep_simps [simp]:
  "rl_ep (upd_ep s f r) = (rl_ep r)(s := f (rl_ep r s))" "rl_pc (upd_ep s f r) = rl_pc r"
  "rl_done (upd_ep s f r) = rl_done r" "rl_wait (upd_ep s f r) = rl_wait r"
  by (simp_all add: upd_ep_def)

lemma set_pc_simps [simp]:
  "rl_ep (set_pc s pc r) = rl_ep r" "rl_pc (set_pc s pc r) = (rl_pc r)(s := pc)"
  "rl_done (set_pc s pc r) = rl_done r" "rl_wait (set_pc s pc r) = rl_wait r"
  by (simp_all add: set_pc_def)

lemma other_simps [simp]: "other (other s) = s" "other s \<noteq> s" "s \<noteq> other s"
  by (cases s; simp)+

lemma other_cases: "t = s \<or> t = other s"
  by (cases s; cases t; simp)

section \<open>What is copied\<close>

text \<open>The bytes a copy has in hand.\<close>

fun in_hand :: "copy_pc \<Rightarrow> bytes" where
  "in_hand (CopyWrite chunk) = chunk"
| "in_hand pc = []"

fun ended :: "copy_pc \<Rightarrow> copy_end option" where
  "ended (CopyClose e) = Some e"
| "ended (CopySignal e) = Some e"
| "ended (CopyReturned e) = Some e"
| "ended pc = None"

definition copy_inv :: "side \<Rightarrow> relay_state \<Rightarrow> bool" where
  "copy_inv s r \<longleftrightarrow>
     (let src = rl_ep r (other s); out = ep_out (rl_ep r s) in
      case ended (rl_pc r s) of
        None \<Rightarrow> out @ in_hand (rl_pc r s) @ ep_in src = ep_arrived src
      | Some CopiedAll \<Rightarrow> ep_eof src \<and> out = ep_arrived src
      | Some CopyFailed \<Rightarrow> prefix out (ep_arrived src))"

lemma copy_inv_step:
  assumes "relay_step half_close r r'" and "copy_inv s r"
  shows "copy_inv s r'"
  using assms(1)
proof cases
  case (copy_read t chunk rest)
  with assms(2) other_cases [of t s] show ?thesis by (auto simp: copy_inv_def Let_def split: option.splits copy_end.splits)
next
  case (copy_eof t)
  with assms(2) other_cases [of t s] show ?thesis by (auto simp: copy_inv_def Let_def split: option.splits copy_end.splits)
next
  case (copy_read_error t)
  with assms(2) other_cases [of t s] show ?thesis
    by (auto simp: copy_inv_def Let_def intro: prefixI [OF sym] split: option.splits copy_end.splits)
next
  case (copy_write t chunk)
  with assms(2) other_cases [of t s] show ?thesis by (auto simp: copy_inv_def Let_def split: option.splits copy_end.splits)
next
  case (copy_write_error t chunk k)
  show ?thesis
  proof (cases "t = s")
    case True
    with copy_write_error assms(2) have arr: "ep_arrived (rl_ep r (other s)) = ep_out (rl_ep r s) @ chunk @ ep_in (rl_ep r (other s))"
      by (simp add: copy_inv_def Let_def)
    have "prefix (ep_out (rl_ep r s) @ take k chunk) (ep_arrived (rl_ep r (other s)))"
      unfolding arr same_prefix_prefix by (rule prefix_prefix [OF take_is_prefix])
    with True copy_write_error show ?thesis by (simp add: copy_inv_def)
  next
    case False
    with other_cases [of t s] copy_write_error assms(2) show ?thesis
      by (auto simp: copy_inv_def Let_def split: option.splits copy_end.splits)
  qed
next
  case (copy_close t e)
  with assms(2) other_cases [of t s] show ?thesis
    by (auto simp: copy_inv_def Let_def split: option.splits copy_end.splits)
next
  case (copy_signal t e)
  with assms(2) other_cases [of t s] show ?thesis
    by (auto simp: copy_inv_def Let_def split: option.splits copy_end.splits)
next
  case (caller_receive n m)
  with assms(2) show ?thesis by (simp add: copy_inv_def Let_def split: option.splits copy_end.splits)
qed

lemma copy_inv_env:
  assumes "env_step r r'" and "copy_inv s r"
  shows "copy_inv s r'"
  using assms(1)
proof cases
  case (arrive t d)
  with assms(2) other_cases [of t s] show ?thesis
    by (auto simp: copy_inv_def Let_def split: option.splits copy_end.splits)
next
  case (peer_eof t)
  with assms(2) other_cases [of t s] show ?thesis
    by (auto simp: copy_inv_def Let_def split: option.splits copy_end.splits)
next
  case (break t)
  with assms(2) other_cases [of t s] show ?thesis
    by (auto simp: copy_inv_def Let_def split: option.splits copy_end.splits)
qed

lemma copy_inv_run:
  assumes "relay_run half_close r"
  shows "copy_inv s r"
  using assms
proof (induction rule: relay_run.induct)
  case start
  show ?case by (simp add: relay_start_def fresh_endpoint_def copy_inv_def)
qed (auto intro: copy_inv_step copy_inv_env)

lemma copied_prefix:
  assumes "relay_run half_close r"
  shows "prefix (ep_out (rl_ep r s)) (ep_arrived (rl_ep r (other s)))"
  using copy_inv_run [OF assms, of s]
  by (auto simp: copy_inv_def Let_def intro: prefixI [OF sym] split: option.splits copy_end.splits)

section \<open>Returning\<close>

fun has_closed :: "copy_pc \<Rightarrow> bool" where
  "has_closed (CopySignal e) = True"
| "has_closed (CopyReturned e) = True"
| "has_closed pc = False"

fun reported :: "copy_pc \<Rightarrow> nat" where
  "reported (CopyReturned e) = 1"
| "reported pc = 0"

definition end_inv :: "relay_state \<Rightarrow> bool" where
  "end_inv r \<longleftrightarrow> (\<forall>s. ep_closed (rl_ep r s) \<longleftrightarrow> has_closed (rl_pc r s)) \<and>
     rl_done r + 2 = rl_wait r + reported (rl_pc r SideA) + reported (rl_pc r SideB) \<and> rl_wait r \<le> 2"

lemma end_inv_run:
  assumes "relay_run half_close r"
  shows "end_inv r"
  using assms
proof (induction rule: relay_run.induct)
  case start
  show ?case by (simp add: relay_start_def fresh_endpoint_def end_inv_def)
next
  case (relay r r')
  from relay(2) show ?case
  proof cases
    case (copy_read s chunk rest)
    with relay.IH show ?thesis by (cases s) (auto simp: end_inv_def)
  next
    case (copy_eof s)
    with relay.IH show ?thesis by (cases s) (auto simp: end_inv_def)
  next
    case (copy_read_error s)
    with relay.IH show ?thesis by (cases s) (auto simp: end_inv_def)
  next
    case (copy_write s chunk)
    with relay.IH show ?thesis by (cases s) (auto simp: end_inv_def)
  next
    case (copy_write_error s chunk k)
    with relay.IH show ?thesis by (cases s) (auto simp: end_inv_def)
  next
    case (copy_close s e)
    with relay.IH show ?thesis by (cases s) (auto simp: end_inv_def)
  next
    case (copy_signal s e)
    with relay.IH show ?thesis by (cases s) (auto simp: end_inv_def)
  qed (use relay.IH in \<open>auto simp: end_inv_def\<close>)
next
  case (env r r')
  from env(2,3) show ?case by cases (auto simp: end_inv_def)
qed

lemma reported_le: "reported pc \<le> 1" "reported pc = 1 \<longleftrightarrow> (\<exists>e. pc = CopyReturned e)"
  by (cases pc; simp)+

lemma returned_state:
  assumes "relay_run half_close r" and "relay_returned r"
  shows "rl_done r = 0 \<and> (\<forall>s. ep_closed (rl_ep r s) \<and> (\<exists>e. rl_pc r s = CopyReturned e))"
proof -
  note inv = end_inv_run [OF assms(1), unfolded end_inv_def]
  have "reported (rl_pc r SideA) = 1" "reported (rl_pc r SideB) = 1" "rl_done r = 0"
    using inv assms(2) reported_le(1) [of "rl_pc r SideA"] reported_le(1) [of "rl_pc r SideB"]
    by (auto simp: relay_returned_def)
  then have "\<exists>e. rl_pc r s = CopyReturned e" for s unfolding reported_le by (cases s) auto
  moreover from this have "ep_closed (rl_ep r s)" for s using inv by (metis has_closed.simps(2))
  ultimately show ?thesis using \<open>rl_done r = 0\<close> by blast
qed

text \<open>A bound on the steps the relay itself can still take before more data arrives.\<close>

fun pc_left :: "copy_pc \<Rightarrow> nat" where
  "pc_left CopyRead = 4"
| "pc_left (CopyWrite chunk) = 5"
| "pc_left (CopyClose e) = 3"
| "pc_left (CopySignal e) = 2"
| "pc_left (CopyReturned e) = 1"

definition relay_left :: "relay_state \<Rightarrow> nat" where
  "relay_left r = 2 * length (ep_in (rl_ep r SideA)) + 2 * length (ep_in (rl_ep r SideB)) +
     pc_left (rl_pc r SideA) + pc_left (rl_pc r SideB) + rl_wait r"

lemma relay_left_decreases:
  assumes "relay_step half_close r r'"
  shows "relay_left r' < relay_left r"
  using assms
proof cases
  case (copy_read s chunk rest)
  then show ?thesis by (cases s; cases chunk) (auto simp: relay_left_def)
next
  case (copy_eof s)
  then show ?thesis by (cases s) (auto simp: relay_left_def)
next
  case (copy_read_error s)
  then show ?thesis by (cases s) (auto simp: relay_left_def)
next
  case (copy_write s chunk)
  then show ?thesis by (cases s) (auto simp: relay_left_def)
next
  case (copy_write_error s chunk k)
  then show ?thesis by (cases s) (auto simp: relay_left_def)
next
  case (copy_close s e)
  then show ?thesis by (cases s) (auto simp: relay_left_def)
next
  case (copy_signal s e)
  then show ?thesis by (cases s) (auto simp: relay_left_def)
qed (auto simp: relay_left_def)

text \<open>
  A side whose reads come to an end: its peer has ended or broken it, or it has been closed here and
  that ends its reads.
\<close>

definition finished :: "(side \<Rightarrow> bool) \<Rightarrow> side \<Rightarrow> relay_state \<Rightarrow> bool" where
  "finished half_close s r \<longleftrightarrow> ep_eof (rl_ep r s) \<or> ep_broken (rl_ep r s) \<or> reads_over half_close s r"

lemma finished_step:
  assumes "relay_step half_close r r'" and "finished half_close s r"
  shows "finished half_close s r'"
  using assms(1)
  by cases (use assms(2) in \<open>auto simp: finished_def reads_over_def\<close>)

lemma reader_enabled:
  assumes "rl_pc r s = CopyRead" and "finished half_close (other s) r"
  shows "\<exists>r'. relay_step half_close r r'"
proof (cases "reads_over half_close (other s) r \<or> ep_broken (rl_ep r (other s))")
  case True
  then show ?thesis using copy_read_error assms(1) by blast
next
  case False
  show ?thesis
  proof (cases "ep_in (rl_ep r (other s))")
    case Nil
    with False assms show ?thesis using copy_eof by (auto simp: finished_def)
  next
    case (Cons b bs)
    with False assms show ?thesis using copy_read [of r s half_close "[b]" bs] by auto
  qed
qed

text \<open>
  A relay with no step of its own left: a copy whose source has come to an end has returned, and when
  both have, the relay has.
\<close>

lemma quiet_relay:
  assumes "relay_run half_close r" and "\<nexists>r'. relay_step half_close r r'"
  shows "finished half_close (other s) r \<Longrightarrow> \<exists>e. rl_pc r s = CopyReturned e"
    and "(\<And>s. \<exists>e. rl_pc r s = CopyReturned e) \<Longrightarrow> relay_returned r"
proof -
  note inv = end_inv_run [OF assms(1), unfolded end_inv_def]
  have recv: "rl_done r = 0 \<or> rl_wait r = 0"
    using assms(2) caller_receive by (metis not0_implies_Suc)
  show "\<exists>e. rl_pc r s = CopyReturned e" if "finished half_close (other s) r"
  proof (cases "rl_pc r s")
    case CopyRead
    then show ?thesis using reader_enabled that assms(2) by blast
  next
    case (CopyWrite chunk)
    then show ?thesis using copy_write copy_write_error assms(2) by blast
  next
    case (CopyClose e)
    then show ?thesis using copy_close assms(2) by blast
  next
    case (CopySignal e)
    then have "reported (rl_pc r s) = 0" by simp
    then have "rl_done r < 2" using inv recv reported_le(1) [of "rl_pc r SideA"] reported_le(1) [of "rl_pc r SideB"]
      by (cases s) auto
    with CopySignal show ?thesis using copy_signal assms(2) by blast
  qed blast
  show "relay_returned r" if "\<And>s. \<exists>e. rl_pc r s = CopyReturned e"
  proof -
    have "reported (rl_pc r SideA) = 1" "reported (rl_pc r SideB) = 1" using that unfolding reported_le by blast+
    with inv recv show ?thesis by (auto simp: relay_returned_def)
  qed
qed

lemma returned_closed:
  "relay_run half_close r \<Longrightarrow> rl_pc r s = CopyReturned e \<Longrightarrow> ep_closed (rl_ep r s)"
  using end_inv_run unfolding end_inv_def by (metis has_closed.simps(2))

lemma relay_not_stuck:
  assumes "relay_run half_close r" and "\<not> relay_returned r"
    and "finished half_close s r" and "finished half_close (other s) r \<or> \<not> half_close (other s)"
  shows "\<exists>r'. relay_step half_close r r'"
proof (rule ccontr)
  assume "\<nexists>r'. relay_step half_close r r'"
  note q = quiet_relay [OF assms(1) this]
  from q(1) [of "other s"] assms(3) obtain e where e: "rl_pc r (other s) = CopyReturned e" by auto
  then have "finished half_close (other s) r"
    using assms(4) returned_closed [OF assms(1) e] by (auto simp: finished_def reads_over_def)
  then have "\<exists>e. rl_pc r s = CopyReturned e" by (rule q(1))
  with e have "\<exists>e. rl_pc r t = CopyReturned e" for t using other_cases [of t s] by auto
  with q(2) assms(2) show False by blast
qed

lemma relay_run_steps: "(relay_step half_close)\<^sup>*\<^sup>* r r' \<Longrightarrow> relay_run half_close r \<Longrightarrow> relay_run half_close r'"
  by (induction rule: rtranclp_induct) (auto intro: relay_run.relay)

lemma finished_steps: "(relay_step half_close)\<^sup>*\<^sup>* r r' \<Longrightarrow> finished half_close s r \<Longrightarrow> finished half_close s r'"
  by (induction rule: rtranclp_induct) (auto intro: finished_step)

lemma relay_returns:
  assumes "relay_run half_close r" and "finished half_close s r"
    and "finished half_close (other s) r \<or> \<not> half_close (other s)"
  shows "\<exists>r'. (relay_step half_close)\<^sup>*\<^sup>* r r' \<and> relay_returned r'"
  using assms
proof (induction "relay_left r" arbitrary: r rule: less_induct)
  case less
  show ?case
  proof (cases "relay_returned r")
    case False
    then obtain r1 where r1: "relay_step half_close r r1" using relay_not_stuck less.prems by blast
    then have "\<exists>r'. (relay_step half_close)\<^sup>*\<^sup>* r1 r' \<and> relay_returned r'"
      using less.hyps [OF relay_left_decreases [OF r1] relay_run.relay [OF less.prems(1) r1]]
        finished_step [OF r1] less.prems(2,3) by blast
    with r1 show ?thesis by (meson converse_rtranclp_into_rtranclp)
  qed blast
qed

section \<open>Properties\<close>

text \<open>A relay whose side A has received two bytes and the end of its stream.\<close>

definition ex_relay :: relay_state where
  "ex_relay = upd_ep SideA (ep_eof_update (\<lambda>_. True))
     (upd_ep SideA (\<lambda>e. e\<lparr>ep_in := ep_in e @ [1, 2], ep_arrived := ep_arrived e @ [1, 2]\<rparr>) relay_start)"

lemma ex_relay_run: "relay_run half_close ex_relay"
proof -
  have "\<not> ep_eof (rl_ep relay_start SideA)" by (simp add: relay_start_def fresh_endpoint_def)
  from relay_run.env [OF relay_run.start env_step.arrive [OF this]] show ?thesis
    unfolding ex_relay_def by (rule relay_run.env) (rule env_step.peer_eof)
qed

text \<open>
  C15: a relay carries bytes faithfully in both directions.  Whatever the interleaving of the two
  copies, of the peers and of failures, what has been written to one side is always a prefix of what
  has arrived on the other; and when a copy has ended because its source ended, everything that
  arrived has been written.
\<close>

theorem relay_faithful:
  assumes "relay_run half_close r"
  shows "prefix (ep_out (rl_ep r s)) (ep_arrived (rl_ep r (other s))) \<and>
    (ended (rl_pc r s) = Some CopiedAll \<longrightarrow> ep_out (rl_ep r s) = ep_arrived (rl_ep r (other s)))"
  using copied_prefix [OF assms, of s] copy_inv_run [OF assms, of s]
  by (auto simp: copy_inv_def Let_def split: option.splits copy_end.splits)

theorem relay_faithful_witness: "relay_run (\<lambda>s. s = SideB) ex_relay \<and> prefix (ep_out (rl_ep ex_relay SideB)) [1, 2]"
proof -
  have "ep_arrived (rl_ep ex_relay (other SideB)) = [1, 2]"
    by (simp add: ex_relay_def relay_start_def fresh_endpoint_def)
  with relay_faithful [OF ex_relay_run, of SideB] ex_relay_run show ?thesis by metis
qed

text \<open>
  C16: a relay ends.  As soon as one of its two connections has been ended or broken by its peer, and the
  other one has too or is a socket, whose reads a local \<open>Close\<close> ends, and while writes do not block, the
  relay can run to its return without any further event, and must, since each of its steps decreases a
  bound and none is missing before the return.  If the other one is a stream that is only half closed,
  the relay comes as far as closing it, and then waits for its peer.  When it has returned, both
  connections are closed, both goroutines have returned and no report is left unread.
\<close>

theorem relay_ends:
  assumes "relay_run half_close r" and "finished half_close s r"
  shows "(finished half_close (other s) r \<or> \<not> half_close (other s) \<longrightarrow>
      (\<exists>r'. (relay_step half_close)\<^sup>*\<^sup>* r r' \<and> relay_returned r') \<and>
      (\<forall>r'. (relay_step half_close)\<^sup>*\<^sup>* r r' \<longrightarrow> relay_returned r' \<or> (\<exists>r''. relay_step half_close r' r''))) \<and>
    (\<forall>r'. (relay_step half_close)\<^sup>*\<^sup>* r r' \<longrightarrow>
       (\<forall>r''. relay_step half_close r' r'' \<longrightarrow> relay_left r'' < relay_left r') \<and>
       (ep_closed (rl_ep r' (other s)) \<or> (\<exists>r''. relay_step half_close r' r'')) \<and>
       (relay_returned r' \<longrightarrow> rl_done r' = 0 \<and> (\<forall>t. ep_closed (rl_ep r' t) \<and> (\<exists>e. rl_pc r' t = CopyReturned e))))"
proof -
  have "relay_returned r' \<or> (\<exists>r''. relay_step half_close r' r'')"
    if "(relay_step half_close)\<^sup>*\<^sup>* r r'" "finished half_close (other s) r \<or> \<not> half_close (other s)" for r'
    using that relay_not_stuck [OF relay_run_steps [OF that(1) assms(1)]] finished_steps [OF that(1)] assms(2) by blast
  moreover have "ep_closed (rl_ep r' (other s)) \<or> (\<exists>r''. relay_step half_close r' r'')"
    if "(relay_step half_close)\<^sup>*\<^sup>* r r'" for r'
    using quiet_relay(1) [OF relay_run_steps [OF that assms(1)], of "other s"] finished_steps [OF that assms(2)]
      returned_closed [OF relay_run_steps [OF that assms(1)]] by auto
  moreover have "rl_done r' = 0 \<and> (\<forall>t. ep_closed (rl_ep r' t) \<and> (\<exists>e. rl_pc r' t = CopyReturned e))"
    if "(relay_step half_close)\<^sup>*\<^sup>* r r'" "relay_returned r'" for r'
    using returned_state [OF relay_run_steps [OF that(1) assms(1)] that(2)] .
  ultimately show ?thesis
    using relay_returns [OF assms] relay_left_decreases by blast
qed

theorem relay_ends_witness:
  "(\<exists>r'. (relay_step (\<lambda>s. s = SideA))\<^sup>*\<^sup>* ex_relay r' \<and> relay_returned r' \<and> ep_closed (rl_ep r' SideB)) \<and>
   (ep_closed (rl_ep ex_relay SideB) \<or> (\<exists>r'. relay_step (\<lambda>s. s = SideB) ex_relay r'))"
proof -
  have fin: "finished hc SideA ex_relay" for hc by (simp add: ex_relay_def finished_def)
  have "\<exists>r'. (relay_step (\<lambda>s. s = SideA))\<^sup>*\<^sup>* ex_relay r' \<and> relay_returned r' \<and> ep_closed (rl_ep r' SideB)"
    using relay_ends [OF ex_relay_run fin, of "\<lambda>s. s = SideA"] by auto
  moreover have "ep_closed (rl_ep ex_relay SideB) \<or> (\<exists>r'. relay_step (\<lambda>s. s = SideB) ex_relay r')"
    using relay_ends [OF ex_relay_run fin, of "\<lambda>s. s = SideB"] by auto
  ultimately show ?thesis by blast
qed

end
