(* ===== verification/TunnelStream.thy ===== *)
theory TunnelStream
  imports Relay
begin

text \<open>
  A user connection through the tunnel: the server relays between the user's socket and a stream of the
  multiplexer (\<open>relay(uc, stream)\<close> in \<open>proxyUser\<close>), the client between that stream and the socket of the
  target (\<open>relay(stream, local)\<close> in \<open>handleStream\<close>).  The stream carries bytes in order and tells its
  other end, after the last of them, that one end was closed; closing an end does not end its reads.
  That is all that is taken from the multiplexer here.
\<close>

section \<open>The two relays and the stream\<close>

record tunnel =
  tn_server :: relay_state
  tn_client :: relay_state

text \<open>The stream is the second connection of the server's relay and the first of the client's.\<close>

definition server_side :: "side \<Rightarrow> bool" where
  "server_side s \<longleftrightarrow> s = SideB"

definition client_side :: "side \<Rightarrow> bool" where
  "client_side s \<longleftrightarrow> s = SideA"

abbreviation near :: "tunnel \<Rightarrow> endpoint" where "near t \<equiv> rl_ep (tn_server t) SideB"
abbreviation far :: "tunnel \<Rightarrow> endpoint" where "far t \<equiv> rl_ep (tn_client t) SideA"

definition arrived :: "bytes \<Rightarrow> endpoint \<Rightarrow> endpoint" where
  "arrived d e = e\<lparr>ep_in := ep_in e @ d, ep_arrived := ep_arrived e @ d\<rparr>"

inductive tunnel_step :: "tunnel \<Rightarrow> tunnel \<Rightarrow> bool" where
  at_server: "relay_step server_side (tn_server t) r \<Longrightarrow> tunnel_step t (t\<lparr>tn_server := r\<rparr>)"
| at_client: "relay_step client_side (tn_client t) r \<Longrightarrow> tunnel_step t (t\<lparr>tn_client := r\<rparr>)"
| to_client: "ep_out (near t) = ep_arrived (far t) @ d @ rest \<Longrightarrow> d \<noteq> [] \<Longrightarrow>
    tunnel_step t (t\<lparr>tn_client := upd_ep SideA (arrived d) (tn_client t)\<rparr>)"
| to_server: "ep_out (far t) = ep_arrived (near t) @ d @ rest \<Longrightarrow> d \<noteq> [] \<Longrightarrow>
    tunnel_step t (t\<lparr>tn_server := upd_ep SideB (arrived d) (tn_server t)\<rparr>)"
| fin_to_client: "ep_closed (near t) \<Longrightarrow> ep_out (near t) = ep_arrived (far t) \<Longrightarrow> \<not> ep_eof (far t) \<Longrightarrow>
    tunnel_step t (t\<lparr>tn_client := upd_ep SideA (ep_eof_update (\<lambda>_. True)) (tn_client t)\<rparr>)"
| fin_to_server: "ep_closed (far t) \<Longrightarrow> ep_out (far t) = ep_arrived (near t) \<Longrightarrow> \<not> ep_eof (near t) \<Longrightarrow>
    tunnel_step t (t\<lparr>tn_server := upd_ep SideB (ep_eof_update (\<lambda>_. True)) (tn_server t)\<rparr>)"

text \<open>The user and the target do as they like, and the multiplexed connection may be lost.\<close>

inductive tunnel_env :: "tunnel \<Rightarrow> tunnel \<Rightarrow> bool" where
  user: "env_step (tn_server t) r \<Longrightarrow> rl_ep r SideB = near t \<Longrightarrow> tunnel_env t (t\<lparr>tn_server := r\<rparr>)"
| target: "env_step (tn_client t) r \<Longrightarrow> rl_ep r SideA = far t \<Longrightarrow> tunnel_env t (t\<lparr>tn_client := r\<rparr>)"
| lost: "tunnel_env t (t\<lparr>tn_server := upd_ep SideB (ep_broken_update (\<lambda>_. True)) (tn_server t),
    tn_client := upd_ep SideA (ep_broken_update (\<lambda>_. True)) (tn_client t)\<rparr>)"

inductive tunnel_run :: "tunnel \<Rightarrow> bool" where
  start: "tunnel_run \<lparr>tn_server = relay_start, tn_client = relay_start\<rparr>"
| step: "tunnel_run t \<Longrightarrow> tunnel_step t t' \<Longrightarrow> tunnel_run t'"
| env: "tunnel_run t \<Longrightarrow> tunnel_env t t' \<Longrightarrow> tunnel_run t'"

definition tunnel_returned :: "tunnel \<Rightarrow> bool" where
  "tunnel_returned t \<longleftrightarrow> relay_returned (tn_server t) \<and> relay_returned (tn_client t)"

section \<open>What the stream keeps\<close>

text \<open>One direction of the stream: what has arrived was sent, and its end comes after everything.\<close>

definition carried :: "endpoint \<Rightarrow> endpoint \<Rightarrow> bool" where
  "carried e f \<longleftrightarrow> prefix (ep_arrived f) (ep_out e) \<and> (ep_eof f \<longrightarrow> ep_closed e \<and> ep_out e = ep_arrived f)"

lemma relay_step_endpoint:
  assumes "relay_step hc r r'" and "relay_run hc r"
  shows "ep_arrived (rl_ep r' s) = ep_arrived (rl_ep r s)" "ep_eof (rl_ep r' s) = ep_eof (rl_ep r s)"
    "ep_closed (rl_ep r s) \<Longrightarrow> ep_closed (rl_ep r' s) \<and> ep_out (rl_ep r' s) = ep_out (rl_ep r s)"
    "prefix (ep_out (rl_ep r s)) (ep_out (rl_ep r' s))"
proof -
  have c: "ep_closed (rl_ep r s) \<longleftrightarrow> has_closed (rl_pc r s)" for s
    using end_inv_run [OF assms(2)] by (simp add: end_inv_def)
  from assms(1) show "ep_arrived (rl_ep r' s) = ep_arrived (rl_ep r s)" "ep_eof (rl_ep r' s) = ep_eof (rl_ep r s)"
    by (cases; auto)+
  show "ep_closed (rl_ep r' s) \<and> ep_out (rl_ep r' s) = ep_out (rl_ep r s)" if "ep_closed (rl_ep r s)"
    using assms(1) that c [of s] by cases auto
  from assms(1) show "prefix (ep_out (rl_ep r s)) (ep_out (rl_ep r' s))"
    by cases auto
qed

lemma carried_sender:
  assumes "carried (rl_ep r s) f" and "relay_step hc r r'" and "relay_run hc r"
  shows "carried (rl_ep r' s) f"
  using assms(1) relay_step_endpoint(3,4) [OF assms(2,3), of s] prefix_order.trans unfolding carried_def by metis

lemma carried_receiver:
  assumes "carried e (rl_ep r s)" and "relay_step hc r r'" and "relay_run hc r"
  shows "carried e (rl_ep r' s)"
  using assms(1) relay_step_endpoint(1,2) [OF assms(2,3), of s] unfolding carried_def by simp

lemma carried_same:
  "carried e f \<Longrightarrow> ep_out e' = ep_out e \<Longrightarrow> ep_closed e' = ep_closed e \<Longrightarrow> ep_arrived f' = ep_arrived f \<Longrightarrow>
   ep_eof f' = ep_eof f \<Longrightarrow> carried e' f'"
  by (simp add: carried_def)

definition tunnel_inv :: "tunnel \<Rightarrow> bool" where
  "tunnel_inv t \<longleftrightarrow> relay_run server_side (tn_server t) \<and> relay_run client_side (tn_client t) \<and>
     carried (near t) (far t) \<and> carried (far t) (near t)"

lemma arrives:
  assumes "carried e (rl_ep r s)" and "ep_out e = ep_arrived (rl_ep r s) @ d @ rest" and "d \<noteq> []" and "relay_run hc r"
  shows "relay_run hc (upd_ep s (arrived d) r) \<and> carried e (rl_ep (upd_ep s (arrived d) r) s)"
proof -
  have "\<not> ep_eof (rl_ep r s)" using assms(1-3) by (auto simp: carried_def)
  from relay_run.env [OF assms(4) env_step.arrive [OF this, of d]] assms(1,2) show ?thesis
    unfolding arrived_def [abs_def] carried_def by (auto simp: \<open>\<not> ep_eof (rl_ep r s)\<close>)
qed

lemma ends:
  assumes "carried e (rl_ep r s)" and "ep_closed e" and "ep_out e = ep_arrived (rl_ep r s)" and "relay_run hc r"
  shows "relay_run hc (upd_ep s (ep_eof_update (\<lambda>_. True)) r) \<and>
    carried e (rl_ep (upd_ep s (ep_eof_update (\<lambda>_. True)) r) s)"
  using assms(1-3) relay_run.env [OF assms(4) env_step.peer_eof] by (auto simp: carried_def)

lemma tunnel_inv_run:
  assumes "tunnel_run t"
  shows "tunnel_inv t"
  using assms
proof (induction rule: tunnel_run.induct)
  case start
  have "carried (rl_ep relay_start s) (rl_ep relay_start s')" for s s'
    by (simp add: carried_def relay_start_def fresh_endpoint_def)
  then show ?case by (simp add: tunnel_inv_def relay_run.start)
next
  case (step t t')
  from step.hyps(2) show ?case
  proof cases
    case (at_server r)
    with step.IH show ?thesis
      by (auto simp: tunnel_inv_def intro: carried_sender carried_receiver relay_run.relay)
  next
    case (at_client r)
    with step.IH show ?thesis
      by (auto simp: tunnel_inv_def intro: carried_sender carried_receiver relay_run.relay)
  next
    case (to_client d rest)
    with step.IH arrives [of "near t" "tn_client t" SideA d rest client_side] show ?thesis
      by (auto simp: tunnel_inv_def arrived_def intro: carried_same)
  next
    case (to_server d rest)
    with step.IH arrives [of "far t" "tn_server t" SideB d rest server_side] show ?thesis
      by (auto simp: tunnel_inv_def arrived_def intro: carried_same)
  next
    case fin_to_client
    with step.IH ends [of "near t" "tn_client t" SideA client_side] show ?thesis
      by (auto simp: tunnel_inv_def intro: carried_same)
  next
    case fin_to_server
    with step.IH ends [of "far t" "tn_server t" SideB server_side] show ?thesis
      by (auto simp: tunnel_inv_def intro: carried_same)
  qed
next
  case (env t t')
  from env.hyps(2) show ?case
  proof cases
    case (user r)
    with env.IH relay_run.env [of server_side "tn_server t" r] show ?thesis by (simp add: tunnel_inv_def)
  next
    case (target r)
    with env.IH relay_run.env [of client_side "tn_client t" r] show ?thesis by (simp add: tunnel_inv_def)
  next
    case lost
    with env.IH relay_run.env [OF _ env_step.break] show ?thesis
      by (auto simp: tunnel_inv_def intro: carried_same)
  qed
qed

section \<open>How far a user connection has to go\<close>

text \<open>Every byte is read, written, carried, read and written, in this order, at most once each.\<close>

definition way_left :: "relay_state \<Rightarrow> side \<Rightarrow> relay_state \<Rightarrow> nat" where
  "way_left r s r' =
     7 * length (ep_in (rl_ep r s)) + 5 * length (in_hand (rl_pc r (other s))) +
     4 * (length (ep_out (rl_ep r (other s))) - length (ep_arrived (rl_ep r' s))) +
     3 * length (ep_in (rl_ep r' s)) + length (in_hand (rl_pc r' (other s))) +
     (if ep_eof (rl_ep r' s) then 0 else 1)"

definition pcs_left :: "relay_state \<Rightarrow> nat" where
  "pcs_left r = pc_left (rl_pc r SideA) + pc_left (rl_pc r SideB) + rl_wait r"

definition tunnel_left :: "tunnel \<Rightarrow> nat" where
  "tunnel_left t = way_left (tn_server t) SideA (tn_client t) + way_left (tn_client t) SideB (tn_server t) +
     pcs_left (tn_server t) + pcs_left (tn_client t)"

lemma way_left_relay:
  assumes "relay_step hc r r'" and "prefix (ep_arrived (rl_ep q s)) (ep_out (rl_ep r (other s)))"
    and "prefix (ep_arrived (rl_ep r (other s))) (ep_out (rl_ep q s))"
  shows "way_left r' s q + way_left q (other s) r' + pcs_left r' < way_left r s q + way_left q (other s) r + pcs_left r"
proof -
  note le = prefix_length_le [OF assms(2)] prefix_length_le [OF assms(3)]
  from assms(1) show ?thesis
  proof cases
    case (copy_read x chunk rest)
    with le show ?thesis by (cases s; cases x; cases chunk) (auto simp: way_left_def pcs_left_def)
  next
    case (copy_eof x)
    with le show ?thesis by (cases s; cases x) (auto simp: way_left_def pcs_left_def)
  next
    case (copy_read_error x)
    with le show ?thesis by (cases s; cases x) (auto simp: way_left_def pcs_left_def)
  next
    case (copy_write x chunk)
    with le show ?thesis by (cases s; cases x) (auto simp: way_left_def pcs_left_def)
  next
    case (copy_write_error x chunk k)
    with le show ?thesis by (cases s; cases x) (auto simp: way_left_def pcs_left_def)
  next
    case (copy_close x e)
    with le show ?thesis by (cases s; cases x) (auto simp: way_left_def pcs_left_def)
  next
    case (copy_signal x e)
    with le show ?thesis by (cases s; cases x) (auto simp: way_left_def pcs_left_def)
  qed (auto simp: way_left_def pcs_left_def)
qed

lemma tunnel_left_decreases:
  assumes "tunnel_inv t" and "tunnel_step t t'"
  shows "tunnel_left t' < tunnel_left t"
  using assms(2)
proof cases
  case (at_server r)
  with way_left_relay [OF at_server(2), of "tn_client t" SideA] assms(1) show ?thesis
    by (simp add: tunnel_left_def tunnel_inv_def carried_def)
next
  case (at_client r)
  with way_left_relay [OF at_client(2), of "tn_server t" SideB] assms(1) show ?thesis
    by (simp add: tunnel_left_def tunnel_inv_def carried_def)
next
  case (to_client d rest)
  then show ?thesis by (cases d) (auto simp: tunnel_left_def way_left_def pcs_left_def arrived_def)
next
  case (to_server d rest)
  then show ?thesis by (cases d) (auto simp: tunnel_left_def way_left_def pcs_left_def arrived_def)
qed (simp_all add: tunnel_left_def way_left_def pcs_left_def)

section \<open>Not stuck\<close>

text \<open>Once the user or the target is gone, there is a next step until both relays have returned.\<close>

definition peer_gone :: "tunnel \<Rightarrow> bool" where
  "peer_gone t \<longleftrightarrow> finished server_side SideA (tn_server t) \<or> finished client_side SideB (tn_client t)"

lemma peer_gone_step:
  assumes "peer_gone t" and "tunnel_step t t'"
  shows "peer_gone t'"
  using assms(2)
proof cases
  case (at_server r)
  then show ?thesis using assms(1) finished_step [OF at_server(2)] by (auto simp: peer_gone_def)
next
  case (at_client r)
  then show ?thesis using assms(1) finished_step [OF at_client(2)] by (auto simp: peer_gone_def)
qed (use assms(1) in \<open>auto simp: peer_gone_def finished_def reads_over_def\<close>)

text \<open>When nothing moves, an end that was closed has been announced to the other end.\<close>

lemma quiet_stream:
  assumes "tunnel_inv t" and "\<nexists>t'. tunnel_step t t'"
  shows "ep_closed (near t) \<Longrightarrow> ep_eof (far t)" and "ep_closed (far t) \<Longrightarrow> ep_eof (near t)"
proof -
  obtain d e where d: "ep_out (near t) = ep_arrived (far t) @ d" and e: "ep_out (far t) = ep_arrived (near t) @ e"
    using assms(1) by (auto simp: tunnel_inv_def carried_def prefix_def)
  have "d = []" using to_client [of t d "[]"] d assms(2) by auto
  with d show "ep_closed (near t) \<Longrightarrow> ep_eof (far t)" using assms(2) fin_to_client by force
  have "e = []" using to_server [of t e "[]"] e assms(2) by auto
  with e show "ep_closed (far t) \<Longrightarrow> ep_eof (near t)" using assms(2) fin_to_server by force
qed

lemma tunnel_not_stuck:
  assumes "tunnel_inv t" and "peer_gone t" and "\<not> tunnel_returned t"
  shows "\<exists>t'. tunnel_step t t'"
proof (rule ccontr)
  assume quiet: "\<nexists>t'. tunnel_step t t'"
  let ?l = "tn_server t" and ?r = "tn_client t"
  have run: "relay_run server_side ?l" "relay_run client_side ?r" using assms(1) by (simp_all add: tunnel_inv_def)
  have "\<nexists>r'. relay_step server_side ?l r'" "\<nexists>r'. relay_step client_side ?r r'"
    using quiet at_server at_client by blast+
  note ql = quiet_relay [OF run(1) this(1)] and qr = quiet_relay [OF run(2) this(2)]
  have l: "finished server_side (other s) ?l \<Longrightarrow> ep_closed (rl_ep ?l s)" for s
    using ql(1) returned_closed [OF run(1)] by blast
  have r: "finished client_side (other s) ?r \<Longrightarrow> ep_closed (rl_ep ?r s)" for s
    using qr(1) returned_closed [OF run(2)] by blast
  have near: "finished server_side SideB ?l" if "ep_closed (far t)"
    using quiet_stream(2) [OF assms(1) quiet that] by (simp add: finished_def)
  have far: "finished client_side SideA ?r" if "ep_closed (near t)"
    using quiet_stream(1) [OF assms(1) quiet that] by (simp add: finished_def)
  have user: "finished server_side SideA ?l" if "ep_closed (rl_ep ?l SideA)"
    using that by (simp add: finished_def reads_over_def server_side_def)
  have target: "finished client_side SideB ?r" if "ep_closed (rl_ep ?r SideB)"
    using that by (simp add: finished_def reads_over_def client_side_def)
  from assms(2) have all: "finished server_side SideA ?l" "finished server_side SideB ?l"
    "finished client_side SideA ?r" "finished client_side SideB ?r"
    unfolding peer_gone_def
    using l [of SideA] l [of SideB] r [of SideA] r [of SideB] near far user target by auto
  have "finished server_side (other s) ?l" "finished client_side (other s) ?r" for s
    using all by (cases s; simp)+
  then have "relay_returned ?l" "relay_returned ?r" using ql qr by blast+
  with assms(3) show False by (simp add: tunnel_returned_def)
qed

lemma tunnel_run_steps: "tunnel_step\<^sup>*\<^sup>* t t' \<Longrightarrow> tunnel_run t \<Longrightarrow> tunnel_run t'"
  by (induction rule: rtranclp_induct) (auto intro: tunnel_run.step)

lemma tunnel_returns:
  assumes "tunnel_run t" and "peer_gone t"
  shows "\<exists>t'. tunnel_step\<^sup>*\<^sup>* t t' \<and> tunnel_returned t'"
  using assms
proof (induction "tunnel_left t" arbitrary: t rule: less_induct)
  case less
  note inv = tunnel_inv_run [OF less.prems(1)]
  show ?case
  proof (cases "tunnel_returned t")
    case False
    then obtain t1 where t1: "tunnel_step t t1" using tunnel_not_stuck [OF inv less.prems(2)] by blast
    then have "\<exists>t'. tunnel_step\<^sup>*\<^sup>* t1 t' \<and> tunnel_returned t'"
      by (intro less.hyps tunnel_left_decreases [OF inv] tunnel_run.step [OF less.prems(1)] peer_gone_step [OF less.prems(2)])
    with t1 show ?thesis by (meson converse_rtranclp_into_rtranclp)
  qed blast
qed

section \<open>Properties\<close>

text \<open>A tunnel whose user has sent a byte and hung up.\<close>

definition ex_tunnel :: tunnel where
  "ex_tunnel = \<lparr>tn_server = upd_ep SideA (ep_eof_update (\<lambda>_. True)) (upd_ep SideA (arrived [1]) relay_start),
     tn_client = relay_start\<rparr>"

lemma ex_tunnel_run: "tunnel_run ex_tunnel"
proof -
  let ?t = "\<lparr>tn_server = relay_start, tn_client = relay_start\<rparr>"
  let ?a = "upd_ep SideA (arrived [1]) relay_start"
  have "\<not> ep_eof (rl_ep relay_start SideA)" by (simp add: relay_start_def fresh_endpoint_def)
  from env_step.arrive [OF this, of "[1]"] have "env_step (tn_server ?t) ?a" by (simp add: arrived_def [abs_def])
  then have "tunnel_env ?t (?t\<lparr>tn_server := ?a\<rparr>)" by (rule tunnel_env.user) simp
  from tunnel_run.env [OF tunnel_run.start this] have "tunnel_run (?t\<lparr>tn_server := ?a\<rparr>)" .
  moreover have "tunnel_env (?t\<lparr>tn_server := ?a\<rparr>)
      (?t\<lparr>tn_server := ?a, tn_server := upd_ep SideA (ep_eof_update (\<lambda>_. True)) ?a\<rparr>)"
    by (rule tunnel_env.user) (use env_step.peer_eof [of ?a SideA] in simp_all)
  ultimately show ?thesis unfolding ex_tunnel_def using tunnel_run.env by force
qed

text \<open>
  C17: a user connection through the tunnel.  Whatever the two relays, the stream between them, the user,
  the target and failures do, what has been written to the target is a prefix of what the user has sent,
  and what has been written to the user a prefix of what the target has sent.  Once the user or the
  target has ended or lost its connection, and while writes do not block, both relays run to their return
  without further events, though closing a stream only half closes it: each step of the relays and of the
  stream decreases a bound and none is missing before both have returned, with every connection closed.
\<close>

theorem tunnel_ends:
  assumes "tunnel_run t"
  shows "prefix (ep_out (rl_ep (tn_client t) SideB)) (ep_arrived (rl_ep (tn_server t) SideA)) \<and>
    prefix (ep_out (rl_ep (tn_server t) SideA)) (ep_arrived (rl_ep (tn_client t) SideB)) \<and>
    (peer_gone t \<longrightarrow> (\<exists>t'. tunnel_step\<^sup>*\<^sup>* t t' \<and> tunnel_returned t') \<and>
       (\<forall>t'. tunnel_step\<^sup>*\<^sup>* t t' \<longrightarrow> (\<forall>t''. tunnel_step t' t'' \<longrightarrow> tunnel_left t'' < tunnel_left t') \<and>
          (tunnel_returned t' \<or> (\<exists>t''. tunnel_step t' t'')))) \<and>
    (tunnel_returned t \<longrightarrow> (\<forall>s. ep_closed (rl_ep (tn_server t) s) \<and> ep_closed (rl_ep (tn_client t) s)))"
proof -
  note inv = tunnel_inv_run [OF assms]
  have run: "relay_run server_side (tn_server t)" "relay_run client_side (tn_client t)"
    and car: "prefix (ep_arrived (far t)) (ep_out (near t))" "prefix (ep_arrived (near t)) (ep_out (far t))"
    using inv by (simp_all add: tunnel_inv_def carried_def)
  have "prefix (ep_out (rl_ep (tn_client t) SideB)) (ep_arrived (rl_ep (tn_server t) SideA))"
    using copied_prefix [OF run(2), of SideB] car(1) copied_prefix [OF run(1), of SideB] by (auto intro: prefix_order.trans)
  moreover have "prefix (ep_out (rl_ep (tn_server t) SideA)) (ep_arrived (rl_ep (tn_client t) SideB))"
    using copied_prefix [OF run(1), of SideA] car(2) copied_prefix [OF run(2), of SideA] by (auto intro: prefix_order.trans)
  moreover have "tunnel_returned t' \<or> (\<exists>t''. tunnel_step t' t'')" if "peer_gone t" "tunnel_step\<^sup>*\<^sup>* t t'" for t'
  proof -
    from that(2,1) have "peer_gone t'" by (induction rule: rtranclp_induct) (auto intro: peer_gone_step)
    with tunnel_not_stuck tunnel_inv_run [OF tunnel_run_steps [OF that(2) assms]] show ?thesis by blast
  qed
  moreover have "tunnel_left t'' < tunnel_left t'" if "tunnel_step\<^sup>*\<^sup>* t t'" "tunnel_step t' t''" for t' t''
    using tunnel_left_decreases [OF tunnel_inv_run [OF tunnel_run_steps [OF that(1) assms]] that(2)] .
  ultimately show ?thesis
    using tunnel_returns [OF assms] returned_state [OF run(1)] returned_state [OF run(2)]
    unfolding tunnel_returned_def by blast
qed

theorem tunnel_ends_witness:
  "tunnel_run ex_tunnel \<and> (\<exists>t'. tunnel_step\<^sup>*\<^sup>* ex_tunnel t' \<and> tunnel_returned t')"
proof -
  have "peer_gone ex_tunnel" by (simp add: peer_gone_def ex_tunnel_def finished_def)
  with tunnel_ends [OF ex_tunnel_run] ex_tunnel_run show ?thesis by blast
qed

end
