(* ===== verification/GoFlag.thy ===== *)
theory GoFlag
  imports Prelude
begin

text \<open>
  Package \<open>flag\<close>: \<open>FlagSet.Parse\<close> with the error handling \<open>ContinueOnError\<close>, for flags that are strings
  or booleans.  Parsing stops at the first argument that is not a flag, or after \<open>--\<close>; a flag given
  twice keeps its last value.
\<close>

datatype flag_kind = StringFlag | BoolFlag

datatype flag_error =
    BadSyntax string | NotDefined string | ErrHelp | NeedsArgument string | InvalidBool string string

type_synonym flag_values = "string \<rightharpoonup> string"

definition ParseBool :: "string \<Rightarrow> bool option" where
  "ParseBool s =
     (if s \<in> {''1'', ''t'', ''T'', ''true'', ''TRUE'', ''True''} then Some True
      else if s \<in> {''0'', ''f'', ''F'', ''false'', ''FALSE'', ''False''} then Some False
      else None)"

text \<open>The name and value of a flag argument without its dashes: the first \<open>=\<close> that is not in first place splits them.\<close>

definition split_value :: "string \<Rightarrow> string \<times> string option" where
  "split_value s =
     (case index_byte (drop 1 s) (CHR ''='') of
        None \<Rightarrow> (s, None)
      | Some i \<Rightarrow> (take (Suc i) s, Some (drop (i + 2) s)))"

text \<open>What the head of the argument list is: not a flag, the terminator, or a flag with its text.\<close>

datatype arg_kind = NotFlag | Terminator | FlagText string

definition arg_kind :: "string \<Rightarrow> arg_kind" where
  "arg_kind s =
     (if length s < 2 \<or> s ! 0 \<noteq> CHR ''-'' then NotFlag
      else if s ! 1 = CHR ''-'' then (if length s = 2 then Terminator else FlagText (drop 2 s))
      else FlagText (drop 1 s))"

function flag_Parse ::
  "(string \<rightharpoonup> flag_kind) \<Rightarrow> flag_values \<Rightarrow> string list \<Rightarrow> flag_error + flag_values \<times> string list" where
  "flag_Parse kinds vals [] = Inr (vals, [])"
| "flag_Parse kinds vals (s # args) =
     (case arg_kind s of
        NotFlag \<Rightarrow> Inr (vals, s # args)
      | Terminator \<Rightarrow> Inr (vals, args)
      | FlagText text \<Rightarrow>
          if text = [] \<or> hd text = CHR ''-'' \<or> hd text = CHR ''='' then Inl (BadSyntax s)
          else
            (let (name, value) = split_value text in
             case kinds name of
               None \<Rightarrow> if name = ''help'' \<or> name = ''h'' then Inl ErrHelp else Inl (NotDefined name)
             | Some BoolFlag \<Rightarrow>
                 (case value of
                    None \<Rightarrow> flag_Parse kinds (vals(name \<mapsto> ''true'')) args
                  | Some v \<Rightarrow>
                      (case ParseBool v of
                         None \<Rightarrow> Inl (InvalidBool name v)
                       | Some b \<Rightarrow> flag_Parse kinds (vals(name \<mapsto> (if b then ''true'' else ''false''))) args))
             | Some StringFlag \<Rightarrow>
                 (case value of
                    Some v \<Rightarrow> flag_Parse kinds (vals(name \<mapsto> v)) args
                  | None \<Rightarrow>
                      (case args of
                         [] \<Rightarrow> Inl (NeedsArgument name)
                       | v # rest \<Rightarrow> flag_Parse kinds (vals(name \<mapsto> v)) rest))))"
  by pat_completeness auto
termination by (relation "measure (\<lambda>(_, _, args). length args)") auto

definition flag_string :: "flag_values \<Rightarrow> string \<Rightarrow> string \<Rightarrow> string" where
  "flag_string vals name dflt = (case vals name of Some v \<Rightarrow> v | None \<Rightarrow> dflt)"

definition flag_bool :: "flag_values \<Rightarrow> string \<Rightarrow> bool" where
  "flag_bool vals name = (vals name = Some ''true'')"

section \<open>Forms of a flag\<close>

definition flag_name :: "string \<Rightarrow> bool" where
  "flag_name n \<longleftrightarrow> n \<noteq> [] \<and> hd n \<noteq> CHR ''-'' \<and> CHR ''='' \<notin> set n"

lemma arg_kind_flag:
  assumes "flag_name n"
  shows "arg_kind (CHR ''-'' # n @ t) = FlagText (n @ t)" "arg_kind (CHR ''-'' # CHR ''-'' # n @ t) = FlagText (n @ t)"
  using assms by (cases n; auto simp: arg_kind_def flag_name_def)+

lemma split_value_none: "flag_name n \<Longrightarrow> split_value n = (n, None)"
proof -
  assume "flag_name n"
  then have "index_byte (drop 1 n) (CHR ''='') = None" by (cases n) (auto simp: flag_name_def)
  then show ?thesis by (simp only: split_value_def option.case)
qed

lemma split_value_some: "flag_name n \<Longrightarrow> split_value (n @ CHR ''='' # v) = (n, Some v)"
proof -
  assume n: "flag_name n"
  then obtain c r where "n = c # r" "CHR ''='' \<notin> set r" by (cases n) (auto simp: flag_name_def)
  then show ?thesis by (simp add: split_value_def)
qed

text \<open>A string flag can be given in four ways, which mean the same.\<close>

lemma flag_forms:
  assumes "flag_name n" and "kinds n = Some StringFlag"
  shows "flag_Parse kinds vals ((CHR ''-'' # n) # v # args) = flag_Parse kinds (vals(n \<mapsto> v)) args"
    "flag_Parse kinds vals ((CHR ''-'' # CHR ''-'' # n) # v # args) = flag_Parse kinds (vals(n \<mapsto> v)) args"
    "flag_Parse kinds vals ((CHR ''-'' # n @ CHR ''='' # v) # args) = flag_Parse kinds (vals(n \<mapsto> v)) args"
    "flag_Parse kinds vals ((CHR ''-'' # CHR ''-'' # n @ CHR ''='' # v) # args) = flag_Parse kinds (vals(n \<mapsto> v)) args"
proof -
  have "hd n \<noteq> CHR ''=''" using assms(1) by (cases n) (auto simp: flag_name_def)
  then show
    "flag_Parse kinds vals ((CHR ''-'' # n) # v # args) = flag_Parse kinds (vals(n \<mapsto> v)) args"
    "flag_Parse kinds vals ((CHR ''-'' # CHR ''-'' # n) # v # args) = flag_Parse kinds (vals(n \<mapsto> v)) args"
    "flag_Parse kinds vals ((CHR ''-'' # n @ CHR ''='' # v) # args) = flag_Parse kinds (vals(n \<mapsto> v)) args"
    "flag_Parse kinds vals ((CHR ''-'' # CHR ''-'' # n @ CHR ''='' # v) # args) = flag_Parse kinds (vals(n \<mapsto> v)) args"
  using assms arg_kind_flag [OF assms(1), of "[]"] arg_kind_flag [OF assms(1), of "CHR ''='' # v"]
    split_value_none [OF assms(1)] split_value_some [OF assms(1), of v]
  by (simp_all add: flag_name_def hd_append)
qed

end
