(* ===== verification/QuickSpec.thy ===== *)
theory QuickSpec
  imports Config "HOL-Library.Multiset"
begin

text \<open>
  \<open>internal/quickdocker/spec.go\<close>: the deployment description of \<open>quick-docker\<close>, its validation and
  loading.  The services are a Go map: a list of distinct names in the order an iteration happens to
  visit them, which is why validation is also shown not to depend on that order.
\<close>

section \<open>The description\<close>

record ServerSection =
  sv_Listen :: string
  sv_Address :: string
  sv_Mode :: string

record ClientIdentity =
  ci_ID :: string

record ClientSection =
  cs_Identity :: ClientIdentity
  cs_Mode :: string

record SpecService =
  ss_Client :: string
  ss_Server :: string

record Spec =
  sp_Server :: ServerSection
  sp_Client :: ClientSection
  sp_ProjectName :: string
  sp_Services :: "(string \<times> SpecService) list"

datatype spec_error =
    SpecListenRequired | SpecListen addr_error | SpecAddressRequired | SpecAddress addr_error
  | ModeRequired string | ModeInvalid string string | SpecIDRequired | ProjectNameInvalid string
  | NoSpecService | EmptySpecServiceName
  | SvcClientRequired string | SvcClient string addr_error
  | SvcServerRequired string | SvcServer string addr_error | SvcServerReused string string string

section \<open>Validation\<close>

text \<open>The regular expression \<open>^[a-z0-9][a-z0-9_-]*$\<close>.\<close>

definition name_char :: "char \<Rightarrow> bool" where
  "name_char c = (let x = (of_char c :: nat) in 97 \<le> x \<and> x \<le> 122 \<or> 48 \<le> x \<and> x \<le> 57)"

fun projectNameRE :: "string \<Rightarrow> bool" where
  "projectNameRE [] = False"
| "projectNameRE (c # s) = (name_char c \<and> list_all (\<lambda>d. name_char d \<or> d = CHR ''_'' \<or> d = CHR ''-'') s)"

definition validateMode :: "string \<Rightarrow> string \<Rightarrow> spec_error option" where
  "validateMode mode field =
     (if mode = ''host'' \<or> mode = ''isolated'' then None
      else if mode = [] then Some (ModeRequired field)
      else Some (ModeInvalid field mode))"

fun validate_spec_services :: "(string \<rightharpoonup> string) \<Rightarrow> (string \<times> SpecService) list \<Rightarrow> spec_error option" where
  "validate_spec_services seen [] = None"
| "validate_spec_services seen ((name, sv) # rest) =
     (if name = [] then Some EmptySpecServiceName
      else if ss_Client sv = [] then Some (SvcClientRequired name)
      else case SplitHostPort (ss_Client sv) of
        Inl err \<Rightarrow> Some (SvcClient name err)
      | Inr _ \<Rightarrow>
        if ss_Server sv = [] then Some (SvcServerRequired name)
        else case SplitHostPort (ss_Server sv) of
          Inl err \<Rightarrow> Some (SvcServer name err)
        | Inr _ \<Rightarrow>
          (case seen (ss_Server sv) of
             Some owner \<Rightarrow> Some (SvcServerReused name (ss_Server sv) owner)
           | None \<Rightarrow> validate_spec_services (seen(ss_Server sv \<mapsto> name)) rest))"

definition Validate_spec :: "Spec \<Rightarrow> spec_error option" where
  "Validate_spec s =
     (if sv_Listen (sp_Server s) = [] then Some SpecListenRequired
      else case SplitHostPort (sv_Listen (sp_Server s)) of
        Inl err \<Rightarrow> Some (SpecListen err)
      | Inr _ \<Rightarrow>
        if sv_Address (sp_Server s) = [] then Some SpecAddressRequired
        else case SplitHostPort (sv_Address (sp_Server s)) of
          Inl err \<Rightarrow> Some (SpecAddress err)
        | Inr _ \<Rightarrow>
          (case validateMode (sv_Mode (sp_Server s)) ''server.mode'' of
             Some err \<Rightarrow> Some err
           | None \<Rightarrow>
             (case validateMode (cs_Mode (sp_Client s)) ''client.mode'' of
                Some err \<Rightarrow> Some err
              | None \<Rightarrow>
                if ci_ID (cs_Identity (sp_Client s)) = [] then Some SpecIDRequired
                else if sp_ProjectName s \<noteq> [] \<and> \<not> projectNameRE (sp_ProjectName s)
                then Some (ProjectNameInvalid (sp_ProjectName s))
                else if sp_Services s = [] then Some NoSpecService
                else validate_spec_services Map.empty (sp_Services s))))"

section \<open>Loading\<close>

datatype 'e spec_load_error = SpecOS os_error | SpecDecode string 'e | SpecInvalid string spec_error

text \<open>\<open>Decode\<close> is the YAML decoder, with its \<open>KnownFields\<close> switch.\<close>

definition Load :: "(bool \<Rightarrow> string \<Rightarrow> 'e + Spec) \<Rightarrow> fs \<Rightarrow> string \<Rightarrow> 'e spec_load_error + Spec" where
  "Load Decode s path =
     (case ReadFile s path of
        Inl err \<Rightarrow> Inl (SpecOS err)
      | Inr data \<Rightarrow>
          (case Decode True (bytes_str data) of
             Inl err \<Rightarrow> Inl (SpecDecode path err)
           | Inr spec \<Rightarrow>
               (case Validate_spec spec of
                  Some err \<Rightarrow> Inl (SpecInvalid path err)
                | None \<Rightarrow> Inr spec)))"

section \<open>What a valid description is\<close>

definition spec_service_ok :: "string \<times> SpecService \<Rightarrow> bool" where
  "spec_service_ok nsv \<longleftrightarrow> fst nsv \<noteq> [] \<and> ss_Client (snd nsv) \<noteq> [] \<and> splits (ss_Client (snd nsv)) \<and>
     ss_Server (snd nsv) \<noteq> [] \<and> splits (ss_Server (snd nsv))"

definition mode_ok :: "string \<Rightarrow> bool" where
  "mode_ok m \<longleftrightarrow> m \<in> {''host'', ''isolated''}"

definition spec_ok :: "Spec \<Rightarrow> bool" where
  "spec_ok s \<longleftrightarrow>
     sv_Listen (sp_Server s) \<noteq> [] \<and> splits (sv_Listen (sp_Server s)) \<and>
     sv_Address (sp_Server s) \<noteq> [] \<and> splits (sv_Address (sp_Server s)) \<and>
     mode_ok (sv_Mode (sp_Server s)) \<and> mode_ok (cs_Mode (sp_Client s)) \<and>
     ci_ID (cs_Identity (sp_Client s)) \<noteq> [] \<and>
     (sp_ProjectName s = [] \<or> projectNameRE (sp_ProjectName s)) \<and>
     sp_Services s \<noteq> [] \<and> (\<forall>x \<in> set (sp_Services s). spec_service_ok x) \<and>
     distinct (map (ss_Server \<circ> snd) (sp_Services s))"

lemma validateMode_None_iff: "validateMode m f = None \<longleftrightarrow> mode_ok m"
  by (simp add: validateMode_def mode_ok_def)

lemma validateMode_Some: "validateMode m f = Some e \<Longrightarrow> \<not> mode_ok m"
  by (metis option.distinct(1) validateMode_None_iff)

lemma validate_spec_services_None_iff:
  "validate_spec_services seen svcs = None \<longleftrightarrow>
     (\<forall>x \<in> set svcs. spec_service_ok x \<and> ss_Server (snd x) \<notin> dom seen) \<and> distinct (map (ss_Server \<circ> snd) svcs)"
proof (induction svcs arbitrary: seen)
  case (Cons x svcs)
  obtain name sv where x: "x = (name, sv)" by fastforce
  show ?case
  proof (cases "spec_service_ok x \<and> seen (ss_Server sv) = None")
    case True
    then have eq: "validate_spec_services seen (x # svcs) = validate_spec_services (seen(ss_Server sv \<mapsto> name)) svcs"
      by (auto simp: x spec_service_ok_def splits_def split: sum.splits)
    have "(\<forall>y \<in> set svcs. spec_service_ok y \<and> ss_Server (snd y) \<notin> dom (seen(ss_Server sv \<mapsto> name))) \<longleftrightarrow>
        (\<forall>y \<in> set svcs. spec_service_ok y \<and> ss_Server (snd y) \<notin> dom seen) \<and> ss_Server sv \<notin> (ss_Server \<circ> snd) ` set svcs"
      by force
    with True show ?thesis unfolding eq Cons.IH by (auto simp: x o_def)
  next
    case False
    then have "validate_spec_services seen (x # svcs) \<noteq> None"
      by (auto simp: x spec_service_ok_def splits_def split: sum.splits option.splits)
    moreover have "\<not> (\<forall>y \<in> set (x # svcs). spec_service_ok y \<and> ss_Server (snd y) \<notin> dom seen)"
      using False by (auto simp: x)
    ultimately show ?thesis by blast
  qed
qed simp

lemma Validate_spec_None_iff: "Validate_spec s = None \<longleftrightarrow> spec_ok s"
  unfolding Validate_spec_def spec_ok_def
  by (auto simp: validateMode_None_iff validate_spec_services_None_iff splits_def dest: validateMode_Some
      split: sum.splits option.splits)

lemma spec_ok_order:
  assumes "mset svcs = mset (sp_Services s)"
  shows "spec_ok (s\<lparr>sp_Services := svcs\<rparr>) \<longleftrightarrow> spec_ok s"
proof -
  have "set svcs = set (sp_Services s)" "svcs = [] \<longleftrightarrow> sp_Services s = []"
    using assms by (metis set_mset_mset, metis mset_zero_iff)
  moreover have "mset (map (ss_Server \<circ> snd) svcs) = mset (map (ss_Server \<circ> snd) (sp_Services s))"
    using assms by simp
  then have "distinct (map (ss_Server \<circ> snd) svcs) \<longleftrightarrow> distinct (map (ss_Server \<circ> snd) (sp_Services s))"
    by (metis mset_eq_imp_distinct_iff)
  ultimately show ?thesis by (simp add: spec_ok_def)
qed

section \<open>Properties\<close>

text \<open>
  C26: a description is accepted exactly when it satisfies the documented conditions (addresses that
  split, known modes, a client name, a project name of the stated form, services with distinct
  listening addresses), and the verdict does not depend on the order in which the services are visited.
\<close>

theorem spec_Validate_iff:
  "(Validate_spec s = None \<longleftrightarrow> spec_ok s) \<and>
   (mset svcs = mset (sp_Services s) \<longrightarrow> (Validate_spec (s\<lparr>sp_Services := svcs\<rparr>) = None \<longleftrightarrow> Validate_spec s = None))"
  by (simp add: Validate_spec_None_iff spec_ok_order)

definition ex_spec :: Spec where
  "ex_spec = \<lparr>sp_Server = \<lparr>sv_Listen = '':8443'', sv_Address = ''vps:8443'', sv_Mode = ''isolated''\<rparr>,
     sp_Client = \<lparr>cs_Identity = \<lparr>ci_ID = ''alice''\<rparr>, cs_Mode = ''host''\<rparr>, sp_ProjectName = ''demo-1'',
     sp_Services = [(''web'', \<lparr>ss_Client = ''nas:80'', ss_Server = ''10.0.0.1:80''\<rparr>),
                    (''alt'', \<lparr>ss_Client = ''nas:81'', ss_Server = ''10.0.0.2:80''\<rparr>)]\<rparr>"

lemma ex_spec_ok: "spec_ok ex_spec"
proof -
  have "splits '':8443''" "splits ''vps:8443''" "splits ''nas:80''" "splits ''nas:81''" "splits ''10.0.0.1:80''"
    "splits ''10.0.0.2:80''" "projectNameRE ''demo-1''" by code_simp+
  then show ?thesis by (simp add: spec_ok_def ex_spec_def spec_service_ok_def mode_ok_def)
qed

theorem spec_Validate_iff_witness:
  "Validate_spec ex_spec = None \<and> Validate_spec (ex_spec\<lparr>sp_Services := rev (sp_Services ex_spec)\<rparr>) = None"
  using spec_Validate_iff [of ex_spec "rev (sp_Services ex_spec)"] ex_spec_ok by simp

end
