(* ===== verification/QuickRender.thy ===== *)
theory QuickRender
  imports QuickSpec GoJson "HOL-Library.Char_ord" "HOL-Library.List_Lexorder"
begin

text \<open>
  The texts \<open>quick-docker\<close> writes (\<open>internal/quickdocker/generate.go\<close>): the two configuration files and
  the two compose files.  \<open>sort.Strings\<close> is the sorted list in the bytewise lexicographic order, which
  is the order of the library on strings.
\<close>

section \<open>Quoting\<close>

text \<open>
  The verb \<open>%q\<close>, \<open>strconv.Quote\<close>: escapes for the quote, the backslash and control characters, a byte
  escape for what is not UTF-8.  Which runes beyond ASCII are printable is a table of the Unicode
  standard, the parameter \<open>IsPrint\<close>.
\<close>

definition lowerhex :: "nat \<Rightarrow> nat \<Rightarrow> string" where
  "lowerhex width x = map (\<lambda>i. hextable ! (x div 16 ^ (width - 1 - i) mod 16)) [0..<width]"

fun rune_value :: "string \<Rightarrow> nat" where
  "rune_value [] = 0"
| "rune_value (c # cs) =
     foldl (\<lambda>v d. 64 * v + of_char d mod 64)
       (let x = (of_char c :: nat) in if x < 128 then x else if x < 224 then x mod 32 else if x < 240 then x mod 16 else x mod 8) cs"

definition escaped_rune :: "(string \<Rightarrow> bool) \<Rightarrow> string \<Rightarrow> string" where
  "escaped_rune IsPrint r =
     (let x = rune_value r in
      if x = 34 \<or> x = 92 then CHR 0x5C # r
      else if (if x < 128 then 32 \<le> x \<and> x < 127 else IsPrint r) then r
      else if x = 7 then CHR 0x5C # ''a'' else if x = 8 then CHR 0x5C # ''b'' else if x = 12 then CHR 0x5C # ''f''
      else if x = 10 then CHR 0x5C # ''n'' else if x = 13 then CHR 0x5C # ''r'' else if x = 9 then CHR 0x5C # ''t''
      else if x = 11 then CHR 0x5C # ''v''
      else if x < 32 \<or> x = 127 then CHR 0x5C # ''x'' @ lowerhex 2 x
      else if x < 65536 then CHR 0x5C # ''u'' @ lowerhex 4 x
      else CHR 0x5C # ''U'' @ lowerhex 8 x)"

function quote_runes :: "(string \<Rightarrow> bool) \<Rightarrow> string \<Rightarrow> string" where
  "quote_runes IsPrint [] = []"
| "quote_runes IsPrint (c # s) =
     (case rune_len (c # s) of
        None \<Rightarrow> CHR 0x5C # ''x'' @ lowerhex 2 (of_char c) @ quote_runes IsPrint s
      | Some n \<Rightarrow> escaped_rune IsPrint (take n (c # s)) @ quote_runes IsPrint (drop (n - 1) s))"
  by pat_completeness auto
termination by (relation "measure (length \<circ> snd)") auto

definition Quote :: "(string \<Rightarrow> bool) \<Rightarrow> string \<Rightarrow> string" where
  "Quote IsPrint s = CHR 0x22 # quote_runes IsPrint s @ [CHR 0x22]"

section \<open>Helpers\<close>

abbreviation nl :: string where "nl \<equiv> [CHR 0x0A]"

definition Image :: string where "Image = ''ghcr.io/jfhack/passage:latest''"

definition sortedServiceNames :: "(string \<times> SpecService) list \<Rightarrow> string list" where
  "sortedServiceNames m = sort (map fst m)"

text \<open>Indexing a Go map: a missing key gives the zero value.\<close>

definition service_at :: "(string \<times> SpecService) list \<Rightarrow> string \<Rightarrow> SpecService" where
  "service_at m name = (case map_of m name of Some sv \<Rightarrow> sv | None \<Rightarrow> \<lparr>ss_Client = [], ss_Server = []\<rparr>)"

definition split_or_empty :: "string \<Rightarrow> string \<times> string" where
  "split_or_empty addr = (case SplitHostPort addr of Inr hp \<Rightarrow> hp | Inl _ \<Rightarrow> ([], []))"

definition serverListenForService :: "Spec \<Rightarrow> SpecService \<Rightarrow> string" where
  "serverListenForService spec sv =
     (if sv_Mode (sp_Server spec) = ''host'' then ss_Server sv
      else ''0.0.0.0:'' @ snd (split_or_empty (ss_Server sv)))"

definition hostPortMapping :: "string \<Rightarrow> string" where
  "hostPortMapping addr =
     (let (host, port) = split_or_empty addr in
      if host = [] \<or> host = ''0.0.0.0'' \<or> host = ''::'' then port @ '':'' @ port
      else host @ '':'' @ port @ '':'' @ port)"

definition serverPublishedPorts :: "Spec \<Rightarrow> string list" where
  "serverPublishedPorts spec =
     hostPortMapping (sv_Listen (sp_Server spec)) #
     map (\<lambda>name. hostPortMapping (ss_Server (service_at (sp_Services spec) name))) (sortedServiceNames (sp_Services spec))"

definition containerName :: "Spec \<Rightarrow> string \<Rightarrow> string" where
  "containerName spec role =
     (let base = ''passage-'' @ role in
      if sp_ProjectName spec = [] then base else sp_ProjectName spec @ ''-'' @ base)"

definition composeProjectName :: "Spec \<Rightarrow> string \<Rightarrow> string" where
  "composeProjectName spec role = containerName spec role"

section \<open>The configuration files\<close>

definition renderServerYAML :: "Spec \<Rightarrow> string \<Rightarrow> string \<Rightarrow> string" where
  "renderServerYAML spec clientPubkey clientPQPubkey =
     ''listen: '' @ sv_Listen (sp_Server spec) @ nl @ nl @
     ''tls:'' @ nl @
     ''  cert: /etc/passage/server.crt'' @ nl @
     ''  key:  /etc/passage/server.key'' @ nl @ nl @
     ''clients:'' @ nl @
     ''  - id: '' @ ci_ID (cs_Identity (sp_Client spec)) @ nl @
     ''    pubkey: '' @ clientPubkey @ nl @
     ''    pq_pubkey: '' @ clientPQPubkey @ nl @
     ''    services:'' @ nl @
     concat (map (\<lambda>name.
       ''      - name: '' @ name @ nl @
       ''        listen: '' @ serverListenForService spec (service_at (sp_Services spec) name) @ nl)
       (sortedServiceNames (sp_Services spec))) @
     nl @ ''limits:'' @ nl @
     ''  max_streams_per_client: 256'' @ nl @
     ''  handshake_timeout: 10s'' @ nl @
     ''  idle_timeout: 5m'' @ nl @
     ''  heartbeat_interval: 30s'' @ nl"

definition renderClientYAML :: "Spec \<Rightarrow> string \<Rightarrow> string" where
  "renderClientYAML spec fingerprint =
     ''remote: '' @ sv_Address (sp_Server spec) @ nl @ nl @
     ''server_fingerprint: '' @ fingerprint @ nl @ nl @
     ''identity:'' @ nl @
     ''  id: '' @ ci_ID (cs_Identity (sp_Client spec)) @ nl @
     ''  privkey_file: /etc/passage/client.ed25519'' @ nl @
     ''  pq_privkey_file: /etc/passage/client.mldsa'' @ nl @ nl @
     ''services:'' @ nl @
     concat (map (\<lambda>name. ''  '' @ name @ '': '' @ ss_Client (service_at (sp_Services spec) name) @ nl)
       (sortedServiceNames (sp_Services spec))) @
     nl @ ''reconnect:'' @ nl @
     ''  initial_backoff: 1s'' @ nl @
     ''  max_backoff: 60s'' @ nl @
     ''  jitter: true'' @ nl"

section \<open>The compose files\<close>

definition renderServerCompose :: "(string \<Rightarrow> bool) \<Rightarrow> Spec \<Rightarrow> string" where
  "renderServerCompose IsPrint spec =
     ''name: '' @ composeProjectName spec ''server'' @ nl @ nl @
     ''services:'' @ nl @
     ''  passage:'' @ nl @
     ''    image: '' @ Image @ nl @
     ''    container_name: '' @ containerName spec ''server'' @ nl @
     ''    restart: unless-stopped'' @ nl @
     (if sv_Mode (sp_Server spec) = ''host'' then ''    network_mode: host'' @ nl
      else ''    ports:'' @ nl @
        concat (map (\<lambda>mapping. ''      - '' @ Quote IsPrint mapping @ nl) (serverPublishedPorts spec))) @
     ''    volumes:'' @ nl @
     ''      - ./keys/server.crt:/etc/passage/server.crt:ro'' @ nl @
     ''      - ./keys/server.key:/etc/passage/server.key:ro'' @ nl @
     ''      - ./server.yaml:/etc/passage/server.yaml:ro'' @ nl @
     ''    command: ['' @ [CHR 0x22] @ ''server'' @ [CHR 0x22] @ '', '' @ [CHR 0x22] @ ''-config'' @ [CHR 0x22] @
       '', '' @ [CHR 0x22] @ ''/etc/passage/server.yaml'' @ [CHR 0x22] @ '']'' @ nl"

definition renderClientCompose :: "Spec \<Rightarrow> string" where
  "renderClientCompose spec =
     ''name: '' @ composeProjectName spec ''client'' @ nl @ nl @
     ''services:'' @ nl @
     ''  passage:'' @ nl @
     ''    image: '' @ Image @ nl @
     ''    container_name: '' @ containerName spec ''client'' @ nl @
     ''    restart: unless-stopped'' @ nl @
     (if cs_Mode (sp_Client spec) = ''host'' then ''    network_mode: host'' @ nl else []) @
     ''    volumes:'' @ nl @
     ''      - ./keys/client.ed25519:/etc/passage/client.ed25519:ro'' @ nl @
     ''      - ./keys/client.mldsa:/etc/passage/client.mldsa:ro'' @ nl @
     ''      - ./client.yaml:/etc/passage/client.yaml:ro'' @ nl @
     ''    command: ['' @ [CHR 0x22] @ ''client'' @ [CHR 0x22] @ '', '' @ [CHR 0x22] @ ''-config'' @ [CHR 0x22] @
       '', '' @ [CHR 0x22] @ ''/etc/passage/client.yaml'' @ [CHR 0x22] @ '']'' @ nl"

end
