(* ===== verification/GoYaml.thy ===== *)
theory GoYaml
  imports Config GoEncoding "HOL-Library.Monad_Syntax" "HOL-Library.Multiset"
begin

text \<open>
  The part of YAML the generated configuration files use, and what it means as a configuration: block
  mappings and block sequences of mappings, told apart by indentation, with plain scalars of a cautious
  set of characters.  The YAML decoder of the program (\<open>yaml.v3\<close>, with \<open>KnownFields\<close>) stays a parameter;
  this reader says what is expected of it, and only on the texts the reader accepts.  A scalar that YAML
  would quote, or read as null, a flow collection, a comment, a repeated or unknown key, a tab: all of
  them are outside the part, and nothing is said of them.
\<close>

section \<open>Scalars and keys\<close>

definition is_letter :: "char \<Rightarrow> bool" where
  "is_letter c \<longleftrightarrow> (let n = (of_char c :: nat) in 65 \<le> n \<and> n \<le> 90 \<or> 97 \<le> n \<and> n \<le> 122)"

definition plain_char :: "char \<Rightarrow> bool" where
  "plain_char c \<longleftrightarrow> is_letter c \<or> is_digit c \<or> c \<in> set ''._:/+=@-''"

definition plain_scalar :: "string \<Rightarrow> bool" where
  "plain_scalar v \<longleftrightarrow> v \<noteq> [] \<and> list_all plain_char v \<and>
     (is_letter (hd v) \<or> is_digit (hd v) \<or> hd v \<in> set ''/:'') \<and> last v \<noteq> CHR '':'' \<and>
     v \<notin> {''null'', ''Null'', ''NULL''}"

text \<open>A key of a block mapping ends within 1024 characters.\<close>

definition plain_key :: "string \<Rightarrow> bool" where
  "plain_key k \<longleftrightarrow> plain_scalar k \<and> hd k \<noteq> CHR '':'' \<and> length k < 1024"

section \<open>Lines\<close>

abbreviation newline :: char where "newline \<equiv> CHR 0x0A"
abbreviation space :: char where "space \<equiv> CHR 0x20"

fun split_lines :: "string \<Rightarrow> string list" where
  "split_lines [] = [[]]"
| "split_lines (c # s) =
     (case split_lines s of
        [] \<Rightarrow> []
      | l # ls \<Rightarrow> if c = newline then [] # l # ls else (c # l) # ls)"

text \<open>The text before the first colon that is followed by a space or the end, and what follows the spaces.\<close>

fun split_key :: "string \<Rightarrow> (string \<times> string) option" where
  "split_key [] = None"
| "split_key (c # s) =
     (if c = CHR '':'' \<and> (s = [] \<or> hd s = space) then Some ([], dropWhile (\<lambda>c. c = space) s)
      else map_option (apfst (Cons c)) (split_key s))"

text \<open>A line: its indentation, whether a sequence item starts there, a key and a scalar or nothing.\<close>

record yline =
  yl_indent :: nat
  yl_dash :: bool
  yl_key :: string
  yl_value :: string

definition lex_line :: "string \<Rightarrow> yline option" where
  "lex_line l =
     (let body = dropWhile (\<lambda>c. c = space) l;
          dash = (take 2 body = ''- '')
      in case split_key (if dash then drop 2 body else body) of
           None \<Rightarrow> None
         | Some (k, v) \<Rightarrow>
             if plain_key k \<and> (v = [] \<or> plain_scalar v)
             then Some \<lparr>yl_indent = length l - length body, yl_dash = dash, yl_key = k, yl_value = v\<rparr>
             else None)"

fun lex_lines :: "string list \<Rightarrow> yline list option" where
  "lex_lines [] = Some []"
| "lex_lines (l # ls) =
     (if list_all (\<lambda>c. c = space) l then lex_lines ls
      else case lex_line l of None \<Rightarrow> None | Some y \<Rightarrow> map_option (Cons y) (lex_lines ls))"

section \<open>Blocks\<close>

datatype ynode = YScalar string | YMap "(string \<times> ynode) list" | YSeq "ynode list"

text \<open>The lines of a block are those indented deeper than the line that opens it.\<close>

definition deeper :: "nat \<Rightarrow> yline \<Rightarrow> bool" where
  "deeper n y \<longleftrightarrow> n < yl_indent y"

text \<open>A sequence item is a mapping whose first line has the dash and a space for indentation.\<close>

definition undash :: "yline \<Rightarrow> yline" where
  "undash y = y\<lparr>yl_indent := yl_indent y + 2, yl_dash := False\<rparr>"

lemma block_shorter:
  "3 * length (takeWhile P ls) < 3 + 3 * length ls" "3 * length (dropWhile P ls) < 3 + 3 * length ls"
  "Suc (Suc (3 * length (takeWhile P ls))) < 3 + 3 * length ls"
  using length_takeWhile_le [of P ls] length_dropWhile_le [of P ls] by linarith+

function parse_node :: "yline list \<Rightarrow> ynode option"
  and parse_map :: "nat \<Rightarrow> yline list \<Rightarrow> (string \<times> ynode) list option"
  and parse_seq :: "nat \<Rightarrow> yline list \<Rightarrow> ynode list option" where
  "parse_node ls =
     (case ls of
        [] \<Rightarrow> None
      | y # _ \<Rightarrow> if yl_dash y then map_option YSeq (parse_seq (yl_indent y) ls)
                 else map_option YMap (parse_map (yl_indent y) ls))"
| "parse_map n [] = Some []"
| "parse_map n (y # ls) =
     (if yl_indent y \<noteq> n \<or> yl_dash y then None
      else case (if yl_value y = [] then parse_node (takeWhile (deeper n) ls)
                 else if takeWhile (deeper n) ls = [] then Some (YScalar (yl_value y)) else None) of
             None \<Rightarrow> None
           | Some v \<Rightarrow>
               (case parse_map n (dropWhile (deeper n) ls) of
                  None \<Rightarrow> None
                | Some m \<Rightarrow> if yl_key y \<in> fst ` set m then None else Some ((yl_key y, v) # m)))"
| "parse_seq n [] = Some []"
| "parse_seq n (y # ls) =
     (if yl_indent y \<noteq> n \<or> \<not> yl_dash y then None
      else case parse_map (n + 2) (undash y # takeWhile (deeper n) ls) of
             None \<Rightarrow> None
           | Some m \<Rightarrow> map_option (Cons (YMap m)) (parse_seq n (dropWhile (deeper n) ls)))"
  by pat_completeness auto
termination
  by (relation "measure (\<lambda>x. case x of Inl ls \<Rightarrow> 3 * length ls + 2
      | Inr (Inl (n, ls)) \<Rightarrow> 3 * length ls | Inr (Inr (n, ls)) \<Rightarrow> 3 * length ls + 1)")
    (auto simp: block_shorter less_Suc_eq_le intro: length_takeWhile_le)

declare parse_node.simps [simp del]

lemma parse_node_simps [simp]:
  "parse_node [] = None"
  "parse_node (y # ls) = (if yl_dash y then map_option YSeq (parse_seq (yl_indent y) (y # ls))
     else map_option YMap (parse_map (yl_indent y) (y # ls)))"
  by (simp_all add: parse_node.simps)

text \<open>One entry of a mapping at a time: a scalar, or a block.\<close>

lemma parse_map_scalar:
  assumes "yl_indent y = n" and "\<not> yl_dash y" and "yl_value y \<noteq> []" and "ls = [] \<or> \<not> deeper n (hd ls)"
    and "parse_map n ls = Some m" and "yl_key y \<notin> fst ` set m"
  shows "parse_map n (y # ls) = Some ((yl_key y, YScalar (yl_value y)) # m)"
proof -
  have "takeWhile (deeper n) ls = []" "dropWhile (deeper n) ls = ls" using assms(4) by (cases ls; simp)+
  with assms show ?thesis by simp
qed

lemma parse_map_block:
  assumes "yl_indent y = n" and "\<not> yl_dash y" and "yl_value y = []" and "\<forall>x \<in> set b. deeper n x"
    and "ls = [] \<or> \<not> deeper n (hd ls)" and "parse_node b = Some t" and "parse_map n ls = Some m" and "yl_key y \<notin> fst ` set m"
  shows "parse_map n (y # b @ ls) = Some ((yl_key y, t) # m)"
proof -
  have "takeWhile (deeper n) ls = []" "dropWhile (deeper n) ls = ls" using assms(5) by (cases ls; simp)+
  with assms show ?thesis by simp
qed

text \<open>A document is a mapping; an empty one is the end of the input to a decoder, and not read here.\<close>

definition read_yaml :: "string \<Rightarrow> (string \<times> ynode) list option" where
  "read_yaml t =
     (case lex_lines (split_lines t) of
        None \<Rightarrow> None
      | Some ls \<Rightarrow> if ls = [] then None else parse_map 0 ls)"

section \<open>Configurations\<close>

text \<open>
  The types of the fields, and the names of the fields as the tags in \<open>config.go\<close> have them.  A missing
  field has its zero value; an unknown one is refused.
\<close>

definition known :: "string list \<Rightarrow> (string \<times> ynode) list \<Rightarrow> bool" where
  "known ks m \<longleftrightarrow> list_all (\<lambda>(k, _). k \<in> set ks) m"

definition field :: "(ynode \<Rightarrow> 'a option) \<Rightarrow> 'a \<Rightarrow> (string \<times> ynode) list \<Rightarrow> string \<Rightarrow> 'a option" where
  "field dec zero m k = (case map_of m k of None \<Rightarrow> Some zero | Some t \<Rightarrow> dec t)"

fun as_string :: "ynode \<Rightarrow> string option" where
  "as_string (YScalar v) = Some v"
| "as_string t = None"

fun as_int :: "ynode \<Rightarrow> int64 option" where
  "as_int (YScalar v) =
     (if v \<noteq> [] \<and> list_all is_digit v \<and> hd v \<noteq> CHR ''0'' \<and> length v \<le> 18 then Some (of_nat (dec_val v)) else None)"
| "as_int t = None"

fun as_bool :: "ynode \<Rightarrow> bool option" where
  "as_bool (YScalar v) = (if v = ''true'' then Some True else if v = ''false'' then Some False else None)"
| "as_bool t = None"

text \<open>A duration: a few digits and a unit, seconds or minutes.\<close>

fun as_duration :: "ynode \<Rightarrow> Duration option" where
  "as_duration (YScalar v) =
     (let n = takeWhile is_digit v; unit = dropWhile is_digit v in
      if n = [] \<or> 6 < length n then None
      else if unit = ''s'' then Some (of_nat (dec_val n) * Second)
      else if unit = ''m'' then Some (of_nat (dec_val n) * Minute)
      else None)"
| "as_duration t = None"

fun as_seq :: "(ynode \<Rightarrow> 'a option) \<Rightarrow> ynode \<Rightarrow> 'a list option" where
  "as_seq dec (YSeq ts) = those (map dec ts)"
| "as_seq dec t = None"

fun as_struct :: "string list \<Rightarrow> ((string \<times> ynode) list \<Rightarrow> 'a option) \<Rightarrow> ynode \<Rightarrow> 'a option" where
  "as_struct ks dec (YMap m) = (if known ks m then dec m else None)"
| "as_struct ks dec t = None"

fun as_map :: "ynode \<Rightarrow> (string \<times> string) list option" where
  "as_map (YMap m) = those (map (\<lambda>(k, t). map_option (Pair k) (as_string t)) m)"
| "as_map t = None"

text \<open>A key, or a list of keys: the program's own \<open>UnmarshalYAML\<close> on these nodes.\<close>

fun node_kind :: "ynode \<Rightarrow> yaml_kind" where
  "node_kind (YScalar v) = ScalarNode"
| "node_kind (YMap m) = MappingNode"
| "node_kind (YSeq ts) = SequenceNode"

definition or_error :: "'a option \<Rightarrow> unit + 'a" where
  "or_error x = (case x of None \<Rightarrow> Inl () | Some y \<Rightarrow> Inr y)"

definition as_keys :: "ynode \<Rightarrow> StringOrSlice option" where
  "as_keys t =
     (case UnmarshalYAML node_kind (\<lambda>t. or_error (as_string t)) (\<lambda>t. or_error (as_seq as_string t)) t of
        Inl _ \<Rightarrow> None
      | Inr ks \<Rightarrow> Some ks)"

definition as_TLSConfig :: "ynode \<Rightarrow> TLSConfig option" where
  "as_TLSConfig = as_struct [''cert'', ''key''] (\<lambda>m. do {
     cert \<leftarrow> field as_string [] m ''cert'';
     key \<leftarrow> field as_string [] m ''key'';
     Some \<lparr>tls_Cert = cert, tls_Key = key\<rparr> })"

definition as_ServiceEntry :: "ynode \<Rightarrow> ServiceEntry option" where
  "as_ServiceEntry = as_struct [''name'', ''listen'', ''allowed_user_cidrs''] (\<lambda>m. do {
     name \<leftarrow> field as_string [] m ''name'';
     listen \<leftarrow> field as_string [] m ''listen'';
     cidrs \<leftarrow> field (as_seq as_string) [] m ''allowed_user_cidrs'';
     Some \<lparr>se_Name = name, se_Listen = listen, se_AllowedUserCIDRs = cidrs\<rparr> })"

definition as_ClientEntry :: "ynode \<Rightarrow> ClientEntry option" where
  "as_ClientEntry = as_struct [''id'', ''pubkey'', ''pq_pubkey'', ''services''] (\<lambda>m. do {
     i \<leftarrow> field as_string [] m ''id'';
     pub \<leftarrow> field as_keys [] m ''pubkey'';
     pq \<leftarrow> field as_keys [] m ''pq_pubkey'';
     svcs \<leftarrow> field (as_seq as_ServiceEntry) [] m ''services'';
     Some \<lparr>ce_ID = i, ce_Pubkey = pub, ce_PQPubkey = pq, ce_Services = svcs\<rparr> })"

definition zero_limits :: LimitsConfig where
  "zero_limits = \<lparr>lim_MaxStreamsPerClient = 0, lim_HandshakeTimeout = 0, lim_IdleTimeout = 0, lim_HeartbeatInterval = 0\<rparr>"

definition as_LimitsConfig :: "ynode \<Rightarrow> LimitsConfig option" where
  "as_LimitsConfig = as_struct [''max_streams_per_client'', ''handshake_timeout'', ''idle_timeout'', ''heartbeat_interval''] (\<lambda>m. do {
     streams \<leftarrow> field as_int 0 m ''max_streams_per_client'';
     handshake \<leftarrow> field as_duration 0 m ''handshake_timeout'';
     idle \<leftarrow> field as_duration 0 m ''idle_timeout'';
     heartbeat \<leftarrow> field as_duration 0 m ''heartbeat_interval'';
     Some \<lparr>lim_MaxStreamsPerClient = streams, lim_HandshakeTimeout = handshake, lim_IdleTimeout = idle,
       lim_HeartbeatInterval = heartbeat\<rparr> })"

definition read_server :: "string \<Rightarrow> ServerConfig option" where
  "read_server t = do {
     root \<leftarrow> read_yaml t;
     as_struct [''listen'', ''tls'', ''clients'', ''limits''] (\<lambda>m. do {
       listen \<leftarrow> field as_string [] m ''listen'';
       tls \<leftarrow> field as_TLSConfig \<lparr>tls_Cert = [], tls_Key = []\<rparr> m ''tls'';
       clients \<leftarrow> field (as_seq as_ClientEntry) [] m ''clients'';
       limits \<leftarrow> field as_LimitsConfig zero_limits m ''limits'';
       Some \<lparr>sc_Listen = listen, sc_TLS = tls, sc_Clients = clients, sc_Limits = limits\<rparr> }) (YMap root) }"

definition as_IdentityConfig :: "ynode \<Rightarrow> IdentityConfig option" where
  "as_IdentityConfig = as_struct [''id'', ''privkey_file'', ''pq_privkey_file''] (\<lambda>m. do {
     i \<leftarrow> field as_string [] m ''id'';
     key \<leftarrow> field as_string [] m ''privkey_file'';
     pq \<leftarrow> field as_string [] m ''pq_privkey_file'';
     Some \<lparr>id_ID = i, id_PrivkeyFile = key, id_PQPrivkeyFile = pq\<rparr> })"

definition as_ReconnectConfig :: "ynode \<Rightarrow> ReconnectConfig option" where
  "as_ReconnectConfig = as_struct [''initial_backoff'', ''max_backoff'', ''jitter''] (\<lambda>m. do {
     initial \<leftarrow> field as_duration 0 m ''initial_backoff'';
     maximum \<leftarrow> field as_duration 0 m ''max_backoff'';
     jitter \<leftarrow> field as_bool False m ''jitter'';
     Some \<lparr>rc_InitialBackoff = initial, rc_MaxBackoff = maximum, rc_Jitter = jitter\<rparr> })"

definition read_client :: "string \<Rightarrow> ClientConfig option" where
  "read_client t = do {
     root \<leftarrow> read_yaml t;
     as_struct [''remote'', ''server_fingerprint'', ''identity'', ''services'', ''reconnect''] (\<lambda>m. do {
       remote \<leftarrow> field as_string [] m ''remote'';
       fingerprint \<leftarrow> field as_string [] m ''server_fingerprint'';
       identity \<leftarrow> field as_IdentityConfig \<lparr>id_ID = [], id_PrivkeyFile = [], id_PQPrivkeyFile = []\<rparr> m ''identity'';
       svcs \<leftarrow> field as_map [] m ''services'';
       reconnect \<leftarrow> field as_ReconnectConfig \<lparr>rc_InitialBackoff = 0, rc_MaxBackoff = 0, rc_Jitter = False\<rparr> m ''reconnect'';
       Some \<lparr>cc_Remote = remote, cc_ServerFingerprint = fingerprint, cc_Identity = identity, cc_Services = svcs,
         cc_Reconnect = reconnect\<rparr> }) (YMap root) }"

section \<open>What is expected of a decoder\<close>

text \<open>
  On a text of this part, the strict decoder returns the configuration read here.  The entries of a map
  come in any order, as Go's \<open>range\<close> may visit them.
\<close>

definition reads_server :: "(bool \<Rightarrow> string \<Rightarrow> 'e + ServerConfig) \<Rightarrow> bool" where
  "reads_server Decode \<longleftrightarrow> (\<forall>t cfg. read_server t = Some cfg \<longrightarrow> Decode True t = Inr cfg)"

definition reads_client :: "(bool \<Rightarrow> string \<Rightarrow> 'e + ClientConfig) \<Rightarrow> bool" where
  "reads_client Decode \<longleftrightarrow> (\<forall>t cfg. read_client t = Some cfg \<longrightarrow>
     (\<exists>svcs. mset svcs = mset (cc_Services cfg) \<and> Decode True t = Inr (cfg\<lparr>cc_Services := svcs\<rparr>)))"

section \<open>Reading a laid out text back\<close>

text \<open>A line as it is laid out, with some spaces before its value, and a text of lines and empty lines.\<close>

definition line_text :: "nat \<times> yline \<Rightarrow> string" where
  "line_text = (\<lambda>(pad, y).
     replicate (yl_indent y) space @ (if yl_dash y then ''- '' else []) @ yl_key y @ CHR '':'' #
     (if yl_value y = [] then [] else replicate pad space @ yl_value y))"

definition doc_text :: "(nat \<times> yline) option list \<Rightarrow> string" where
  "doc_text es = concat (map (\<lambda>e. (case e of None \<Rightarrow> [] | Some l \<Rightarrow> line_text l) @ [newline]) es)"

definition line_ok :: "nat \<times> yline \<Rightarrow> bool" where
  "line_ok = (\<lambda>(pad, y). 0 < pad \<and> plain_key (yl_key y) \<and> (yl_value y = [] \<or> plain_scalar (yl_value y)))"

lemma plain_char_not: "plain_char c \<Longrightarrow> c \<noteq> space \<and> c \<noteq> newline"
  by (auto simp: plain_char_def is_letter_def is_digit_def)

lemma plain_scalar_chars:
  assumes "plain_scalar v"
  shows "v \<noteq> []" "space \<notin> set v" "newline \<notin> set v" "dropWhile (\<lambda>c. c = space) v = v" "hd v \<noteq> CHR ''-''"
proof -
  have p: "\<forall>c \<in> set v. plain_char c" "v \<noteq> []" "is_letter (hd v) \<or> is_digit (hd v) \<or> hd v \<in> set ''/:''"
    using assms by (simp_all add: plain_scalar_def list_all_iff)
  then show "v \<noteq> []" "space \<notin> set v" "newline \<notin> set v" using plain_char_not by blast+
  then show "dropWhile (\<lambda>c. c = space) v = v" by (cases v) auto
  show "hd v \<noteq> CHR ''-''" using p(3) by (auto simp: is_letter_def is_digit_def)
qed

lemma split_lines_line: "newline \<notin> set l \<Longrightarrow> split_lines (l @ newline # s) = l # split_lines s"
proof (induction l)
  case Nil
  have "split_lines s \<noteq> []" by (induction s) (auto split: list.splits)
  then show ?case by (auto split: list.splits)
qed auto

lemma split_key_plain:
  assumes "space \<notin> set k" and "k \<noteq> []" and "last k \<noteq> CHR '':''" and "r = [] \<or> hd r = space"
  shows "split_key (k @ CHR '':'' # r) = Some (k, dropWhile (\<lambda>c. c = space) r)"
  using assms(1-3)
proof (induction k)
  case (Cons c k)
  show ?case
  proof (cases "k = []")
    case True
    with Cons.prems assms(4) show ?thesis by simp
  next
    case False
    with Cons show ?thesis by (cases k) (auto split: if_splits)
  qed
qed simp

lemma lex_line_text:
  assumes "line_ok (pad, y)"
  shows "lex_line (line_text (pad, y)) = Some y" "newline \<notin> set (line_text (pad, y))"
    "\<not> list_all (\<lambda>c. c = space) (line_text (pad, y))"
proof -
  let ?k = "yl_key y" and ?v = "yl_value y"
  let ?r = "if ?v = [] then [] else replicate pad space @ ?v"
  have ok: "plain_key ?k" "?v = [] \<or> plain_scalar ?v" "0 < pad" using assms by (simp_all add: line_ok_def)
  then have k: "plain_scalar ?k" "last ?k \<noteq> CHR '':''" unfolding plain_key_def plain_scalar_def by blast+
  note kc = plain_scalar_chars [OF k(1)]
  have vc: "newline \<notin> set ?v" "dropWhile (\<lambda>c. c = space) ?v = ?v" using ok(2) plain_scalar_chars by fastforce+
  have drop: "dropWhile (\<lambda>c. c = space) (replicate n space @ t) = dropWhile (\<lambda>c. c = space) t" for n t
    by (induction n) simp_all
  have body: "dropWhile (\<lambda>c. c = space) (?k @ t) = ?k @ t" for t
    using kc(1,2) by (cases ?k) auto
  have sk: "split_key (?k @ CHR '':'' # ?r) = Some (?k, ?v)"
    using split_key_plain [OF kc(2,1) k(2), of ?r] ok(3) vc(2) drop [of pad ?v] by (cases pad) auto
  have nodash: "take 2 (?k @ CHR '':'' # ?r) \<noteq> ''- ''" using kc(1,5) by (cases ?k) auto
  show "lex_line (line_text (pad, y)) = Some y"
    using ok(1,2) sk nodash body [of "CHR '':'' # ?r"]
    by (cases "yl_dash y") (simp_all add: lex_line_def line_text_def drop)
  show "newline \<notin> set (line_text (pad, y))" using kc(3) vc(1) by (auto simp: line_text_def)
  show "\<not> list_all (\<lambda>c. c = space) (line_text (pad, y))" by (auto simp: line_text_def list_all_iff)
qed

lemma read_doc:
  assumes "list_all (\<lambda>e. case e of None \<Rightarrow> True | Some l \<Rightarrow> line_ok l) es"
  shows "lex_lines (split_lines (doc_text es)) = Some (map snd (List.map_filter (\<lambda>e. e) es))"
  using assms
proof (induction es)
  case (Cons e es)
  then show ?case
  proof (cases e)
    case (Some l)
    with Cons lex_line_text [of "fst l" "snd l"] show ?thesis
      by (simp add: doc_text_def split_lines_line map_filter_simps)
  qed (auto simp: doc_text_def split_lines_line [of "[]", simplified] map_filter_simps)
qed (simp add: doc_text_def map_filter_simps)

end
