(* ===== verification/QuickYaml.thy ===== *)
theory QuickYaml
  imports QuickRender GoYaml
begin

text \<open>
  What the two configuration files \<open>quick-docker\<close> writes mean to the programs that load them: the printed
  texts read as YAML, and the configurations that come out of loading them.
\<close>

section \<open>What the configuration files say\<close>

text \<open>
  The fields of a description are printed without quotes, so they are taken to be scalars that YAML reads
  as they stand (\<open>plain_scalar\<close>); the program does not check it.
\<close>

definition plain_spec :: "Spec \<Rightarrow> bool" where
  "plain_spec spec \<longleftrightarrow> plain_scalar (sv_Listen (sp_Server spec)) \<and> plain_scalar (sv_Address (sp_Server spec)) \<and>
     plain_scalar (ci_ID (cs_Identity (sp_Client spec))) \<and>
     (\<forall>(name, sv) \<in> set (sp_Services spec). plain_key name \<and> plain_scalar (ss_Client sv) \<and> plain_scalar (ss_Server sv))"

abbreviation yl :: "nat \<Rightarrow> bool \<Rightarrow> string \<Rightarrow> string \<Rightarrow> yline" where
  "yl n d k v \<equiv> \<lparr>yl_indent = n, yl_dash = d, yl_key = k, yl_value = v\<rparr>"

definition server_services :: "(string \<times> string) list \<Rightarrow> (nat \<times> yline) option list" where
  "server_services nls = concat (map (\<lambda>(n, l). [Some (1, yl 6 True ''name'' n), Some (1, yl 8 False ''listen'' l)]) nls)"

definition server_doc :: "string \<Rightarrow> string \<Rightarrow> string \<Rightarrow> string \<Rightarrow> (string \<times> string) list \<Rightarrow> (nat \<times> yline) option list" where
  "server_doc listen i k pk nls =
     [Some (1, yl 0 False ''listen'' listen), None,
      Some (1, yl 0 False ''tls'' []), Some (1, yl 2 False ''cert'' ''/etc/passage/server.crt''),
      Some (2, yl 2 False ''key'' ''/etc/passage/server.key''), None,
      Some (1, yl 0 False ''clients'' []), Some (1, yl 2 True ''id'' i), Some (1, yl 4 False ''pubkey'' k),
      Some (1, yl 4 False ''pq_pubkey'' pk), Some (1, yl 4 False ''services'' [])] @
     server_services nls @
     [None, Some (1, yl 0 False ''limits'' []), Some (1, yl 2 False ''max_streams_per_client'' ''256''),
      Some (1, yl 2 False ''handshake_timeout'' ''10s''), Some (1, yl 2 False ''idle_timeout'' ''5m''),
      Some (1, yl 2 False ''heartbeat_interval'' ''30s'')]"

definition client_doc :: "string \<Rightarrow> string \<Rightarrow> string \<Rightarrow> (string \<times> string) list \<Rightarrow> (nat \<times> yline) option list" where
  "client_doc remote fp i nts =
     [Some (1, yl 0 False ''remote'' remote), None, Some (1, yl 0 False ''server_fingerprint'' fp), None,
      Some (1, yl 0 False ''identity'' []), Some (1, yl 2 False ''id'' i),
      Some (1, yl 2 False ''privkey_file'' ''/etc/passage/client.ed25519''),
      Some (1, yl 2 False ''pq_privkey_file'' ''/etc/passage/client.mldsa''), None,
      Some (1, yl 0 False ''services'' [])] @
     map (\<lambda>(n, t). Some (1, yl 2 False n t)) nts @
     [None, Some (1, yl 0 False ''reconnect'' []), Some (1, yl 2 False ''initial_backoff'' ''1s''),
      Some (1, yl 2 False ''max_backoff'' ''60s''), Some (1, yl 2 False ''jitter'' ''true'')]"

definition names_listens :: "Spec \<Rightarrow> (string \<times> string) list" where
  "names_listens spec = map (\<lambda>name. (name, serverListenForService spec (service_at (sp_Services spec) name)))
     (sortedServiceNames (sp_Services spec))"

definition names_targets :: "Spec \<Rightarrow> (string \<times> string) list" where
  "names_targets spec = map (\<lambda>name. (name, ss_Client (service_at (sp_Services spec) name)))
     (sortedServiceNames (sp_Services spec))"

lemma doc_text_simps [simp]:
  "doc_text [] = []" "doc_text (es @ es') = doc_text es @ doc_text es'"
  "doc_text (None # es) = newline # doc_text es" "doc_text (Some l # es) = line_text l @ newline # doc_text es"
  by (simp_all add: doc_text_def)

lemma indents: "replicate 2 space = ''  ''" "replicate 4 space = ''    ''" "replicate 6 space = ''      ''"
  "replicate 8 space = ''        ''"
  by (simp_all add: eval_nat_numeral)

lemma renderServerYAML_doc:
  assumes "plain_spec spec" and "k \<noteq> []" and "pk \<noteq> []" and "\<forall>(n, l) \<in> set (names_listens spec). n \<noteq> [] \<and> l \<noteq> []"
  shows "renderServerYAML spec k pk =
    doc_text (server_doc (sv_Listen (sp_Server spec)) (ci_ID (cs_Identity (sp_Client spec))) k pk (names_listens spec))"
proof -
  have "doc_text (server_services nls) =
      concat (map (\<lambda>(n, l). ''      - name: '' @ n @ nl @ ''        listen: '' @ l @ nl) nls)"
    if "\<forall>(n, l) \<in> set nls. n \<noteq> [] \<and> l \<noteq> []" for nls
    using that by (induction nls) (auto simp: server_services_def line_text_def indents)
  note svc = this [OF assms(4)]
  have "sv_Listen (sp_Server spec) \<noteq> []" "ci_ID (cs_Identity (sp_Client spec)) \<noteq> []"
    using assms(1) by (simp_all add: plain_spec_def plain_scalar_def)
  with assms(2,3) show ?thesis
    unfolding server_doc_def doc_text_simps svc
    by (simp add: line_text_def indents renderServerYAML_def names_listens_def o_def)
qed

lemma renderClientYAML_doc:
  assumes "plain_spec spec" and "fp \<noteq> []" and "\<forall>(n, t) \<in> set (names_targets spec). t \<noteq> []"
  shows "renderClientYAML spec fp =
    doc_text (client_doc (sv_Address (sp_Server spec)) fp (ci_ID (cs_Identity (sp_Client spec))) (names_targets spec))"
proof -
  have "doc_text (map (\<lambda>(n, t). Some (1, yl 2 False n t)) nts) = concat (map (\<lambda>(n, t). ''  '' @ n @ '': '' @ t @ nl) nts)"
    if "\<forall>(n, t) \<in> set nts. t \<noteq> []" for nts
    using that by (induction nts) (auto simp: line_text_def indents)
  note svc = this [OF assms(3)]
  have "sv_Address (sp_Server spec) \<noteq> []" "ci_ID (cs_Identity (sp_Client spec)) \<noteq> []"
    using assms(1) by (simp_all add: plain_spec_def plain_scalar_def)
  with assms(2) show ?thesis
    unfolding client_doc_def doc_text_simps svc
    by (simp add: line_text_def indents renderClientYAML_def names_targets_def o_def)
qed

lemma plain_words:
  "plain_key ''listen''" "plain_key ''tls''" "plain_key ''cert''" "plain_key ''key''" "plain_key ''clients''" "plain_key ''id''"
  "plain_key ''pubkey''" "plain_key ''pq_pubkey''" "plain_key ''services''" "plain_key ''limits''"
  "plain_key ''max_streams_per_client''" "plain_key ''handshake_timeout''" "plain_key ''idle_timeout''"
  "plain_key ''heartbeat_interval''" "plain_key ''name''" "plain_key ''remote''" "plain_key ''server_fingerprint''"
  "plain_key ''identity''" "plain_key ''privkey_file''" "plain_key ''pq_privkey_file''" "plain_key ''reconnect''"
  "plain_key ''initial_backoff''" "plain_key ''max_backoff''" "plain_key ''jitter''"
  "plain_scalar ''/etc/passage/server.crt''" "plain_scalar ''/etc/passage/server.key''" "plain_scalar ''256''"
  "plain_scalar ''10s''" "plain_scalar ''5m''" "plain_scalar ''30s''" "plain_scalar ''/etc/passage/client.ed25519''"
  "plain_scalar ''/etc/passage/client.mldsa''" "plain_scalar ''1s''" "plain_scalar ''60s''" "plain_scalar ''true''"
  by code_simp+

lemma doc_lines_append: "List.map_filter f (xs @ ys) = List.map_filter f xs @ List.map_filter f ys"
  by (simp add: List.map_filter_def)

text \<open>The block of services, whatever their number.\<close>

definition service_lines :: "(string \<times> string) list \<Rightarrow> yline list" where
  "service_lines nls = concat (map (\<lambda>(n, l). [yl 6 True ''name'' n, yl 8 False ''listen'' l]) nls)"

definition service_nodes :: "(string \<times> string) list \<Rightarrow> ynode list" where
  "service_nodes nls = map (\<lambda>(n, l). YMap [(''name'', YScalar n), (''listen'', YScalar l)]) nls"

lemma parse_services:
  assumes "\<forall>(n, l) \<in> set nls. n \<noteq> [] \<and> l \<noteq> []"
  shows "parse_seq 6 (service_lines nls) = Some (service_nodes nls)"
  using assms
proof (induction nls)
  case (Cons nl nls)
  obtain n l where nl: "nl = (n, l)" by fastforce
  have hd: "service_lines nls = [] \<or> yl_indent (hd (service_lines nls)) = 6"
    by (cases nls) (auto simp: service_lines_def)
  then have "takeWhile (deeper 6) (service_lines nls) = []" "dropWhile (deeper 6) (service_lines nls) = service_lines nls"
    by (cases "service_lines nls"; simp add: deeper_def)+
  moreover have "service_lines (nl # nls) = yl 6 True ''name'' n # yl 8 False ''listen'' l # service_lines nls"
    by (simp add: nl service_lines_def)
  ultimately show ?case
    using Cons by (simp add: nl service_nodes_def deeper_def undash_def)
qed (simp add: service_lines_def service_nodes_def)

lemma parse_service_block:
  assumes "\<forall>(n, l) \<in> set nls. n \<noteq> [] \<and> l \<noteq> []" and "nls \<noteq> []"
  shows "parse_node (service_lines nls) = Some (YSeq (service_nodes nls))"
  using parse_services [OF assms(1)] assms(2)
  by (cases nls) (auto simp: service_lines_def simp del: parse_seq.simps)

lemma service_lines_deeper: "n < 6 \<Longrightarrow> \<forall>y \<in> set (service_lines nls). deeper n y"
  by (auto simp: service_lines_def deeper_def)

lemma service_lines_block:
  assumes "n < 6"
  shows "takeWhile (deeper n) (service_lines nls) = service_lines nls" "dropWhile (deeper n) (service_lines nls) = []"
  using service_lines_deeper [OF assms, of nls] by simp_all

lemma those_map: "\<forall>x \<in> set xs. f x = Some (g x) \<Longrightarrow> those (map f xs) = Some (map g xs)"
  by (induction xs) auto

lemma decoded_services:
  "those (map as_ServiceEntry (service_nodes nls)) =
     Some (map (\<lambda>(n, l). \<lparr>se_Name = n, se_Listen = l, se_AllowedUserCIDRs = []\<rparr>) nls)"
  unfolding service_nodes_def map_map
  by (rule those_map) (auto simp: as_ServiceEntry_def known_def field_def)

lemma read_scalars:
  "as_int (YScalar ''256'') = Some 256" "as_duration (YScalar ''10s'') = Some (10 * Second)"
  "as_duration (YScalar ''5m'') = Some (5 * Minute)" "as_duration (YScalar ''30s'') = Some (30 * Second)"
  "as_duration (YScalar ''1s'') = Some (1 * Second)" "as_duration (YScalar ''60s'') = Some (60 * Second)"
  "as_keys (YScalar v) = Some [v]"
  by (simp_all add: dec_val_def digit_val_def is_digit_def as_keys_def UnmarshalYAML_def or_error_def)

definition server_read :: "string \<Rightarrow> string \<Rightarrow> string \<Rightarrow> string \<Rightarrow> (string \<times> string) list \<Rightarrow> ServerConfig" where
  "server_read listen i k pk nls =
     \<lparr>sc_Listen = listen,
      sc_TLS = \<lparr>tls_Cert = ''/etc/passage/server.crt'', tls_Key = ''/etc/passage/server.key''\<rparr>,
      sc_Clients = [\<lparr>ce_ID = i, ce_Pubkey = [k], ce_PQPubkey = [pk],
        ce_Services = map (\<lambda>(n, l). \<lparr>se_Name = n, se_Listen = l, se_AllowedUserCIDRs = []\<rparr>) nls\<rparr>],
      sc_Limits = \<lparr>lim_MaxStreamsPerClient = 256, lim_HandshakeTimeout = 10 * Second, lim_IdleTimeout = 5 * Minute,
        lim_HeartbeatInterval = 30 * Second\<rparr>\<rparr>"

lemma server_doc_lines:
  "map snd (List.map_filter (\<lambda>e. e) (server_doc listen i k pk nls)) =
     [yl 0 False ''listen'' listen, yl 0 False ''tls'' [], yl 2 False ''cert'' ''/etc/passage/server.crt'',
      yl 2 False ''key'' ''/etc/passage/server.key'', yl 0 False ''clients'' [], yl 2 True ''id'' i, yl 4 False ''pubkey'' k,
      yl 4 False ''pq_pubkey'' pk, yl 4 False ''services'' []] @ service_lines nls @
     [yl 0 False ''limits'' [], yl 2 False ''max_streams_per_client'' ''256'', yl 2 False ''handshake_timeout'' ''10s'',
      yl 2 False ''idle_timeout'' ''5m'', yl 2 False ''heartbeat_interval'' ''30s'']"
proof -
  have "map snd (List.map_filter (\<lambda>e. e) (server_services nls)) = service_lines nls"
    by (induction nls) (auto simp: server_services_def service_lines_def map_filter_simps doc_lines_append)
  then show ?thesis by (simp add: server_doc_def doc_lines_append map_filter_simps)
qed

lemma server_doc_read:
  assumes "plain_scalar listen" and "plain_scalar i" and "plain_scalar k" and "plain_scalar pk"
    and "\<forall>(n, l) \<in> set nls. plain_scalar n \<and> plain_scalar l" and "nls \<noteq> []"
  shows "read_server (doc_text (server_doc listen i k pk nls)) = Some (server_read listen i k pk nls)"
proof -
  have "list_all (\<lambda>e. case e of None \<Rightarrow> True | Some l \<Rightarrow> line_ok l) (server_services nls)"
    using assms(5) by (auto simp: server_services_def list_all_iff line_ok_def plain_words)
  then have ok: "list_all (\<lambda>e. case e of None \<Rightarrow> True | Some l \<Rightarrow> line_ok l) (server_doc listen i k pk nls)"
    using assms(1-4) by (simp add: server_doc_def line_ok_def plain_words)
  have ne: "listen \<noteq> []" "i \<noteq> []" "k \<noteq> []" "pk \<noteq> []" "\<forall>(n, l) \<in> set nls. n \<noteq> [] \<and> l \<noteq> []"
    using assms(1-5) plain_scalar_chars(1) by blast+
  let ?client = "[yl 4 False ''pubkey'' k, yl 4 False ''pq_pubkey'' pk, yl 4 False ''services'' []] @ service_lines nls"
  let ?limits = "[yl 2 False ''max_streams_per_client'' ''256'', yl 2 False ''handshake_timeout'' ''10s'',
      yl 2 False ''idle_timeout'' ''5m'', yl 2 False ''heartbeat_interval'' ''30s'']"
  let ?client_node = "YMap [(''id'', YScalar i), (''pubkey'', YScalar k), (''pq_pubkey'', YScalar pk),
        (''services'', YSeq (service_nodes nls))]"
  let ?limits_node = "YMap [(''max_streams_per_client'', YScalar ''256''), (''handshake_timeout'', YScalar ''10s''),
        (''idle_timeout'', YScalar ''5m''), (''heartbeat_interval'', YScalar ''30s'')]"
  have limits: "parse_node ?limits = Some ?limits_node" by (simp add: deeper_def)
  have "parse_map 4 (yl 4 False ''services'' [] # service_lines nls) = Some [(''services'', YSeq (service_nodes nls))]"
    using parse_map_block [OF _ _ _ service_lines_deeper _ parse_service_block [OF ne(5) assms(6)], of "yl 4 False ''services'' []" 4 "[]" "[]"]
    by simp
  note services = this
  have "parse_map 4 (yl 4 False ''id'' i # ?client) = Some [(''id'', YScalar i), (''pubkey'', YScalar k), (''pq_pubkey'', YScalar pk),
        (''services'', YSeq (service_nodes nls))]"
    using ne services by (simp add: parse_map_scalar deeper_def del: parse_map.simps)
  then have client: "parse_node (yl 2 True ''id'' i # ?client) = Some (YSeq [?client_node])"
    by (simp add: deeper_def undash_def service_lines_block del: parse_map.simps)
  have tail: "parse_map 0 (yl 0 False ''clients'' [] # (yl 2 True ''id'' i # ?client) @ yl 0 False ''limits'' [] # ?limits) =
      Some [(''clients'', YSeq [?client_node]), (''limits'', ?limits_node)]"
    using parse_map_block [OF _ _ _ _ _ limits, of "yl 0 False ''limits'' []" 0 "[]" "[]"]
      parse_map_block [OF _ _ _ _ _ client, of "yl 0 False ''clients'' []" 0 "yl 0 False ''limits'' [] # ?limits"] service_lines_deeper [of 0 nls]
    by (simp add: deeper_def del: parse_map.simps(2) parse_node_simps)
  have tls: "parse_node [yl 2 False ''cert'' ''/etc/passage/server.crt'', yl 2 False ''key'' ''/etc/passage/server.key''] =
      Some (YMap [(''cert'', YScalar ''/etc/passage/server.crt''), (''key'', YScalar ''/etc/passage/server.key'')])"
    by (simp add: deeper_def)
  have "read_yaml (doc_text (server_doc listen i k pk nls)) = Some
     [(''listen'', YScalar listen),
      (''tls'', YMap [(''cert'', YScalar ''/etc/passage/server.crt''), (''key'', YScalar ''/etc/passage/server.key'')]),
      (''clients'', YSeq [?client_node]), (''limits'', ?limits_node)]"
    unfolding read_yaml_def read_doc [OF ok] server_doc_lines
    using ne(1) parse_map_block [OF _ _ _ _ _ tls tail, of "yl 0 False ''tls'' []"]
    by (simp add: parse_map_scalar deeper_def del: parse_map.simps(2) parse_node_simps)
  then show ?thesis
    by (simp add: read_server_def server_read_def known_def field_def as_TLSConfig_def as_ClientEntry_def as_LimitsConfig_def
        decoded_services read_scalars del: as_int.simps as_duration.simps)
qed

definition client_read :: "string \<Rightarrow> string \<Rightarrow> string \<Rightarrow> (string \<times> string) list \<Rightarrow> ClientConfig" where
  "client_read remote fp i nts =
     \<lparr>cc_Remote = remote, cc_ServerFingerprint = fp,
      cc_Identity = \<lparr>id_ID = i, id_PrivkeyFile = ''/etc/passage/client.ed25519'',
        id_PQPrivkeyFile = ''/etc/passage/client.mldsa''\<rparr>,
      cc_Services = nts,
      cc_Reconnect = \<lparr>rc_InitialBackoff = 1 * Second, rc_MaxBackoff = 60 * Second, rc_Jitter = True\<rparr>\<rparr>"

lemma parse_targets:
  assumes "\<forall>(n, t) \<in> set nts. t \<noteq> []" and "distinct (map fst nts)"
  shows "parse_map 2 (map (\<lambda>(n, t). yl 2 False n t) nts) = Some (map (\<lambda>(n, t). (n, YScalar t)) nts)"
  using assms
proof (induction nts)
  case (Cons nt nts)
  obtain n t where nt: "nt = (n, t)" by fastforce
  have "(\<lambda>(n, t). yl 2 False n t) x = yl 2 False (fst x) (snd x)" for x by (cases x) simp
  then have "map (\<lambda>(n, t). yl 2 False n t) nts = [] \<or> \<not> deeper 2 (hd (map (\<lambda>(n, t). yl 2 False n t) nts))"
    by (cases nts) (simp_all add: deeper_def)
  moreover have "fst ` set (map (\<lambda>(n, t). (n, YScalar t)) nts) = fst ` set nts" by (force simp: image_iff)
  ultimately show ?case
    using Cons parse_map_scalar [of "yl 2 False n t" 2 "map (\<lambda>(n, t). yl 2 False n t) nts" "map (\<lambda>(n, t). (n, YScalar t)) nts"]
    by (simp add: nt del: parse_map.simps(2))
qed simp

lemma client_doc_read:
  assumes "plain_scalar remote" and "plain_scalar fp" and "plain_scalar i"
    and "\<forall>(n, t) \<in> set nts. plain_key n \<and> plain_scalar t" and "nts \<noteq> []" and "distinct (map fst nts)"
  shows "read_client (doc_text (client_doc remote fp i nts)) = Some (client_read remote fp i nts)"
proof -
  let ?svc = "map (\<lambda>(n, t). yl 2 False n t) nts"
  let ?id = "[yl 2 False ''id'' i, yl 2 False ''privkey_file'' ''/etc/passage/client.ed25519'',
      yl 2 False ''pq_privkey_file'' ''/etc/passage/client.mldsa'']"
  let ?rec = "[yl 2 False ''initial_backoff'' ''1s'', yl 2 False ''max_backoff'' ''60s'', yl 2 False ''jitter'' ''true'']"
  let ?svc_node = "YMap (map (\<lambda>(n, t). (n, YScalar t)) nts)"
  let ?id_node = "YMap [(''id'', YScalar i), (''privkey_file'', YScalar ''/etc/passage/client.ed25519''),
      (''pq_privkey_file'', YScalar ''/etc/passage/client.mldsa'')]"
  let ?rec_node = "YMap [(''initial_backoff'', YScalar ''1s''), (''max_backoff'', YScalar ''60s''), (''jitter'', YScalar ''true'')]"
  have ok: "list_all (\<lambda>e. case e of None \<Rightarrow> True | Some l \<Rightarrow> line_ok l) (client_doc remote fp i nts)"
    using assms(1-4) by (auto simp: client_doc_def line_ok_def plain_words list_all_iff)
  have ne: "remote \<noteq> []" "fp \<noteq> []" "i \<noteq> []" "\<forall>(n, t) \<in> set nts. t \<noteq> []"
    using assms(1-4) plain_scalar_chars(1) by blast+
  have "List.map_filter (\<lambda>e. e) (map (\<lambda>(n, t). Some (p :: nat, yl 2 False n t)) nts) = map (\<lambda>(n, t). (p, yl 2 False n t)) nts" for p
    by (induction nts) (auto simp: map_filter_simps)
  then have lines: "map snd (List.map_filter (\<lambda>e. e) (client_doc remote fp i nts)) =
     [yl 0 False ''remote'' remote, yl 0 False ''server_fingerprint'' fp, yl 0 False ''identity'' []] @ ?id @
     yl 0 False ''services'' [] # ?svc @ yl 0 False ''reconnect'' [] # ?rec"
    by (simp add: client_doc_def doc_lines_append map_filter_simps o_def case_prod_unfold)
  have svc: "parse_node ?svc = Some ?svc_node"
    using parse_targets [OF ne(4) assms(6)] assms(5) by (cases nts) (auto simp del: parse_map.simps(2))
  have idn: "parse_node ?id = Some ?id_node" and rec: "parse_node ?rec = Some ?rec_node"
    using ne(3) by (simp_all add: deeper_def)
  have deep: "\<forall>x \<in> set ?svc. deeper 0 x" by (auto simp: deeper_def)
  have reconnect: "parse_map 0 (yl 0 False ''reconnect'' [] # ?rec) = Some [(''reconnect'', ?rec_node)]"
    using parse_map_block [OF _ _ _ _ _ rec, of "yl 0 False ''reconnect'' []" 0 "[]" "[]"]
    by (simp add: deeper_def del: parse_map.simps(2) parse_node_simps)
  have tail: "parse_map 0 (yl 0 False ''services'' [] # ?svc @ yl 0 False ''reconnect'' [] # ?rec) =
      Some [(''services'', ?svc_node), (''reconnect'', ?rec_node)]"
    using parse_map_block [OF _ _ _ deep _ svc reconnect, of "yl 0 False ''services'' []"] by (simp add: deeper_def del: parse_map.simps(2))
  have "read_yaml (doc_text (client_doc remote fp i nts)) = Some
     [(''remote'', YScalar remote), (''server_fingerprint'', YScalar fp), (''identity'', ?id_node),
      (''services'', ?svc_node), (''reconnect'', ?rec_node)]"
    unfolding read_yaml_def read_doc [OF ok] lines
    using ne(1,2) parse_map_block [OF _ _ _ _ _ idn tail, of "yl 0 False ''identity'' []"]
    by (simp add: parse_map_scalar deeper_def del: parse_map.simps(2) parse_node_simps)
  moreover have "as_map ?svc_node = Some nts"
    by (induction nts) auto
  ultimately show ?thesis
    by (simp add: read_client_def client_read_def known_def field_def as_IdentityConfig_def as_ReconnectConfig_def
        read_scalars del: as_int.simps as_duration.simps as_map.simps)
qed

definition port_of :: "SpecService \<Rightarrow> string" where
  "port_of sv = snd (split_or_empty (ss_Server sv))"

lemma sorted_names: "sorted (sortedServiceNames m)" "set (sortedServiceNames m) = fst ` set m"
  "mset (sortedServiceNames m) = mset (map fst m)"
  by (simp_all add: sortedServiceNames_def)

lemma sorted_names_order:
  assumes "mset m = mset m'"
  shows "sortedServiceNames m = sortedServiceNames m'"
  unfolding sortedServiceNames_def by (rule properties_for_sort) (simp_all add: assms)

lemma last_index_byte_drop: "last_index_byte s c = Some i \<Longrightarrow> c \<notin> set (drop (Suc i) s)"
  using last_index_byte_Some by blast

text \<open>The port an address splits into is free of the separators.\<close>

lemma SplitHostPort_port:
  assumes "SplitHostPort hp = Inr (h, p)"
  shows "CHR '':'' \<notin> set p \<and> CHR ''['' \<notin> set p \<and> CHR '']'' \<notin> set p"
proof -
  from assms obtain i where i: "last_index_byte hp (CHR '':'') = Some i"
    by (auto simp: SplitHostPort_def simp del: last_index_byte_None split: option.splits)
  have fin: "p = drop (Suc i) hp \<and> (\<exists>j k. j \<le> Suc i \<and> k \<le> Suc i \<and>
      CHR ''['' \<notin> set (drop j hp) \<and> CHR '']'' \<notin> set (drop k hp))"
    using assms i
    by (auto simp: SplitHostPort_def Let_def split: option.splits if_splits intro: le_SucI)
      (rule exI [of _ 0], simp, rule exI [of _ 0], simp)+
  have "set (drop (Suc i) hp) \<subseteq> set (drop j hp)" if "j \<le> Suc i" for j
    using that by (rule set_drop_subset_set_drop)
  with fin last_index_byte_drop [OF i] show ?thesis by blast
qed

lemma isolated_listen_splits:
  assumes "splits (ss_Server sv)"
  shows "splits (''0.0.0.0:'' @ port_of sv)"
proof -
  from assms obtain h p where sp: "SplitHostPort (ss_Server sv) = Inr (h, p)" by (auto simp: splits_def)
  then have "port_of sv = p" by (simp add: port_of_def split_or_empty_def)
  with SplitHostPort_port [OF sp] show ?thesis
    using SplitHostPort_plain [of "''0.0.0.0''" p] by (simp add: splits_def)
qed

lemma service_at_in:
  assumes "distinct (map fst m)" and "(name, sv) \<in> set m"
  shows "service_at m name = sv"
  using assms by (simp add: service_at_def)

text \<open>Printing does not leave the plain scalars: a port is what follows the last colon of an address.\<close>

lemma plain_suffix_port:
  assumes "plain_scalar a" and "SplitHostPort a = Inr (h, p)"
  shows "plain_scalar (''0.0.0.0:'' @ p)"
proof -
  from assms(2) obtain i where i: "last_index_byte a (CHR '':'') = Some i" and p: "p = drop (Suc i) a"
    by (auto simp: SplitHostPort_def Let_def simp del: last_index_byte_None split: option.splits if_splits)
  have a: "a = take i a @ CHR '':'' # p" using last_index_byte_Some [OF i] p by simp
  have l: "last a \<noteq> CHR '':''" and pc: "list_all plain_char a" using assms(1) unfolding plain_scalar_def by blast+
  have "p \<noteq> []" using l by (subst (asm) a) auto
  moreover have "last p \<noteq> CHR '':''" using l calculation by (subst (asm) a) auto
  moreover have "list_all plain_char p" using pc by (subst (asm) a) simp
  moreover have "list_all plain_char ''0.0.0.0:''" "is_digit (CHR ''0'')" by code_simp+
  ultimately show ?thesis unfolding plain_scalar_def by simp
qed

lemma plain_names_listens:
  assumes "plain_spec spec" and "spec_ok spec" and "distinct (map fst (sp_Services spec))"
  shows "\<forall>(n, l) \<in> set (names_listens spec). plain_scalar n \<and> plain_scalar l"
    and "\<forall>(n, t) \<in> set (names_targets spec). plain_key n \<and> plain_scalar t"
proof -
  have sv: "plain_key n \<and> plain_scalar (ss_Client sv) \<and> plain_scalar (ss_Server sv) \<and> splits (ss_Server sv) \<and>
      service_at (sp_Services spec) n = sv" if "(n, sv) \<in> set (sp_Services spec)" for n sv
    using that assms service_at_in [OF assms(3) that] by (auto simp: plain_spec_def spec_ok_def spec_service_ok_def)
  have "plain_scalar (serverListenForService spec sv)" if "(n, sv) \<in> set (sp_Services spec)" for n sv
    using sv [OF that] plain_suffix_port [of "ss_Server sv"]
    by (auto simp: serverListenForService_def split_or_empty_def splits_def)
  with sv show "\<forall>(n, l) \<in> set (names_listens spec). plain_scalar n \<and> plain_scalar l"
    "\<forall>(n, t) \<in> set (names_targets spec). plain_key n \<and> plain_scalar t"
    by (force simp: names_listens_def names_targets_def sorted_names(2) plain_key_def)+
qed

text \<open>The services as the server reads them.\<close>

definition listed_services :: "Spec \<Rightarrow> ServiceEntry list" where
  "listed_services spec = map (\<lambda>(n, l). \<lparr>se_Name = n, se_Listen = l, se_AllowedUserCIDRs = []\<rparr>) (names_listens spec)"

lemma listed_services_in:
  assumes "distinct (map fst (sp_Services spec))" and "se \<in> set (listed_services spec)"
  shows "\<exists>name sv. (name, sv) \<in> set (sp_Services spec) \<and>
    se = \<lparr>se_Name = name, se_Listen = serverListenForService spec sv, se_AllowedUserCIDRs = []\<rparr>"
  using assms(2) service_at_in [OF assms(1)]
  by (auto simp: listed_services_def names_listens_def sorted_names(2))

lemma listed_listens:
  assumes "distinct (map fst (sp_Services spec))"
  shows "mset (map se_Listen (listed_services spec)) = mset (map (serverListenForService spec \<circ> snd) (sp_Services spec))"
proof -
  let ?m = "sp_Services spec" and ?f = "\<lambda>name. serverListenForService spec (service_at (sp_Services spec) name)"
  have "mset (map se_Listen (listed_services spec)) = image_mset ?f (mset (map fst ?m))"
    by (simp add: listed_services_def names_listens_def sorted_names(3) multiset.map_comp o_def)
  also have "\<dots> = mset (map (?f \<circ> fst) ?m)" by (simp add: multiset.map_comp)
  also have "map (?f \<circ> fst) ?m = map (serverListenForService spec \<circ> snd) ?m"
    using service_at_in [OF assms] by (intro map_cong) auto
  finally show ?thesis .
qed

lemma distinct_listens:
  assumes "spec_ok spec"
  shows "distinct (map (serverListenForService spec \<circ> snd) (sp_Services spec)) \<longleftrightarrow>
    sv_Mode (sp_Server spec) = ''host'' \<or> distinct (map (port_of \<circ> snd) (sp_Services spec))"
proof (cases "sv_Mode (sp_Server spec) = ''host''")
  case True
  then have "map (serverListenForService spec \<circ> snd) (sp_Services spec) = map (ss_Server \<circ> snd) (sp_Services spec)"
    by (simp add: serverListenForService_def)
  with assms have "distinct (map (serverListenForService spec \<circ> snd) (sp_Services spec))"
    by (metis spec_ok_def)
  with True show ?thesis by simp
next
  case False
  have "map (serverListenForService spec \<circ> snd) (sp_Services spec) =
      map (\<lambda>p. ''0.0.0.0:'' @ p) (map (port_of \<circ> snd) (sp_Services spec))"
    using False by (simp add: serverListenForService_def port_of_def)
  then show ?thesis using False by (simp only: distinct_map) (auto simp: inj_on_def)
qed

lemma listed_services_ok:
  assumes "spec_ok spec" and "distinct (map fst (sp_Services spec))"
  shows "\<forall>se \<in> set (listed_services spec). service_ok se" and "distinct (map se_Name (listed_services spec))"
    and "listed_services spec \<noteq> []"
proof -
  show "\<forall>se \<in> set (listed_services spec). service_ok se"
  proof
    fix se assume "se \<in> set (listed_services spec)"
    then obtain name sv where sv: "(name, sv) \<in> set (sp_Services spec)" and
      se: "se = \<lparr>se_Name = name, se_Listen = serverListenForService spec sv, se_AllowedUserCIDRs = []\<rparr>"
      using listed_services_in [OF assms(2)] by blast
    with assms(1) have "name \<noteq> []" "splits (ss_Server sv)" by (auto simp: spec_ok_def spec_service_ok_def)
    moreover from this isolated_listen_splits [of sv] have "splits (serverListenForService spec sv)"
      by (simp add: serverListenForService_def port_of_def)
    ultimately show "service_ok se" by (simp add: se service_ok_def)
  qed
  show "distinct (map se_Name (listed_services spec))"
    using assms(2) by (simp add: listed_services_def names_listens_def o_def) (simp add: sortedServiceNames_def)
  show "listed_services spec \<noteq> []"
    using sorted_names(2) [of "sp_Services spec"] assms(1) by (auto simp: listed_services_def names_listens_def spec_ok_def)
qed

text \<open>The server configuration a generated \<open>server.yaml\<close> is loaded as.\<close>

definition server_of :: "Spec \<Rightarrow> string \<Rightarrow> string \<Rightarrow> ServerConfig" where
  "server_of spec pub pq = server_read (sv_Listen (sp_Server spec)) (ci_ID (cs_Identity (sp_Client spec))) pub pq (names_listens spec)"

lemma server_yaml_read:
  assumes "spec_ok spec" and "distinct (map fst (sp_Services spec))" and "plain_spec spec"
    and "plain_scalar pub" and "plain_scalar pq"
  shows "read_server (renderServerYAML spec pub pq) = Some (server_of spec pub pq)"
proof -
  note nls = plain_names_listens(1) [OF assms(3,1,2)]
  have "\<forall>(n, l) \<in> set (names_listens spec). n \<noteq> [] \<and> l \<noteq> []" "pub \<noteq> []" "pq \<noteq> []"
    using nls assms(4,5) plain_scalar_chars(1) by blast+
  note doc = renderServerYAML_doc [OF assms(3) this(2,3,1)]
  have "names_listens spec \<noteq> []" using listed_services_ok(3) [OF assms(1,2)] by (simp add: listed_services_def)
  then show ?thesis
    unfolding doc server_of_def using assms(3) by (intro server_doc_read assms(4,5) nls) (simp_all add: plain_spec_def)
qed

lemma server_of_ok:
  assumes "spec_ok spec" and "distinct (map fst (sp_Services spec))" and "HasPrefix pub ''ed25519:''" and "HasPrefix pq ''mldsa:''"
  shows "server_config_ok (server_of spec pub pq) \<longleftrightarrow>
    sv_Mode (sp_Server spec) = ''host'' \<or> distinct (map (port_of \<circ> snd) (sp_Services spec))"
proof -
  have "distinct (map se_Listen (listed_services spec)) \<longleftrightarrow>
      sv_Mode (sp_Server spec) = ''host'' \<or> distinct (map (port_of \<circ> snd) (sp_Services spec))"
    using mset_eq_imp_distinct_iff [OF listed_listens [OF assms(2)]] distinct_listens [OF assms(1)] by simp
  moreover have "ci_ID (cs_Identity (sp_Client spec)) \<noteq> []" "sv_Listen (sp_Server spec) \<noteq> []" "splits (sv_Listen (sp_Server spec))"
    using assms(1) by (simp_all add: spec_ok_def)
  ultimately show ?thesis
    using listed_services_ok [OF assms(1,2)] assms(3,4)
    unfolding server_config_ok_def server_of_def server_read_def all_services_def client_ok_def listed_services_def [symmetric]
    by (simp add: limits_ok_def duration_defs)
qed

lemma LoadServer_generated:
  assumes "spec_ok spec" and "distinct (map fst (sp_Services spec))" and "plain_spec spec"
    and "plain_scalar pub" and "HasPrefix pub ''ed25519:''" and "plain_scalar pq" and "HasPrefix pq ''mldsa:''"
    and "reads_server Decode" and "ReadFile s path = Inr (str_bytes (renderServerYAML spec pub pq))"
  shows "LoadServer Decode s path = Inr cfg \<longleftrightarrow> cfg = server_of spec pub pq \<and>
    (sv_Mode (sp_Server spec) = ''host'' \<or> distinct (map (port_of \<circ> snd) (sp_Services spec)))"
proof -
  have "Decode True (renderServerYAML spec pub pq) = Inr (server_of spec pub pq)"
    using server_yaml_read [OF assms(1-4,6)] assms(8) by (simp add: reads_server_def)
  moreover have "applyDefaults (server_of spec pub pq) = server_of spec pub pq"
    by (simp add: applyDefaults_def applyDefaults_limits_def server_of_def server_read_def duration_defs)
  ultimately show ?thesis
    using assms(9) server_of_ok [OF assms(1,2,5,7)] unfolding LoadServer_Inr_iff by auto
qed

text \<open>The client configuration a generated \<open>client.yaml\<close> is loaded as, its services in the order of the map.\<close>

definition client_of :: "Spec \<Rightarrow> string \<Rightarrow> (string \<times> string) list \<Rightarrow> ClientConfig" where
  "client_of spec fp svcs = client_read (sv_Address (sp_Server spec)) fp (ci_ID (cs_Identity (sp_Client spec))) svcs"

lemma names_targets_mset:
  assumes "distinct (map fst (sp_Services spec))"
  shows "mset (names_targets spec) = mset (map (\<lambda>(n, sv). (n, ss_Client sv)) (sp_Services spec))"
proof -
  let ?m = "sp_Services spec" and ?f = "\<lambda>name. (name, ss_Client (service_at (sp_Services spec) name))"
  have "mset (names_targets spec) = mset (map (?f \<circ> fst) ?m)"
    by (simp add: names_targets_def sorted_names(3) multiset.map_comp)
  also have "map (?f \<circ> fst) ?m = map (\<lambda>(n, sv). (n, ss_Client sv)) ?m"
    using service_at_in [OF assms] by (intro map_cong) auto
  finally show ?thesis .
qed

lemma LoadClient_generated:
  assumes "spec_ok spec" and "distinct (map fst (sp_Services spec))" and "plain_spec spec"
    and "plain_scalar fp" and "HasPrefix fp ''sha256:''" and "length fp = 71"
    and "reads_client Decode" and "ReadFile s path = Inr (str_bytes (renderClientYAML spec fp))"
  shows "\<exists>svcs. mset svcs = mset (map (\<lambda>(n, sv). (n, ss_Client sv)) (sp_Services spec)) \<and>
    LoadClient Decode s path = Inr (client_of spec fp svcs)"
proof -
  note nts = plain_names_listens(2) [OF assms(3,1,2)]
  have "\<forall>(n, t) \<in> set (names_targets spec). t \<noteq> []" "fp \<noteq> []"
    using nts assms(4) plain_scalar_chars(1) by blast+
  note doc = renderClientYAML_doc [OF assms(3) this(2,1)]
  have "set (map fst (sp_Services spec)) \<noteq> {}" using assms(1) by (auto simp: spec_ok_def)
  then have "names_targets spec \<noteq> []" using sorted_names(2) [of "sp_Services spec"] by (auto simp: names_targets_def)
  moreover have "distinct (map fst (names_targets spec))"
    using assms(2) by (simp add: names_targets_def o_def) (simp add: sortedServiceNames_def)
  ultimately have "read_client (renderClientYAML spec fp) = Some (client_of spec fp (names_targets spec))"
    unfolding doc client_of_def using assms(3) by (intro client_doc_read assms(4) nts) (simp_all add: plain_spec_def)
  with assms(7) obtain svcs where svcs: "mset svcs = mset (names_targets spec)" and
    dec: "Decode True (renderClientYAML spec fp) = Inr (client_of spec fp svcs)"
    unfolding reads_client_def by (fastforce simp: client_of_def client_read_def)
  note perm = svcs [unfolded names_targets_mset [OF assms(2)]]
  from mset_eq_setD [OF perm] have set: "set svcs = (\<lambda>(n, sv). (n, ss_Client sv)) ` set (sp_Services spec)" by simp
  have "client_config_ok (client_of spec fp svcs)"
    using assms(1,5,6) set
    by (auto simp: client_config_ok_def client_of_def client_read_def spec_ok_def spec_service_ok_def reconnect_ok_def duration_defs)
  moreover have "applyDefaults_client (client_of spec fp svcs) = client_of spec fp svcs"
    by (simp add: applyDefaults_client_def applyDefaults_reconnect_def client_of_def client_read_def duration_defs)
  ultimately have "LoadClient Decode s path = Inr (client_of spec fp svcs)"
    using assms(8) dec unfolding LoadClient_Inr_iff by auto
  with perm show ?thesis by blast
qed

section \<open>Properties\<close>

text \<open>
  C23: when the generated server configuration loads, and as what.  Take an accepted description (its
  services a map, so with distinct names) whose texts YAML reads as they stand, keys with their
  prefixes, and a decoder that reads the plain part of YAML.  The file \<open>renderServerYAML\<close> writes is
  loaded by the server exactly in host mode or when no two services share a port, and then as the
  configuration that listens where the description says, with its certificate and key where the compose
  file mounts them, one client with the described name and the two keys, its services in the order of
  their names on the described addresses (in the other mode on their ports, on every interface),
  open to every user, and the printed limits.
\<close>

theorem generated_config_valid_iff:
  assumes "Validate_spec spec = None" and "distinct (map fst (sp_Services spec))" and "plain_spec spec"
    and "plain_scalar pub" and "HasPrefix pub ''ed25519:''" and "plain_scalar pq" and "HasPrefix pq ''mldsa:''"
    and "reads_server Decode" and "ReadFile s path = Inr (str_bytes (renderServerYAML spec pub pq))"
  shows "LoadServer Decode s path = Inr cfg \<longleftrightarrow>
    (sv_Mode (sp_Server spec) = ''host'' \<or>
     distinct (map (\<lambda>(_, sv). case SplitHostPort (ss_Server sv) of Inr (_, port) \<Rightarrow> port) (sp_Services spec))) \<and>
    cfg = \<lparr>sc_Listen = sv_Listen (sp_Server spec),
      sc_TLS = \<lparr>tls_Cert = ''/etc/passage/server.crt'', tls_Key = ''/etc/passage/server.key''\<rparr>,
      sc_Clients = [\<lparr>ce_ID = ci_ID (cs_Identity (sp_Client spec)), ce_Pubkey = [pub], ce_PQPubkey = [pq],
        ce_Services = map (\<lambda>name. \<lparr>se_Name = name,
          se_Listen = (case (map_of (sp_Services spec) name) of
             Some sv \<Rightarrow> if sv_Mode (sp_Server spec) = ''host'' then ss_Server sv
               else (case SplitHostPort (ss_Server sv) of Inr (_, port) \<Rightarrow> ''0.0.0.0:'' @ port)),
          se_AllowedUserCIDRs = []\<rparr>) (sort (map fst (sp_Services spec)))\<rparr>],
      sc_Limits = \<lparr>lim_MaxStreamsPerClient = 256, lim_HandshakeTimeout = 10 * Second, lim_IdleTimeout = 300 * Second,
        lim_HeartbeatInterval = 30 * Second\<rparr>\<rparr>"
proof -
  have ok: "spec_ok spec" using assms(1) by (simp add: Validate_spec_None_iff)
  have port: "\<exists>h. SplitHostPort (ss_Server sv) = Inr (h, port_of sv)" if "(n, sv) \<in> set (sp_Services spec)" for n sv
    using ok that by (fastforce simp: spec_ok_def spec_service_ok_def splits_def port_of_def split_or_empty_def)
  then have ports: "map (\<lambda>(_, sv). case SplitHostPort (ss_Server sv) of Inr (_, port) \<Rightarrow> port) (sp_Services spec) =
      map (port_of \<circ> snd) (sp_Services spec)"
    by (intro map_cong) force+
  have listen: "serverListenForService spec (service_at (sp_Services spec) name) =
      (case (map_of (sp_Services spec) name) of
             Some sv \<Rightarrow> if sv_Mode (sp_Server spec) = ''host'' then ss_Server sv
               else (case SplitHostPort (ss_Server sv) of Inr (_, port) \<Rightarrow> ''0.0.0.0:'' @ port))"
    if "name \<in> set (sort (map fst (sp_Services spec)))" for name
  proof -
    from that obtain sv where sv: "(name, sv) \<in> set (sp_Services spec)" by auto
    with assms(2) have "map_of (sp_Services spec) name = Some sv" by simp
    with port [OF sv] show ?thesis
      by (auto simp: serverListenForService_def service_at_def port_of_def [symmetric])
  qed
  have "5 * Minute = 300 * Second" by (simp add: duration_defs)
  with listen have "server_of spec pub pq = \<lparr>sc_Listen = sv_Listen (sp_Server spec),
      sc_TLS = \<lparr>tls_Cert = ''/etc/passage/server.crt'', tls_Key = ''/etc/passage/server.key''\<rparr>,
      sc_Clients = [\<lparr>ce_ID = ci_ID (cs_Identity (sp_Client spec)), ce_Pubkey = [pub], ce_PQPubkey = [pq],
        ce_Services = map (\<lambda>name. \<lparr>se_Name = name,
          se_Listen = (case (map_of (sp_Services spec) name) of
             Some sv \<Rightarrow> if sv_Mode (sp_Server spec) = ''host'' then ss_Server sv
               else (case SplitHostPort (ss_Server sv) of Inr (_, port) \<Rightarrow> ''0.0.0.0:'' @ port)),
          se_AllowedUserCIDRs = []\<rparr>) (sort (map fst (sp_Services spec)))\<rparr>],
      sc_Limits = \<lparr>lim_MaxStreamsPerClient = 256, lim_HandshakeTimeout = 10 * Second, lim_IdleTimeout = 300 * Second,
        lim_HeartbeatInterval = 30 * Second\<rparr>\<rparr>"
    by (simp add: server_of_def server_read_def names_listens_def sortedServiceNames_def)
  note eq = this
  show ?thesis unfolding ports eq [symmetric] using LoadServer_generated [OF ok assms(2-9), of cfg] by blast
qed

lemma ex_spec_ports:
  "map (\<lambda>(_, sv). case SplitHostPort (ss_Server sv) of Inr (_, port) \<Rightarrow> port) (sp_Services ex_spec) = [''80'', ''80'']"
proof -
  have "SplitHostPort ''10.0.0.1:80'' = Inr (''10.0.0.1'', ''80'')" "SplitHostPort ''10.0.0.2:80'' = Inr (''10.0.0.2'', ''80'')"
    by code_simp+
  then show ?thesis by (simp add: ex_spec_def)
qed

text \<open>The reader itself is such a decoder.\<close>

definition ex_decode :: "(string \<Rightarrow> 'c option) \<Rightarrow> bool \<Rightarrow> string \<Rightarrow> unit + 'c" where
  "ex_decode read b t = or_error (read t)"

lemma ex_decode_reads: "reads_server (ex_decode read_server)" "reads_client (ex_decode read_client)"
proof -
  show "reads_server (ex_decode read_server)" by (simp add: reads_server_def ex_decode_def or_error_def)
  have "cfg\<lparr>cc_Services := cc_Services cfg\<rparr> = cfg" for cfg :: ClientConfig by simp
  then show "reads_client (ex_decode read_client)"
    unfolding reads_client_def ex_decode_def or_error_def by (metis option.simps(5))
qed

lemma ex_spec_plain: "plain_spec ex_spec"
proof -
  have "plain_scalar '':8443''" "plain_scalar ''vps:8443''" "plain_scalar ''alice''" "plain_key ''web''" "plain_key ''alt''"
    "plain_scalar ''nas:80''" "plain_scalar ''nas:81''" "plain_scalar ''10.0.0.1:80''" "plain_scalar ''10.0.0.2:80''"
    by code_simp+
  then show ?thesis by (simp add: plain_spec_def ex_spec_def)
qed

definition host_spec :: Spec where
  "host_spec = ex_spec\<lparr>sp_Server := (sp_Server ex_spec)\<lparr>sv_Mode := ''host''\<rparr>\<rparr>"

definition yaml_fs :: "Spec \<Rightarrow> fs" where
  "yaml_fs spec = \<lparr>nodes = [''s'' \<mapsto> File (str_bytes (renderServerYAML spec ''ed25519:AA'' ''mldsa:AA'')) mode_0644],
     denied = (\<lambda>_. False)\<rparr>"

lemma host_spec_ok:
  "Validate_spec host_spec = None" "distinct (map fst (sp_Services host_spec))" "plain_spec host_spec"
  "sv_Mode (sp_Server host_spec) = ''host''" "sv_Listen (sp_Server host_spec) = '':8443''"
proof -
  show "Validate_spec host_spec = None"
    using ex_spec_ok unfolding host_spec_def Validate_spec_None_iff by (simp add: spec_ok_def mode_ok_def)
  show "distinct (map fst (sp_Services host_spec))" "sv_Mode (sp_Server host_spec) = ''host''"
    "sv_Listen (sp_Server host_spec) = '':8443''"
    by (simp_all add: host_spec_def ex_spec_def)
  show "plain_spec host_spec" using ex_spec_plain by (simp add: host_spec_def plain_spec_def)
qed

theorem generated_config_valid_iff_witness:
  "Validate_spec ex_spec = None \<and> (\<nexists>cfg. LoadServer (ex_decode read_server) (yaml_fs ex_spec) ''s'' = Inr cfg) \<and>
   (\<exists>cfg. LoadServer (ex_decode read_server) (yaml_fs host_spec) ''s'' = Inr cfg \<and> sc_Listen cfg = '':8443'')"
proof -
  have ok: "Validate_spec ex_spec = None" using ex_spec_ok by (simp add: Validate_spec_None_iff)
  have d: "distinct (map fst (sp_Services ex_spec))" by (simp add: ex_spec_def)
  have k: "plain_scalar ''ed25519:AA''" "HasPrefix ''ed25519:AA'' ''ed25519:''" "plain_scalar ''mldsa:AA''"
    "HasPrefix ''mldsa:AA'' ''mldsa:''" by code_simp+
  have f: "ReadFile (yaml_fs spec) ''s'' = Inr (str_bytes (renderServerYAML spec ''ed25519:AA'' ''mldsa:AA''))" for spec
    by (simp add: yaml_fs_def ReadFile_def)
  have m: "sv_Mode (sp_Server ex_spec) \<noteq> ''host''" by (simp add: ex_spec_def)
  note iff = generated_config_valid_iff [OF ok d ex_spec_plain k ex_decode_reads(1) f, unfolded ex_spec_ports]
    generated_config_valid_iff [OF host_spec_ok(1-3) k ex_decode_reads(1) f]
  have "\<not> distinct [''80'', ''80'']" by simp
  with iff(1) m have "\<nexists>cfg. LoadServer (ex_decode read_server) (yaml_fs ex_spec) ''s'' = Inr cfg" by blast
  moreover have "\<exists>cfg. LoadServer (ex_decode read_server) (yaml_fs host_spec) ''s'' = Inr cfg \<and>
      sc_Listen cfg = sv_Listen (sp_Server host_spec)"
    unfolding iff(2) using host_spec_ok(4) by (simp only: simp_thms ServerConfig.simps)
  ultimately show ?thesis using ok host_spec_ok(5) by metis
qed

end
