(* ===== verification/GoPath.thy ===== *)
theory GoPath
  imports GoFS "HOL-Library.Sublist"
begin

text \<open>
  Package \<open>path/filepath\<close> (\<open>Clean\<close>, \<open>Join\<close>) and the directory operations of package \<open>os\<close> that
  \<open>quick-docker\<close> uses.  A path is a string; \<open>Clean\<close> is its documented lexical rule: drop empty and
  \<open>.\<close> elements, let \<open>..\<close> remove the element before it.
\<close>

section \<open>Paths\<close>

abbreviation slash :: char where "slash \<equiv> CHR ''/''"

fun split_slash :: "string \<Rightarrow> string list" where
  "split_slash [] = [[]]"
| "split_slash (c # s) =
     (if c = slash then [] # split_slash s
      else case split_slash s of [] \<Rightarrow> [[c]] | e # es \<Rightarrow> (c # e) # es)"

fun join_slash :: "string list \<Rightarrow> string" where
  "join_slash [] = []"
| "join_slash [e] = e"
| "join_slash (e # es) = e @ slash # join_slash es"

text \<open>The elements kept so far are a stack, the last one on top.\<close>

definition clean_step :: "bool \<Rightarrow> string list \<Rightarrow> string \<Rightarrow> string list" where
  "clean_step rooted st e =
     (if e = [] \<or> e = ''.'' then st
      else if e = ''..'' then
        (if st \<noteq> [] \<and> hd st \<noteq> ''..'' then tl st else if rooted then st else e # st)
      else e # st)"

definition is_rooted :: "string \<Rightarrow> bool" where
  "is_rooted p \<longleftrightarrow> (case p of [] \<Rightarrow> False | c # _ \<Rightarrow> c = slash)"

definition Clean :: "string \<Rightarrow> string" where
  "Clean p =
     (let st = foldl (clean_step (is_rooted p)) [] (split_slash p); body = join_slash (rev st) in
      if is_rooted p then slash # body else if body = [] then ''.'' else body)"

definition Join :: "string list \<Rightarrow> string" where
  "Join elems = (case dropWhile (\<lambda>e. e = []) elems of [] \<Rightarrow> [] | es \<Rightarrow> Clean (join_slash es))"

text \<open>A plain element: what the program itself adds to a path.\<close>

definition plain :: "string \<Rightarrow> bool" where
  "plain e \<longleftrightarrow> e \<noteq> [] \<and> e \<noteq> ''.'' \<and> e \<noteq> ''..'' \<and> slash \<notin> set e"

lemma split_slash_ne [simp]: "split_slash s \<noteq> []"
  by (induction s) (auto split: list.splits)

lemma split_slash_plain: "slash \<notin> set e \<Longrightarrow> split_slash e = [e]"
  by (induction e) auto

lemma split_slash_append: "split_slash (s @ slash # t) = split_slash s @ split_slash t"
  by (induction s) (auto split: list.splits)

lemma split_slash_no_slash: "e \<in> set (split_slash s) \<Longrightarrow> slash \<notin> set e"
  by (induction s arbitrary: e) (auto split: list.splits if_splits)

lemma split_join: "es \<noteq> [] \<Longrightarrow> (\<And>e. e \<in> set es \<Longrightarrow> slash \<notin> set e) \<Longrightarrow> split_slash (join_slash es) = es"
  by (induction es rule: join_slash.induct) (auto simp: split_slash_plain split_slash_append)

lemma join_slash_snoc: "es \<noteq> [] \<Longrightarrow> join_slash (es @ [e]) = join_slash es @ slash # e"
  by (induction es rule: join_slash.induct) auto

lemma join_slash_ne: "join_slash es = [] \<longleftrightarrow> es = [] \<or> es = [[]]"
  by (induction es rule: join_slash.induct) auto

text \<open>Cleaned stacks: plain elements above the \<open>..\<close> that could not be resolved.\<close>

fun clean_stack :: "bool \<Rightarrow> string list \<Rightarrow> bool" where
  "clean_stack rooted [] = True"
| "clean_stack rooted (e # st) =
     (clean_stack rooted st \<and> (plain e \<or> \<not> rooted \<and> e = ''..'' \<and> (st = [] \<or> hd st = ''..'')))"

lemma clean_stack_step: "clean_stack rooted st \<Longrightarrow> slash \<notin> set e \<Longrightarrow> clean_stack rooted (clean_step rooted st e)"
  by (cases st) (auto simp: clean_step_def plain_def)

lemma clean_stack_foldl:
  "clean_stack rooted st \<Longrightarrow> (\<And>e. e \<in> set es \<Longrightarrow> slash \<notin> set e) \<Longrightarrow> clean_stack rooted (foldl (clean_step rooted) st es)"
  by (induction es arbitrary: st) (auto intro: clean_stack_step)

lemma clean_stack_elems: "clean_stack rooted st \<Longrightarrow> e \<in> set st \<Longrightarrow> slash \<notin> set e \<and> e \<noteq> []"
  by (induction st) (auto simp: plain_def)

lemma clean_stack_again: "clean_stack rooted st \<Longrightarrow> foldl (clean_step rooted) [] (rev st) = st"
  by (induction st) (auto simp: clean_step_def plain_def)

text \<open>A path the program has built ends in a plain element; what it then appends is appended literally.\<close>

definition built :: "string \<Rightarrow> bool" where
  "built p \<longleftrightarrow> (\<exists>rooted st e. clean_stack rooted st \<and> plain e \<and>
     p = (if rooted then [slash] else []) @ join_slash (rev (e # st)))"

lemma plain_step: "plain e \<Longrightarrow> clean_step rooted st e = e # st"
  by (simp add: clean_step_def plain_def)

lemma join_ne: "e \<noteq> [] \<Longrightarrow> join_slash (es @ [e]) \<noteq> []"
  by (simp add: join_slash_ne)

lemma Clean_built:
  assumes "plain e"
  shows "built (Clean (p @ slash # e))"
proof -
  let ?r = "is_rooted (p @ slash # e)"
  let ?st = "foldl (clean_step ?r) [] (split_slash p)"
  have e: "split_slash (p @ slash # e) = split_slash p @ [e]"
    using assms by (simp add: split_slash_append split_slash_plain plain_def)
  have "Clean (p @ slash # e) = (if ?r then [slash] else []) @ join_slash (rev (e # ?st))"
    using assms by (simp add: Clean_def e plain_step Let_def join_ne plain_def)
  moreover have "clean_stack ?r ?st" by (rule clean_stack_foldl) (use split_slash_no_slash in auto)
  ultimately show ?thesis using assms unfolding built_def by blast
qed

lemma Join_built:
  assumes "plain e"
  shows "built (Join [out, e])"
proof (cases "out = []")
  case True
  have "\<not> is_rooted e" using assms by (cases e) (auto simp: is_rooted_def plain_def)
  with True assms have "Join [out, e] = e"
    by (simp add: Join_def Clean_def split_slash_plain plain_step plain_def)
  with assms show ?thesis unfolding built_def
    by (intro exI [of _ False] exI [of _ "[]"] exI [of _ e]) simp
next
  case False
  then show ?thesis using Clean_built [OF assms, of out] by (simp add: Join_def)
qed

lemma is_rooted_join:
  assumes "\<And>e. e \<in> set es \<Longrightarrow> slash \<notin> set e \<and> e \<noteq> []" and "es \<noteq> []"
  shows "\<not> is_rooted (join_slash es @ t)"
proof -
  obtain e es' where es: "es = e # es'" using assms(2) by (cases es) auto
  then obtain c r where e: "e = c # r" "c \<noteq> slash" using assms(1) [of e] by (cases e) auto
  show ?thesis unfolding es e(1) by (cases es') (simp_all add: is_rooted_def e(2))
qed

lemma Join_append:
  assumes "built p" and "plain e"
  shows "Join [p, e] = p @ slash # e" "built (p @ slash # e)" "Join [p, d, e] = Join [p @ slash # d, e]"
proof -
  from assms(1) obtain rooted st e0 where st: "clean_stack rooted st" "plain e0"
    and p: "p = (if rooted then [slash] else []) @ join_slash (rev (e0 # st))" unfolding built_def by blast
  have st': "clean_stack rooted (e0 # st)" using st by simp
  have elems: "slash \<notin> set x \<and> x \<noteq> []" if "x \<in> set (rev (e0 # st))" for x
    using clean_stack_elems [OF st'] that by auto
  have ne: "join_slash (rev (e0 # st)) \<noteq> []" using st(2) by (simp add: join_ne plain_def)
  then have pne: "p \<noteq> []" by (simp add: p)
  have r: "is_rooted (p @ t) \<longleftrightarrow> rooted" for t
    using is_rooted_join [of "rev (e0 # st)" t, OF elems] by (cases rooted) (simp_all add: p is_rooted_def)
  have split: "split_slash p = (if rooted then [[]] else []) @ rev (e0 # st)"
    using split_join [of "rev (e0 # st)"] elems by (simp add: p)
  have "foldl (clean_step rooted) [] (split_slash p) = e0 # st"
    using clean_stack_again [OF st'] by (cases rooted) (simp_all add: split clean_step_def [of True "[]" "[]"])
  then have f: "foldl (clean_step rooted) [] (split_slash (p @ slash # e)) = e # e0 # st"
    using assms(2) by (simp add: split_slash_append split_slash_plain plain_step plain_def)
  have j: "join_slash (rev (e # e0 # st)) = join_slash (rev (e0 # st)) @ slash # e"
    using join_slash_snoc [of "rev (e0 # st)" e] by simp
  have "Clean (p @ slash # e) = (if rooted then [slash] else []) @ join_slash (rev (e # e0 # st))"
    unfolding Clean_def r f Let_def using j by (metis append_Cons append_Nil append_is_Nil_conv list.distinct(1))
  also have "\<dots> = p @ slash # e" unfolding j p by simp
  finally have c: "Clean (p @ slash # e) = p @ slash # e" .
  show "Join [p, e] = p @ slash # e" using pne c by (simp add: Join_def)
  show "built (p @ slash # e)" using Clean_built [OF assms(2), of p] c by simp
  show "Join [p, d, e] = Join [p @ slash # d, e]" using pne by (simp add: Join_def)
qed

lemma dirname_append: "slash \<notin> set e \<Longrightarrow> dirname (p @ slash # e) = p"
  by (simp add: dirname_def)

section \<open>Directories\<close>

lemma dirname_shorter:
  assumes "p \<noteq> []"
  shows "length (dirname p) < length p"
proof (cases "last_index_byte p slash")
  case (Some i)
  then have "length p = length (take i p @ slash # drop (Suc i) p)" using last_index_byte_Some by metis
  with Some show ?thesis by (simp add: dirname_def)
next
  case None
  then have "dirname p = []" unfolding dirname_def by (simp only: option.case)
  with assms show ?thesis by simp
qed

function MkdirAll :: "fs \<Rightarrow> string \<Rightarrow> os_error + fs" where
  "MkdirAll s p =
     (if is_dir s p then Inr s
      else case nodes s p of
        Some _ \<Rightarrow> Inl (ErrNotDir p)
      | None \<Rightarrow>
        (case MkdirAll s (dirname p) of
           Inl err \<Rightarrow> Inl err
         | Inr s' \<Rightarrow> if denied s' p then Inl (ErrPermission p) else Inr (s'\<lparr>nodes := (nodes s')(p \<mapsto> Dir)\<rparr>)))"
  by auto
termination
  by (relation "measure (length \<circ> snd)") (auto simp: is_dir_def intro: dirname_shorter)

declare MkdirAll.simps [simp del]

definition Stat :: "fs \<Rightarrow> string \<Rightarrow> os_error + node" where
  "Stat s p =
     (if denied s p then Inl (ErrPermission p)
      else case nodes s p of None \<Rightarrow> Inl (ErrNotExist p) | Some n \<Rightarrow> Inr n)"

text \<open>A path and everything below it.\<close>

definition below :: "string \<Rightarrow> string \<Rightarrow> bool" where
  "below p q \<longleftrightarrow> q = p \<or> prefix (p @ [slash]) q"

definition RemoveAll :: "fs \<Rightarrow> string \<Rightarrow> os_error + fs" where
  "RemoveAll s p =
     (if denied s p then Inl (ErrPermission p)
      else Inr (s\<lparr>nodes := (\<lambda>q. if below p q then None else nodes s q)\<rparr>))"

text \<open>A file system in which everything lies in a directory.\<close>

definition fs_tree :: "fs \<Rightarrow> bool" where
  "fs_tree s \<longleftrightarrow> (\<forall>p. nodes s p \<noteq> None \<longrightarrow> p \<noteq> [] \<and> is_dir s (dirname p))"

lemma MkdirAll_result:
  assumes "MkdirAll s p = Inr s'"
  shows "is_dir s' p \<and> denied s' = denied s \<and> (\<forall>q. nodes s q \<noteq> None \<longrightarrow> nodes s' q = nodes s q) \<and>
    (\<forall>q. nodes s' q \<noteq> nodes s q \<longrightarrow> nodes s' q = Some Dir \<and> length q \<le> length p) \<and> (fs_tree s \<longrightarrow> fs_tree s')"
  using assms
proof (induction s p arbitrary: s' rule: MkdirAll.induct)
  case (1 s p)
  show ?case
  proof (cases "is_dir s p")
    case True
    with "1.prems" show ?thesis by (simp add: MkdirAll.simps)
  next
    case False
    have e: "MkdirAll s p = (case nodes s p of Some _ \<Rightarrow> Inl (ErrNotDir p) | None \<Rightarrow>
        (case MkdirAll s (dirname p) of Inl err \<Rightarrow> Inl err
         | Inr s' \<Rightarrow> if denied s' p then Inl (ErrPermission p) else Inr (s'\<lparr>nodes := (nodes s')(p \<mapsto> Dir)\<rparr>)))"
      unfolding MkdirAll.simps [of s p] using False by simp
    from "1.prems" obtain s1 where n: "nodes s p = None" and m: "MkdirAll s (dirname p) = Inr s1"
      and s': "s' = s1\<lparr>nodes := (nodes s1)(p \<mapsto> Dir)\<rparr>"
      unfolding e by (auto split: option.splits sum.splits if_splits)
    have pne: "p \<noteq> []" using False by (simp add: is_dir_def)
    note IH = "1.IH" [OF False n m]
    have len: "length (dirname p) < length p" using dirname_shorter [OF pne] .
    have old: "\<forall>q. nodes s q \<noteq> None \<longrightarrow> nodes s' q = nodes s q" using IH n unfolding s' by simp
    have new: "\<forall>q. nodes s' q \<noteq> nodes s q \<longrightarrow> nodes s' q = Some Dir \<and> length q \<le> length p"
      using IH len unfolding s' by (simp, meson le_trans less_imp_le)
    have mono: "is_dir s1 q \<Longrightarrow> is_dir s' q" for q unfolding s' by (simp add: is_dir_def)
    have "fs_tree s'" if "fs_tree s"
    proof -
      have "fs_tree s1" using IH that by blast
      then show ?thesis using IH mono pne unfolding fs_tree_def s' by simp
    qed
    moreover have "is_dir s' p" unfolding s' by (simp add: is_dir_def)
    moreover have "denied s' = denied s" using IH unfolding s' by simp
    ultimately show ?thesis using old new by blast
  qed
qed

end
