(* ===== verification/QuickDocker.thy ===== *)
theory QuickDocker
  imports QuickYaml GoPath PqAuth TlsConfig
begin

text \<open>
  \<open>internal/quickdocker/cert.go\<close> and \<open>Generate\<close> of \<open>generate.go\<close>: a run of \<open>quick-docker\<close> on a file
  system.  The cryptographic operations are parameters, collected in one record: what a call of the
  key generators, of \<open>rand.Int\<close> and of package \<open>x509\<close> returns.
\<close>

section \<open>The certificate\<close>

record cert_template =
  ct_SerialNumber :: nat
  ct_CommonName :: string
  ct_NotBefore :: Time
  ct_NotAfter :: Time
  ct_KeyUsage :: nat
  ct_ExtKeyUsage :: "nat list"
  ct_BasicConstraintsValid :: bool

definition KeyUsageDigitalSignature :: nat where "KeyUsageDigitalSignature = 1"
definition ExtKeyUsageServerAuth :: nat where "ExtKeyUsageServerAuth = 1"

record ('pk, 'sk) crypto =
  cr_tls_key :: "string + bytes \<times> bytes"
  cr_Int :: "nat \<Rightarrow> string + nat"
  cr_Now :: Time
  cr_CreateCertificate :: "cert_template \<Rightarrow> cert_template \<Rightarrow> bytes \<Rightarrow> bytes \<Rightarrow> string + bytes"
  cr_MarshalPKCS8 :: "bytes \<Rightarrow> string + bytes"
  cr_Sum256 :: "bytes \<Rightarrow> bytes"
  cr_pem_encode :: "pem_block \<Rightarrow> bytes"
  cr_client_key :: "unit \<Rightarrow> string + bytes \<times> bytes"
  cr_seed_of :: "bytes \<Rightarrow> bytes"
  cr_rand_read :: "nat \<Rightarrow> string + bytes"
  cr_new_key_from_seed :: "bytes \<Rightarrow> 'pk \<times> 'sk"
  cr_marshal_pk :: "'pk \<Rightarrow> bytes"

record tlsKeypair =
  kp_CertPEM :: bytes
  kp_KeyPEM :: bytes
  kp_Fingerprint :: string

definition generateSelfSignedTLS :: "('pk, 'sk) crypto \<Rightarrow> string + tlsKeypair" where
  "generateSelfSignedTLS cr =
     (case cr_tls_key cr of
        Inl err \<Rightarrow> Inl err
      | Inr (pub, priv) \<Rightarrow>
        (case cr_Int cr (2 ^ 128) of
           Inl err \<Rightarrow> Inl err
         | Inr serial \<Rightarrow>
           (let now = cr_Now cr;
                tmpl = \<lparr>ct_SerialNumber = serial, ct_CommonName = ''passage'',
                        ct_NotBefore = time_Add now (- Minute), ct_NotAfter = time_Add now (825 * 24 * 60 * Minute),
                        ct_KeyUsage = KeyUsageDigitalSignature, ct_ExtKeyUsage = [ExtKeyUsageServerAuth],
                        ct_BasicConstraintsValid = True\<rparr>
            in case cr_CreateCertificate cr tmpl tmpl pub priv of
                 Inl err \<Rightarrow> Inl err
               | Inr der \<Rightarrow>
                 (case cr_MarshalPKCS8 cr priv of
                    Inl err \<Rightarrow> Inl err
                  | Inr privDER \<Rightarrow>
                      Inr \<lparr>kp_CertPEM = cr_pem_encode cr (''CERTIFICATE'', der),
                           kp_KeyPEM = cr_pem_encode cr (''PRIVATE KEY'', privDER),
                           kp_Fingerprint = ''sha256:'' @ hex_EncodeToString (cr_Sum256 cr der)\<rparr>))))"

section \<open>Sequencing\<close>

datatype gen_error =
    GenOS os_error | OutputNotDir string | OutputExists string | GenTLS string | GenKey auth_error

type_synonym 'a gen = "fs \<Rightarrow> (gen_error + 'a) \<times> fs"

text \<open>\<open>if err := m; err != nil \{ return err \}\<close> followed by the rest.\<close>

definition gbind :: "'a gen \<Rightarrow> ('a \<Rightarrow> 'b gen) \<Rightarrow> 'b gen" where
  "gbind m f s = (case m s of (Inl err, s') \<Rightarrow> (Inl err, s') | (Inr x, s') \<Rightarrow> f x s')"

definition greturn :: "'a \<Rightarrow> 'a gen" where
  "greturn x s = (Inr x, s)"

definition os_call :: "(fs \<Rightarrow> os_error + fs) \<Rightarrow> unit gen" where
  "os_call f s = (case f s of Inl err \<Rightarrow> (Inl (GenOS err), s) | Inr s' \<Rightarrow> (Inr (), s'))"

definition key_call :: "(fs \<Rightarrow> auth_error + fs) \<Rightarrow> unit gen" where
  "key_call f s = (case f s of Inl err \<Rightarrow> (Inl (GenKey err), s) | Inr s' \<Rightarrow> (Inr (), s'))"

definition pure_call :: "('e \<Rightarrow> gen_error) \<Rightarrow> 'e + 'a \<Rightarrow> 'a gen" where
  "pure_call wrap r s = (case r of Inl err \<Rightarrow> (Inl (wrap err), s) | Inr x \<Rightarrow> (Inr x, s))"

section \<open>Generate\<close>

record GenerateOptions =
  go_OutDir :: string
  go_Force :: bool

record GenerateResult =
  gr_ServerDir :: string
  gr_ClientDir :: string
  gr_Fingerprint :: string
  gr_PubKey :: string
  gr_PQPubKey :: string
  gr_ServerProject :: string
  gr_ClientProject :: string

definition ensureFreshDir :: "string \<Rightarrow> bool \<Rightarrow> unit gen" where
  "ensureFreshDir path force s =
     (case Stat s path of
        Inr (File _ _) \<Rightarrow> (Inl (OutputNotDir path), s)
      | Inr Dir \<Rightarrow>
          if \<not> force then (Inl (OutputExists path), s)
          else gbind (os_call (\<lambda>s. RemoveAll s path)) (\<lambda>_. os_call (\<lambda>s. MkdirAll s path)) s
      | Inl (ErrNotExist _) \<Rightarrow> os_call (\<lambda>s. MkdirAll s path) s
      | Inl err \<Rightarrow> (Inl (GenOS err), s))"

definition Generate :: "('pk, 'sk) crypto \<Rightarrow> (string \<Rightarrow> bool) \<Rightarrow> Spec \<Rightarrow> GenerateOptions \<Rightarrow> GenerateResult gen" where
  "Generate cr IsPrint spec opts =
     (let serverDir = Join [go_OutDir opts, ''server''];
          clientDir = Join [go_OutDir opts, ''client'']
      in gbind (ensureFreshDir serverDir (go_Force opts)) (\<lambda>_.
         gbind (ensureFreshDir clientDir (go_Force opts)) (\<lambda>_.
         gbind (os_call (\<lambda>s. MkdirAll s (Join [serverDir, ''keys'']))) (\<lambda>_.
         gbind (os_call (\<lambda>s. MkdirAll s (Join [clientDir, ''keys'']))) (\<lambda>_.
         gbind (pure_call GenTLS (generateSelfSignedTLS cr)) (\<lambda>tls.
         gbind (os_call (\<lambda>s. WriteFile s (Join [serverDir, ''keys'', ''server.crt'']) (kp_CertPEM tls) mode_0644)) (\<lambda>_.
         gbind (os_call (\<lambda>s. WriteFile s (Join [serverDir, ''keys'', ''server.key'']) (kp_KeyPEM tls) mode_0644)) (\<lambda>_.
         gbind (pure_call GenKey (GenerateKeypair (cr_client_key cr))) (\<lambda>(pub, priv).
         let clientKeyPath = Join [clientDir, ''keys'', ''client.ed25519''] in
         gbind (key_call (\<lambda>s. WritePrivkeyPEM (cr_pem_encode cr) (cr_seed_of cr) s clientKeyPath priv)) (\<lambda>_.
         gbind (os_call (\<lambda>s. Chmod s clientKeyPath mode_0644)) (\<lambda>_.
         let pubEnc = EncodePubkey pub in
         gbind (pure_call GenKey (GeneratePQKeypair (cr_rand_read cr) (cr_new_key_from_seed cr))) (\<lambda>(pqPub, _, pqSeed).
         let clientPQKeyPath = Join [clientDir, ''keys'', ''client.mldsa''] in
         gbind (key_call (\<lambda>s. WritePQPrivkeyPEM (cr_pem_encode cr) s clientPQKeyPath pqSeed)) (\<lambda>_.
         gbind (os_call (\<lambda>s. Chmod s clientPQKeyPath mode_0644)) (\<lambda>_.
         let pqPubEnc = EncodePQPubkey (cr_marshal_pk cr) pqPub in
         gbind (os_call (\<lambda>s. WriteFile s (Join [serverDir, ''server.yaml''])
           (str_bytes (renderServerYAML spec pubEnc pqPubEnc)) mode_0644)) (\<lambda>_.
         gbind (os_call (\<lambda>s. WriteFile s (Join [serverDir, ''docker-compose.yml''])
           (str_bytes (renderServerCompose IsPrint spec)) mode_0644)) (\<lambda>_.
         gbind (os_call (\<lambda>s. WriteFile s (Join [clientDir, ''client.yaml''])
           (str_bytes (renderClientYAML spec (kp_Fingerprint tls))) mode_0644)) (\<lambda>_.
         gbind (os_call (\<lambda>s. WriteFile s (Join [clientDir, ''docker-compose.yml''])
           (str_bytes (renderClientCompose spec)) mode_0644)) (\<lambda>_.
         greturn \<lparr>gr_ServerDir = serverDir, gr_ClientDir = clientDir, gr_Fingerprint = kp_Fingerprint tls,
           gr_PubKey = pubEnc, gr_PQPubKey = pqPubEnc,
           gr_ServerProject = composeProjectName spec ''server'',
           gr_ClientProject = composeProjectName spec ''client''\<rparr>))))))))))))))))))"

section \<open>Paths\<close>

lemma plain_names:
  "plain ''server''" "plain ''client''" "plain ''keys''" "plain ''server.crt''" "plain ''server.key''"
  "plain ''client.ed25519''" "plain ''client.mldsa''" "plain ''server.yaml''" "plain ''client.yaml''"
  "plain ''docker-compose.yml''"
  by (simp_all add: plain_def)

text \<open>All the paths of a run share the prefix before \<open>server\<close> and \<open>client\<close>.\<close>

lemma Join_last: "\<exists>q. \<forall>e. plain e \<longrightarrow> Join [out, e] = q @ e"
proof (cases "out = []")
  case True
  have "\<not> is_rooted e" if "plain e" for e using that by (cases e) (auto simp: is_rooted_def plain_def)
  with True have "Join [out, e] = e" if "plain e" for e
    using that by (simp add: Join_def Clean_def split_slash_plain plain_step plain_def)
  then show ?thesis by (intro exI [of _ "[]"]) simp
next
  case False
  have r: "is_rooted (out @ slash # e) = is_rooted out" for e using False by (cases out) (simp_all add: is_rooted_def)
  let ?st = "foldl (clean_step (is_rooted out)) [] (split_slash out)"
  let ?q = "(if is_rooted out then [slash] else []) @ (if ?st = [] then [] else join_slash (rev ?st) @ [slash])"
  have "Join [out, e] = ?q @ e" if "plain e" for e
  proof -
    have e: "split_slash (out @ slash # e) = split_slash out @ [e]"
      using that by (simp add: split_slash_append split_slash_plain plain_def)
    have j: "join_slash (rev (e # ?st)) = (if ?st = [] then [] else join_slash (rev ?st) @ [slash]) @ e"
      using join_slash_snoc [of "rev ?st" e] by simp
    have "join_slash (rev (e # ?st)) \<noteq> []" using that by (simp add: join_ne plain_def)
    then have "Clean (out @ slash # e) = (if is_rooted out then [slash] else []) @ join_slash (rev (e # ?st))"
      unfolding Clean_def r e Let_def using that by (cases "is_rooted out") (simp_all add: plain_step)
    with False show ?thesis unfolding j by (simp add: Join_def)
  qed
  then show ?thesis by blast
qed

lemma Join_under:
  assumes "plain d" and "plain e" and "plain f" and "Join [out, d] = q @ d"
  shows "Join [q @ d, e] = q @ d @ slash # e" "Join [q @ d, e, f] = q @ d @ slash # e @ slash # f"
proof -
  have b: "built (q @ d)" using Join_built [OF assms(1), of out] assms(4) by simp
  show "Join [q @ d, e] = q @ d @ slash # e" using Join_append(1) [OF b assms(2)] by simp
  have b': "built ((q @ d) @ slash # e)" using Join_append(2) [OF b assms(2)] .
  show "Join [q @ d, e, f] = q @ d @ slash # e @ slash # f"
    using Join_append(3) [OF b assms(2), of e] Join_append(1) [OF b' assms(3)] Join_append(3) [OF b assms(3), of e] by simp
qed

lemma gen_paths:
  obtains q where
    "Join [out, ''server''] = q @ ''server''" "Join [out, ''client''] = q @ ''client''"
    "Join [q @ ''server'', ''keys''] = q @ ''server/keys''" "Join [q @ ''client'', ''keys''] = q @ ''client/keys''"
    "Join [q @ ''server'', ''keys'', ''server.crt''] = q @ ''server/keys/server.crt''"
    "Join [q @ ''server'', ''keys'', ''server.key''] = q @ ''server/keys/server.key''"
    "Join [q @ ''client'', ''keys'', ''client.ed25519''] = q @ ''client/keys/client.ed25519''"
    "Join [q @ ''client'', ''keys'', ''client.mldsa''] = q @ ''client/keys/client.mldsa''"
    "Join [q @ ''server'', ''server.yaml''] = q @ ''server/server.yaml''"
    "Join [q @ ''server'', ''docker-compose.yml''] = q @ ''server/docker-compose.yml''"
    "Join [q @ ''client'', ''client.yaml''] = q @ ''client/client.yaml''"
    "Join [q @ ''client'', ''docker-compose.yml''] = q @ ''client/docker-compose.yml''"
proof -
  obtain q where q: "\<forall>e. plain e \<longrightarrow> Join [out, e] = q @ e" using Join_last by blast
  have s: "Join [out, ''server''] = q @ ''server''" and c: "Join [out, ''client''] = q @ ''client''"
    using q plain_names(1,2) by blast+
  note S = Join_under(1) [OF plain_names(1) _ plain_names(1) s] Join_under(2) [OF plain_names(1) _ _ s]
    and C = Join_under(1) [OF plain_names(2) _ plain_names(2) c] Join_under(2) [OF plain_names(2) _ _ c]
  show ?thesis
    by (rule that [of q]) (simp_all add: s c S C plain_names)
qed

section \<open>Runs\<close>

lemma gbind_Inr: "gbind m f s = (Inr y, s') \<longleftrightarrow> (\<exists>x s1. m s = (Inr x, s1) \<and> f x s1 = (Inr y, s'))"
  by (auto simp: gbind_def split: prod.splits sum.splits)

lemma call_Inr:
  "os_call f s = (Inr u, s') \<longleftrightarrow> f s = Inr s'" "key_call g s = (Inr u, s') \<longleftrightarrow> g s = Inr s'"
  "pure_call wrap r s = (Inr x, s') \<longleftrightarrow> r = Inr x \<and> s' = s" "greturn x s = (Inr y, s') \<longleftrightarrow> y = x \<and> s' = s"
  by (auto simp: os_call_def key_call_def pure_call_def greturn_def split: sum.splits)

lemma Chmod_result:
  assumes "Chmod s p perm = Inr s'" and "ReadFile s p = Inr d"
  shows "ReadFile s' p = Inr d" "mode_of s' p = Some perm" "q \<noteq> p \<Longrightarrow> nodes s' q = nodes s q" "denied s' = denied s"
proof -
  from assms(2) obtain m where "nodes s p = Some (File d m)" "\<not> denied s p"
    by (auto simp: ReadFile_def split: option.splits node.splits if_splits)
  with assms(1) have s': "s' = s\<lparr>nodes := (nodes s)(p \<mapsto> File d perm)\<rparr>" "\<not> denied s p" by (simp_all add: Chmod_def)
  then show "ReadFile s' p = Inr d" "mode_of s' p = Some perm" "q \<noteq> p \<Longrightarrow> nodes s' q = nodes s q" "denied s' = denied s"
    by (simp_all add: ReadFile_def mode_of_def)
qed

lemma ReadFile_frame: "nodes s' p = nodes s p \<Longrightarrow> denied s' = denied s \<Longrightarrow> ReadFile s' p = ReadFile s p"
  by (auto simp: ReadFile_def split: option.splits node.splits)

lemma WritePrivkeyPEM_WriteFile:
  "WritePrivkeyPEM enc seed s p priv = Inr s' \<Longrightarrow> WriteFile s p (enc (PrivkeyPEMType, seed priv)) mode_0600 = Inr s'"
  "WritePQPrivkeyPEM enc s p sd = Inr s' \<Longrightarrow> WriteFile s p (enc (PQPrivkeyPEMType, sd)) mode_0600 = Inr s'"
  by (auto simp: WritePrivkeyPEM_def WritePQPrivkeyPEM_def split: if_splits sum.splits)

text \<open>What a successful run did, call by call, from the certificate on.\<close>

lemma Generate_calls:
  assumes "Generate cr IsPrint spec opts s = (Inr r, s')"
  obtains q s0 tls pub priv pqPub pqPriv seed s1 s2 s3 s4 s5 s6 s7 s8 s9 where
    "generateSelfSignedTLS cr = Inr tls" "cr_client_key cr () = Inr (pub, priv)"
    "GeneratePQKeypair (cr_rand_read cr) (cr_new_key_from_seed cr) = Inr (pqPub, pqPriv, seed)"
    "WriteFile s0 (q @ ''server/keys/server.crt'') (kp_CertPEM tls) mode_0644 = Inr s1"
    "WriteFile s1 (q @ ''server/keys/server.key'') (kp_KeyPEM tls) mode_0644 = Inr s2"
    "WritePrivkeyPEM (cr_pem_encode cr) (cr_seed_of cr) s2 (q @ ''client/keys/client.ed25519'') priv = Inr s3"
    "Chmod s3 (q @ ''client/keys/client.ed25519'') mode_0644 = Inr s4"
    "WritePQPrivkeyPEM (cr_pem_encode cr) s4 (q @ ''client/keys/client.mldsa'') seed = Inr s5"
    "Chmod s5 (q @ ''client/keys/client.mldsa'') mode_0644 = Inr s6"
    "WriteFile s6 (q @ ''server/server.yaml'') (str_bytes (renderServerYAML spec (EncodePubkey pub) (EncodePQPubkey (cr_marshal_pk cr) pqPub))) mode_0644 = Inr s7"
    "WriteFile s7 (q @ ''server/docker-compose.yml'') (str_bytes (renderServerCompose IsPrint spec)) mode_0644 = Inr s8"
    "WriteFile s8 (q @ ''client/client.yaml'') (str_bytes (renderClientYAML spec (kp_Fingerprint tls))) mode_0644 = Inr s9"
    "WriteFile s9 (q @ ''client/docker-compose.yml'') (str_bytes (renderClientCompose spec)) mode_0644 = Inr s'"
    "r = \<lparr>gr_ServerDir = q @ ''server'', gr_ClientDir = q @ ''client'', gr_Fingerprint = kp_Fingerprint tls,
       gr_PubKey = EncodePubkey pub, gr_PQPubKey = EncodePQPubkey (cr_marshal_pk cr) pqPub,
       gr_ServerProject = composeProjectName spec ''server'', gr_ClientProject = composeProjectName spec ''client''\<rparr>"
proof -
  obtain q where q:
    "Join [go_OutDir opts, ''server''] = q @ ''server''" "Join [go_OutDir opts, ''client''] = q @ ''client''"
    "Join [q @ ''server'', ''keys''] = q @ ''server/keys''" "Join [q @ ''client'', ''keys''] = q @ ''client/keys''"
    "Join [q @ ''server'', ''keys'', ''server.crt''] = q @ ''server/keys/server.crt''"
    "Join [q @ ''server'', ''keys'', ''server.key''] = q @ ''server/keys/server.key''"
    "Join [q @ ''client'', ''keys'', ''client.ed25519''] = q @ ''client/keys/client.ed25519''"
    "Join [q @ ''client'', ''keys'', ''client.mldsa''] = q @ ''client/keys/client.mldsa''"
    "Join [q @ ''server'', ''server.yaml''] = q @ ''server/server.yaml''"
    "Join [q @ ''server'', ''docker-compose.yml''] = q @ ''server/docker-compose.yml''"
    "Join [q @ ''client'', ''client.yaml''] = q @ ''client/client.yaml''"
    "Join [q @ ''client'', ''docker-compose.yml''] = q @ ''client/docker-compose.yml''"
    by (rule gen_paths)
  have kp: "GenerateKeypair g = Inr ks \<longleftrightarrow> g () = Inr ks" for g ks
    by (auto simp: GenerateKeypair_def split: sum.splits)
  from assms show ?thesis
    unfolding Generate_def q Let_def gbind_Inr call_Inr split_paired_Ex prod.case kp
    by (elim exE conjE) (rule that; (assumption | simp only:))
qed

lemma WriteFile_other:
  assumes "WriteFile s p d m = Inr s'" and "x \<noteq> p"
  shows "ReadFile s' x = ReadFile s x" "mode_of s' x = mode_of s x"
  by (rule ReadFile_frame [OF WriteFile_result(3) [OF assms] WriteFile_result(4) [OF assms(1)]],
      simp add: mode_of_def WriteFile_result(3) [OF assms])

lemma Chmod_other:
  assumes "Chmod s p m = Inr s'" and "x \<noteq> p"
  shows "ReadFile s' x = ReadFile s x" "mode_of s' x = mode_of s x"
proof -
  have n: "nodes s' x = nodes s x" and d: "denied s' = denied s"
    using assms by (auto simp: Chmod_def split: if_splits option.splits node.splits)
  show "ReadFile s' x = ReadFile s x" by (rule ReadFile_frame [OF n d])
  show "mode_of s' x = mode_of s x" by (simp add: mode_of_def n)
qed

lemma generateSelfSignedTLS_Inr:
  assumes "generateSelfSignedTLS cr = Inr tls"
  shows "\<exists>tmpl pub priv der. cr_CreateCertificate cr tmpl tmpl pub priv = Inr der \<and> ct_CommonName tmpl = ''passage'' \<and>
    kp_CertPEM tls = cr_pem_encode cr (''CERTIFICATE'', der) \<and> kp_Fingerprint tls = FormatFingerprint (cr_Sum256 cr der)"
  using assms
  by (auto simp: generateSelfSignedTLS_def FormatFingerprint_def Let_def split: sum.splits prod.splits) force+

text \<open>The files of a finished run.\<close>

lemma Generate_files:
  assumes "Generate cr IsPrint spec opts s = (Inr r, s')"
  obtains tls pub priv pqPub pqPriv seed s2 s3 s4 s5 where
    "generateSelfSignedTLS cr = Inr tls" "cr_client_key cr () = Inr (pub, priv)"
    "GeneratePQKeypair (cr_rand_read cr) (cr_new_key_from_seed cr) = Inr (pqPub, pqPriv, seed)"
    "ReadFile s' (gr_ServerDir r @ ''/keys/server.crt'') = Inr (kp_CertPEM tls)"
    "ReadFile s' (gr_ServerDir r @ ''/keys/server.key'') = Inr (kp_KeyPEM tls)"
    "WritePrivkeyPEM (cr_pem_encode cr) (cr_seed_of cr) s2 (gr_ClientDir r @ ''/keys/client.ed25519'') priv = Inr s3"
    "ReadFile s' (gr_ClientDir r @ ''/keys/client.ed25519'') = ReadFile s3 (gr_ClientDir r @ ''/keys/client.ed25519'')"
    "mode_of s' (gr_ClientDir r @ ''/keys/client.ed25519'') = Some mode_0644"
    "WritePQPrivkeyPEM (cr_pem_encode cr) s4 (gr_ClientDir r @ ''/keys/client.mldsa'') seed = Inr s5"
    "ReadFile s' (gr_ClientDir r @ ''/keys/client.mldsa'') = ReadFile s5 (gr_ClientDir r @ ''/keys/client.mldsa'')"
    "mode_of s' (gr_ClientDir r @ ''/keys/client.mldsa'') = Some mode_0644"
    "ReadFile s' (gr_ServerDir r @ ''/server.yaml'') = Inr (str_bytes (renderServerYAML spec (gr_PubKey r) (gr_PQPubKey r)))"
    "ReadFile s' (gr_ServerDir r @ ''/docker-compose.yml'') = Inr (str_bytes (renderServerCompose IsPrint spec))"
    "ReadFile s' (gr_ClientDir r @ ''/client.yaml'') = Inr (str_bytes (renderClientYAML spec (gr_Fingerprint r)))"
    "ReadFile s' (gr_ClientDir r @ ''/docker-compose.yml'') = Inr (str_bytes (renderClientCompose spec))"
    "gr_Fingerprint r = kp_Fingerprint tls" "gr_PubKey r = EncodePubkey pub"
    "gr_PQPubKey r = EncodePQPubkey (cr_marshal_pk cr) pqPub"
proof -
  from assms obtain q s0 tls pub priv pqPub pqPriv seed s1 s2 s3 s4 s5 s6 s7 s8 s9 where
    k: "generateSelfSignedTLS cr = Inr tls" "cr_client_key cr () = Inr (pub, priv)"
      "GeneratePQKeypair (cr_rand_read cr) (cr_new_key_from_seed cr) = Inr (pqPub, pqPriv, seed)" and
    w1: "WriteFile s0 (q @ ''server/keys/server.crt'') (kp_CertPEM tls) mode_0644 = Inr s1" and
    w2: "WriteFile s1 (q @ ''server/keys/server.key'') (kp_KeyPEM tls) mode_0644 = Inr s2" and
    w3: "WritePrivkeyPEM (cr_pem_encode cr) (cr_seed_of cr) s2 (q @ ''client/keys/client.ed25519'') priv = Inr s3" and
    w4: "Chmod s3 (q @ ''client/keys/client.ed25519'') mode_0644 = Inr s4" and
    w5: "WritePQPrivkeyPEM (cr_pem_encode cr) s4 (q @ ''client/keys/client.mldsa'') seed = Inr s5" and
    w6: "Chmod s5 (q @ ''client/keys/client.mldsa'') mode_0644 = Inr s6" and
    w7: "WriteFile s6 (q @ ''server/server.yaml'')
       (str_bytes (renderServerYAML spec (EncodePubkey pub) (EncodePQPubkey (cr_marshal_pk cr) pqPub))) mode_0644 = Inr s7" and
    w8: "WriteFile s7 (q @ ''server/docker-compose.yml'') (str_bytes (renderServerCompose IsPrint spec)) mode_0644 = Inr s8" and
    w9: "WriteFile s8 (q @ ''client/client.yaml'') (str_bytes (renderClientYAML spec (kp_Fingerprint tls))) mode_0644 = Inr s9" and
    w10: "WriteFile s9 (q @ ''client/docker-compose.yml'') (str_bytes (renderClientCompose spec)) mode_0644 = Inr s'" and
    r: "r = \<lparr>gr_ServerDir = q @ ''server'', gr_ClientDir = q @ ''client'', gr_Fingerprint = kp_Fingerprint tls,
       gr_PubKey = EncodePubkey pub, gr_PQPubKey = EncodePQPubkey (cr_marshal_pk cr) pqPub,
       gr_ServerProject = composeProjectName spec ''server'', gr_ClientProject = composeProjectName spec ''client''\<rparr>"
    by (rule Generate_calls)
  note w3' = WritePrivkeyPEM_WriteFile(1) [OF w3] and w5' = WritePrivkeyPEM_WriteFile(2) [OF w5]
  note other = WriteFile_other [OF w2] WriteFile_other [OF w3'] Chmod_other [OF w4] WriteFile_other [OF w5']
    Chmod_other [OF w6] WriteFile_other [OF w7] WriteFile_other [OF w8] WriteFile_other [OF w9] WriteFile_other [OF w10]
  note here = WriteFile_result(1) [OF w1] WriteFile_result(1) [OF w2] WriteFile_result(1) [OF w3'] WriteFile_result(1) [OF w5']
    Chmod_result(1,2) [OF w4 WriteFile_result(1) [OF w3']] Chmod_result(1,2) [OF w6 WriteFile_result(1) [OF w5']]
    WriteFile_result(1) [OF w7] WriteFile_result(1) [OF w8] WriteFile_result(1) [OF w9] WriteFile_result(1) [OF w10]
  show ?thesis
    by (rule that [OF k, where ?s2.0 = s2 and ?s3.0 = s3 and ?s4.0 = s4 and ?s5.0 = s5])
      (simp_all add: r w3 w5 other here)
qed

section \<open>Properties\<close>

text \<open>The texts of the generated keys and fingerprint are plain scalars.\<close>

lemma plain_prefixed:
  assumes "list_all plain_char t" and "t \<noteq> []" and "last t \<noteq> CHR '':''"
  shows "plain_scalar (''ed25519:'' @ t)" "plain_scalar (''mldsa:'' @ t)" "plain_scalar (''sha256:'' @ t)"
proof -
  have "list_all plain_char ''ed25519:''" "list_all plain_char ''mldsa:''" "list_all plain_char ''sha256:''"
    "is_letter (CHR ''e'')" "is_letter (CHR ''m'')" "is_letter (CHR ''s'')" by code_simp+
  with assms show "plain_scalar (''ed25519:'' @ t)" "plain_scalar (''mldsa:'' @ t)" "plain_scalar (''sha256:'' @ t)"
    unfolding plain_scalar_def by simp_all
qed

lemma plain_texts:
  assumes "list_all (\<lambda>c. plain_char c \<and> c \<noteq> CHR '':'') t" and "t \<noteq> []"
  shows "list_all plain_char t" "last t \<noteq> CHR '':''"
  using assms last_in_set [OF assms(2)] by (auto simp: list_all_iff)

lemma b64_text: "list_all (\<lambda>c. plain_char c \<and> c \<noteq> CHR '':'') (b64_EncodeToString StdEncoding bs)"
proof -
  have "list_all (\<lambda>c. plain_char c \<and> c \<noteq> CHR '':'') (b64_pad # b64_alphabet StdEncoding)" by code_simp
  moreover have "set (b64_EncodeToString StdEncoding bs) \<subseteq> set (b64_pad # b64_alphabet StdEncoding)"
    using set_b64_encode [of StdEncoding bs] by simp
  ultimately show ?thesis by (auto simp: list_all_iff)
qed

lemma hex_text: "list_all (\<lambda>c. plain_char c \<and> c \<noteq> CHR '':'') (hex_EncodeToString bs)"
proof -
  have "list_all (\<lambda>n. plain_char (hextable ! n) \<and> hextable ! n \<noteq> CHR '':'') [0..<16]" by code_simp
  then have "plain_char (hextable ! n) \<and> hextable ! n \<noteq> CHR '':''" if "n < 16" for n using that by (simp add: list_all_iff)
  then show ?thesis
    using unsigned_less [where ?'b = 8 and ?'a = nat]
    by (auto simp: hex_EncodeToString_def hex_byte_def list_all_iff less_mult_imp_div_less)
qed

lemma b64_nonempty: "bs \<noteq> [] \<Longrightarrow> b64_EncodeToString StdEncoding bs \<noteq> []"
  by (metis b64_std_decode_encode b64_EncodeToString.simps(1) option.inject)

lemma plain_keys:
  "pub \<noteq> [] \<Longrightarrow> plain_scalar (EncodePubkey pub)" "HasPrefix (EncodePubkey pub) ''ed25519:''"
  "marshal pk \<noteq> [] \<Longrightarrow> plain_scalar (EncodePQPubkey marshal pk)" "HasPrefix (EncodePQPubkey marshal pk) ''mldsa:''"
  "d \<noteq> [] \<Longrightarrow> plain_scalar (FormatFingerprint d)" "HasPrefix (FormatFingerprint d) ''sha256:''"
  "length (FormatFingerprint d) = 7 + 2 * length d"
proof -
  note pl = plain_prefixed [OF plain_texts(1) _ plain_texts(2)]
  show "plain_scalar (EncodePubkey pub)" if "pub \<noteq> []"
    using pl(1) [OF b64_text _ _ b64_text] b64_nonempty [OF that] by (simp add: EncodePubkey_def PubkeyPrefix_def)
  show "plain_scalar (EncodePQPubkey marshal pk)" if "marshal pk \<noteq> []"
    using pl(2) [OF b64_text _ _ b64_text] b64_nonempty [OF that] by (simp add: EncodePQPubkey_def PQPubkeyPrefix_def)
  show "plain_scalar (FormatFingerprint d)" if "d \<noteq> []"
  proof -
    have "hex_EncodeToString d \<noteq> []" using that length_hex_encode [of d] by fastforce
    then show ?thesis using pl(3) [OF hex_text _ _ hex_text] by (simp add: FormatFingerprint_def)
  qed
  show "HasPrefix (EncodePubkey pub) ''ed25519:''" "HasPrefix (EncodePQPubkey marshal pk) ''mldsa:''"
    "HasPrefix (FormatFingerprint d) ''sha256:''" "length (FormatFingerprint d) = 7 + 2 * length d"
    by (simp_all add: EncodePubkey_def EncodePQPubkey_def FormatFingerprint_def PubkeyPrefix_def PQPubkeyPrefix_def HasPrefix_def)
qed

text \<open>The keys and the fingerprint in the files of a finished run.\<close>

lemma generated_keys:
  assumes "Generate cr IsPrint spec opts s = (Inr r, s')"
    and pem: "\<And>t d. t \<in> {''CERTIFICATE'', PrivkeyPEMType, PQPrivkeyPEMType} \<Longrightarrow> pem_decode (cr_pem_encode cr (t, d)) = Some (t, d)"
    and cert: "\<And>tmpl pub priv der. cr_CreateCertificate cr tmpl tmpl pub priv = Inr der \<Longrightarrow> parse_cert der = Inr \<lparr>Raw = der\<rparr>"
    and seed: "\<And>pub priv. cr_client_key cr () = Inr (pub, priv) \<Longrightarrow>
      length pub = 32 \<and> length (cr_seed_of cr priv) = 32 \<and> key_of (cr_seed_of cr priv) = priv"
    and marshal: "\<And>pk. unmarshal_pk (cr_marshal_pk cr pk) = Some pk \<and> length (cr_marshal_pk cr pk) = 1952"
  obtains der pub priv pk sk where
    "FingerprintFromCertFile pem_decode parse_cert (cr_Sum256 cr) s' (gr_ServerDir r @ ''/keys/server.crt'') = Inr (gr_Fingerprint r)"
    "gr_Fingerprint r = FormatFingerprint (cr_Sum256 cr der)"
    "cr_client_key cr () = Inr (pub, priv)" "gr_PubKey r = EncodePubkey pub" "DecodePubkey (gr_PubKey r) = Inr pub" "length pub = 32"
    "LoadPrivkeyPEM pem_decode key_of s' (gr_ClientDir r @ ''/keys/client.ed25519'') = Inr priv"
    "gr_PQPubKey r = EncodePQPubkey (cr_marshal_pk cr) pk" "DecodePQPubkey unmarshal_pk (gr_PQPubKey r) = Inr pk"
    "LoadPQPrivkeyPEM pem_decode (cr_new_key_from_seed cr) s' (gr_ClientDir r @ ''/keys/client.mldsa'') = Inr (pk, sk)"
    "mode_of s' (gr_ClientDir r @ ''/keys/client.ed25519'') = Some mode_0644"
    "mode_of s' (gr_ClientDir r @ ''/keys/client.mldsa'') = Some mode_0644"
proof -
  from assms(1) obtain tls pub priv pk sk seed s2 s3 s4 s5 where
    tls: "generateSelfSignedTLS cr = Inr tls" and ed: "cr_client_key cr () = Inr (pub, priv)" and
    pq: "GeneratePQKeypair (cr_rand_read cr) (cr_new_key_from_seed cr) = Inr (pk, sk, seed)" and
    crt: "ReadFile s' (gr_ServerDir r @ ''/keys/server.crt'') = Inr (kp_CertPEM tls)" and
    w3: "WritePrivkeyPEM (cr_pem_encode cr) (cr_seed_of cr) s2 (gr_ClientDir r @ ''/keys/client.ed25519'') priv = Inr s3" and
    r3: "ReadFile s' (gr_ClientDir r @ ''/keys/client.ed25519'') = ReadFile s3 (gr_ClientDir r @ ''/keys/client.ed25519'')" and
    m3: "mode_of s' (gr_ClientDir r @ ''/keys/client.ed25519'') = Some mode_0644" and
    w5: "WritePQPrivkeyPEM (cr_pem_encode cr) s4 (gr_ClientDir r @ ''/keys/client.mldsa'') seed = Inr s5" and
    r5: "ReadFile s' (gr_ClientDir r @ ''/keys/client.mldsa'') = ReadFile s5 (gr_ClientDir r @ ''/keys/client.mldsa'')" and
    m5: "mode_of s' (gr_ClientDir r @ ''/keys/client.mldsa'') = Some mode_0644" and
    res: "gr_Fingerprint r = kp_Fingerprint tls" "gr_PubKey r = EncodePubkey pub"
      "gr_PQPubKey r = EncodePQPubkey (cr_marshal_pk cr) pk"
    by (rule Generate_files)
  from generateSelfSignedTLS_Inr [OF tls] obtain tmpl tp ts der where
    der: "cr_CreateCertificate cr tmpl tmpl tp ts = Inr der" "kp_CertPEM tls = cr_pem_encode cr (''CERTIFICATE'', der)"
      "kp_Fingerprint tls = FormatFingerprint (cr_Sum256 cr der)" by blast
  have fp: "FingerprintFromCertFile pem_decode parse_cert (cr_Sum256 cr) s' (gr_ServerDir r @ ''/keys/server.crt'') =
      Inr (gr_Fingerprint r)"
    unfolding FingerprintFromCertFile_Inr using crt pem cert der res(1) by auto
  have "LoadPrivkeyPEM pem_decode key_of s3 (gr_ClientDir r @ ''/keys/client.ed25519'') = Inr priv"
    by (rule LoadPrivkeyPEM_Write [OF w3]) (use pem seed [OF ed] in \<open>simp_all add: ed_sizes\<close>)
  then have ed': "LoadPrivkeyPEM pem_decode key_of s' (gr_ClientDir r @ ''/keys/client.ed25519'') = Inr priv"
    unfolding LoadPrivkeyPEM_def r3 .
  have "LoadPQPrivkeyPEM pem_decode (cr_new_key_from_seed cr) s5 (gr_ClientDir r @ ''/keys/client.mldsa'') =
      Inr (cr_new_key_from_seed cr seed)"
    by (rule LoadPQPrivkeyPEM_Write [OF w5]) (simp add: pem)
  moreover have "cr_new_key_from_seed cr seed = (pk, sk)"
    using pq by (auto simp: GeneratePQKeypair_def split: sum.splits prod.splits)
  ultimately have pq': "LoadPQPrivkeyPEM pem_decode (cr_new_key_from_seed cr) s' (gr_ClientDir r @ ''/keys/client.mldsa'') =
      Inr (pk, sk)"
    unfolding LoadPQPrivkeyPEM_def r5 by simp
  have dec: "DecodePubkey (gr_PubKey r) = Inr pub" "DecodePQPubkey unmarshal_pk (gr_PQPubKey r) = Inr pk"
    using DecodePubkey_encoded [of pub StdEncoding] DecodePQPubkey_encoded [of unmarshal_pk "cr_marshal_pk cr" pk StdEncoding]
      seed [OF ed] marshal
    by (simp_all add: res EncodePubkey_def EncodePQPubkey_def key_encodings_def ed_sizes ml_sizes)
  show ?thesis
    by (rule that [OF fp _ ed res(2) dec(1) _ ed' res(3) dec(2) pq' m3 m5]) (simp_all add: res(1) der(3) seed [OF ed])
qed

text \<open>
  C24: a generated deployment fits together.  Take a successful run on an accepted description whose texts
  YAML reads as they stand, in host mode or with distinct ports, a decoder that reads the plain part of YAML, a
  PEM codec and a certificate parser that read back what was written, 32-byte digests and keys their seed determines.
  Then both configuration files load.  The client's one pins the fingerprint that is computed from the
  server's certificate file and names the described address; the server's one listens where described
  and has one client, with the name the client's one has, whose keys decode to the public keys of the
  two private keys in the client's key files; the services the client asks for are those the server
  grants it, each forwarded to the described target; and the two key files are readable by everyone.
\<close>

theorem generated_deployment_fits:
  assumes "Generate cr IsPrint spec opts s = (Inr r, s')"
    and "Validate_spec spec = None" and "distinct (map fst (sp_Services spec))" and "plain_spec spec"
    and "sv_Mode (sp_Server spec) = ''host'' \<or> distinct (map (port_of \<circ> snd) (sp_Services spec))"
    and "reads_server Decode_server" and "reads_client Decode_client"
    and "\<And>t d. t \<in> {''CERTIFICATE'', PrivkeyPEMType, PQPrivkeyPEMType} \<Longrightarrow> pem_decode (cr_pem_encode cr (t, d)) = Some (t, d)"
    and "\<And>tmpl pub priv der. cr_CreateCertificate cr tmpl tmpl pub priv = Inr der \<Longrightarrow> parse_cert der = Inr \<lparr>Raw = der\<rparr>"
    and "\<And>d. length (cr_Sum256 cr d) = 32"
    and "\<And>pub priv. cr_client_key cr () = Inr (pub, priv) \<Longrightarrow>
      length pub = 32 \<and> length (cr_seed_of cr priv) = 32 \<and> key_of (cr_seed_of cr priv) = priv"
    and "\<And>pk. unmarshal_pk (cr_marshal_pk cr pk) = Some pk \<and> length (cr_marshal_pk cr pk) = 1952"
  shows "\<exists>scfg ccfg ce pub priv pk sk.
    LoadServer Decode_server s' (gr_ServerDir r @ ''/server.yaml'') = Inr scfg \<and>
    LoadClient Decode_client s' (gr_ClientDir r @ ''/client.yaml'') = Inr ccfg \<and>
    FingerprintFromCertFile pem_decode parse_cert (cr_Sum256 cr) s' (gr_ServerDir r @ ''/keys/server.crt'') =
      Inr (cc_ServerFingerprint ccfg) \<and>
    cc_Remote ccfg = sv_Address (sp_Server spec) \<and> sc_Listen scfg = sv_Listen (sp_Server spec) \<and>
    sc_Clients scfg = [ce] \<and> ce_ID ce = ci_ID (cs_Identity (sp_Client spec)) \<and> id_ID (cc_Identity ccfg) = ce_ID ce \<and>
    cr_client_key cr () = Inr (pub, priv) \<and> map DecodePubkey (ce_Pubkey ce) = [Inr pub] \<and>
    LoadPrivkeyPEM pem_decode key_of s' (gr_ClientDir r @ ''/keys/client.ed25519'') = Inr priv \<and>
    map (DecodePQPubkey unmarshal_pk) (ce_PQPubkey ce) = [Inr pk] \<and>
    LoadPQPrivkeyPEM pem_decode (cr_new_key_from_seed cr) s' (gr_ClientDir r @ ''/keys/client.mldsa'') = Inr (pk, sk) \<and>
    mset (ServiceNames ccfg) = mset (map se_Name (ce_Services ce)) \<and>
    mset (cc_Services ccfg) = mset (map (\<lambda>(name, sv). (name, ss_Client sv)) (sp_Services spec)) \<and>
    mode_of s' (gr_ClientDir r @ ''/keys/client.ed25519'') = Some mode_0644 \<and>
    mode_of s' (gr_ClientDir r @ ''/keys/client.mldsa'') = Some mode_0644"
proof -
  have ok: "spec_ok spec" using assms(2) by (simp add: Validate_spec_None_iff)
  from assms(1,8,9,11,12) obtain der pub priv pk sk where
    fp: "FingerprintFromCertFile pem_decode parse_cert (cr_Sum256 cr) s' (gr_ServerDir r @ ''/keys/server.crt'') = Inr (gr_Fingerprint r)"
      "gr_Fingerprint r = FormatFingerprint (cr_Sum256 cr der)" and
    ed: "cr_client_key cr () = Inr (pub, priv)" "gr_PubKey r = EncodePubkey pub" "DecodePubkey (gr_PubKey r) = Inr pub" "length pub = 32"
      "LoadPrivkeyPEM pem_decode key_of s' (gr_ClientDir r @ ''/keys/client.ed25519'') = Inr priv" and
    pq: "gr_PQPubKey r = EncodePQPubkey (cr_marshal_pk cr) pk" "DecodePQPubkey unmarshal_pk (gr_PQPubKey r) = Inr pk"
      "LoadPQPrivkeyPEM pem_decode (cr_new_key_from_seed cr) s' (gr_ClientDir r @ ''/keys/client.mldsa'') = Inr (pk, sk)" and
    modes: "mode_of s' (gr_ClientDir r @ ''/keys/client.ed25519'') = Some mode_0644"
      "mode_of s' (gr_ClientDir r @ ''/keys/client.mldsa'') = Some mode_0644"
    by (rule generated_keys)
  have texts: "ReadFile s' (gr_ServerDir r @ ''/server.yaml'') = Inr (str_bytes (renderServerYAML spec (gr_PubKey r) (gr_PQPubKey r)))"
    "ReadFile s' (gr_ClientDir r @ ''/client.yaml'') = Inr (str_bytes (renderClientYAML spec (gr_Fingerprint r)))"
    using assms(1) by (auto elim: Generate_files)
  have ne: "pub \<noteq> []" "cr_marshal_pk cr pk \<noteq> []" "cr_Sum256 cr der \<noteq> []"
    using ed(4) assms(10) [of der] assms(12) [of pk] by fastforce+
  have srv: "LoadServer Decode_server s' (gr_ServerDir r @ ''/server.yaml'') = Inr (server_of spec (gr_PubKey r) (gr_PQPubKey r))"
    using LoadServer_generated [OF ok assms(3,4) _ _ _ _ assms(6) texts(1)] plain_keys(1,2) [of pub]
      plain_keys(3,4) [of "cr_marshal_pk cr" pk] ne(1,2) assms(5) by (simp add: ed(2) pq(1))
  have "length (gr_Fingerprint r) = 71" "plain_scalar (gr_Fingerprint r)" "HasPrefix (gr_Fingerprint r) ''sha256:''"
    using plain_keys(5-7) [of "cr_Sum256 cr der"] ne(3) assms(10) [of der] by (simp_all add: fp(2))
  from LoadClient_generated [OF ok assms(3,4) this(2,3,1) assms(7) texts(2)] obtain svcs where
    svcs: "mset svcs = mset (map (\<lambda>(n, sv). (n, ss_Client sv)) (sp_Services spec))" and
    cl: "LoadClient Decode_client s' (gr_ClientDir r @ ''/client.yaml'') = Inr (client_of spec (gr_Fingerprint r) svcs)" by blast
  have "image_mset fst (mset svcs) = mset (map fst (sp_Services spec))"
    unfolding svcs by (simp add: multiset.map_comp o_def case_prod_unfold)
  then have names: "mset (ServiceNames (client_of spec (gr_Fingerprint r) svcs)) = mset (map se_Name (listed_services spec))"
    by (simp add: ServiceNames_def client_of_def client_read_def listed_services_def names_listens_def o_def sorted_names(3))
  let ?ce = "\<lparr>ce_ID = ci_ID (cs_Identity (sp_Client spec)), ce_Pubkey = [gr_PubKey r], ce_PQPubkey = [gr_PQPubKey r],
      ce_Services = listed_services spec\<rparr>"
  have "sc_Clients (server_of spec (gr_PubKey r) (gr_PQPubKey r)) = [?ce]"
    "sc_Listen (server_of spec (gr_PubKey r) (gr_PQPubKey r)) = sv_Listen (sp_Server spec)"
    by (simp_all add: server_of_def server_read_def listed_services_def)
  moreover have "cc_ServerFingerprint (client_of spec (gr_Fingerprint r) svcs) = gr_Fingerprint r"
    "cc_Remote (client_of spec (gr_Fingerprint r) svcs) = sv_Address (sp_Server spec)"
    "id_ID (cc_Identity (client_of spec (gr_Fingerprint r) svcs)) = ce_ID ?ce"
    "cc_Services (client_of spec (gr_Fingerprint r) svcs) = svcs"
    by (simp_all add: client_of_def client_read_def)
  ultimately show ?thesis
    using srv cl fp(1) ed(1,3,5) pq(2,3) names svcs modes
    by (intro exI [of _ "server_of spec (gr_PubKey r) (gr_PQPubKey r)"] exI [of _ "client_of spec (gr_Fingerprint r) svcs"]
        exI [of _ ?ce] exI [of _ pub] exI [of _ priv] exI [of _ pk] exI [of _ sk]) simp
qed

definition ex_crypto :: "(unit, bytes) crypto" where
  "ex_crypto = \<lparr>cr_tls_key = Inr ([3], [4]), cr_Int = (\<lambda>_. Inr 1), cr_Now = Unix 0,
     cr_CreateCertificate = (\<lambda>_ _ _ _. Inr [1]), cr_MarshalPKCS8 = (\<lambda>_. Inr [2]), cr_Sum256 = (\<lambda>_. replicate 32 7),
     cr_pem_encode = ex_pem_encode, cr_client_key = (\<lambda>_. Inr (replicate 32 5, replicate 64 6)),
     cr_seed_of = (\<lambda>_. replicate 32 6), cr_rand_read = (\<lambda>n. Inr (replicate n 8)),
     cr_new_key_from_seed = (\<lambda>s. ((), s)), cr_marshal_pk = (\<lambda>_. replicate 1952 2)\<rparr>"

definition ex_options :: GenerateOptions where
  "ex_options = \<lparr>go_OutDir = [], go_Force = False\<rparr>"

lemma ex_paths:
  "Join [[], ''server''] = ''server''" "Join [[], ''client''] = ''client''"
  "Join [''server'', ''keys''] = ''server/keys''" "Join [''client'', ''keys''] = ''client/keys''"
  "Join [''server'', ''keys'', ''server.crt''] = ''server/keys/server.crt''"
  "Join [''server'', ''keys'', ''server.key''] = ''server/keys/server.key''"
  "Join [''client'', ''keys'', ''client.ed25519''] = ''client/keys/client.ed25519''"
  "Join [''client'', ''keys'', ''client.mldsa''] = ''client/keys/client.mldsa''"
  "Join [''server'', ''server.yaml''] = ''server/server.yaml''"
  "Join [''server'', ''docker-compose.yml''] = ''server/docker-compose.yml''"
  "Join [''client'', ''client.yaml''] = ''client/client.yaml''"
  "Join [''client'', ''docker-compose.yml''] = ''client/docker-compose.yml''"
  by code_simp+

lemma ex_dirs:
  "dirname ''server'' = []" "dirname ''client'' = []" "dirname ''server/keys'' = ''server''" "dirname ''client/keys'' = ''client''"
  "dirname ''server/keys/server.crt'' = ''server/keys''" "dirname ''server/keys/server.key'' = ''server/keys''"
  "dirname ''client/keys/client.ed25519'' = ''client/keys''" "dirname ''client/keys/client.mldsa'' = ''client/keys''"
  "dirname ''server/server.yaml'' = ''server''" "dirname ''server/docker-compose.yml'' = ''server''"
  "dirname ''client/client.yaml'' = ''client''" "dirname ''client/docker-compose.yml'' = ''client''"
  by code_simp+

lemma Mkdir_one:
  "is_dir s (dirname p) \<Longrightarrow> \<not> is_dir s p \<Longrightarrow> nodes s p = None \<Longrightarrow> \<not> denied s p \<Longrightarrow>
   MkdirAll s p = Inr (s\<lparr>nodes := (nodes s)(p \<mapsto> Dir)\<rparr>)"
  by (subst MkdirAll.simps, subst MkdirAll.simps) simp

lemma ex_run: "\<exists>r s'. Generate ex_crypto (\<lambda>_. False) spec ex_options empty_fs = (Inr r, s')"
  unfolding Generate_def ex_options_def Let_def GenerateOptions.simps ex_paths
  by (simp add: gbind_def os_call_def key_call_def pure_call_def greturn_def ensureFreshDir_def Stat_def
      empty_fs_def Mkdir_one is_dir_def ex_dirs generateSelfSignedTLS_def ex_crypto_def GenerateKeypair_def
      GeneratePQKeypair_def WritePrivkeyPEM_def WritePQPrivkeyPEM_def WriteFile_def Chmod_def Let_def ed_sizes ml_sizes)

theorem generated_deployment_fits_witness:
  "\<exists>r s' scfg ccfg. Generate ex_crypto (\<lambda>_. False) host_spec ex_options empty_fs = (Inr r, s') \<and>
     LoadServer (ex_decode read_server) s' (gr_ServerDir r @ ''/server.yaml'') = Inr scfg \<and>
     LoadClient (ex_decode read_client) s' (gr_ClientDir r @ ''/client.yaml'') = Inr ccfg \<and>
     FingerprintFromCertFile ex_pem_decode (\<lambda>d. Inr \<lparr>Raw = d\<rparr>) (cr_Sum256 ex_crypto) s'
       (gr_ServerDir r @ ''/keys/server.crt'') = Inr (cc_ServerFingerprint ccfg)"
proof -
  obtain r s' where g: "Generate ex_crypto (\<lambda>_. False) host_spec ex_options empty_fs = (Inr r, s')" using ex_run by blast
  have pem: "ex_pem_decode (cr_pem_encode ex_crypto (t, d)) = Some (t, d)" for t d by (simp add: ex_crypto_def)
  have ed: "length pub = 32 \<and> length (cr_seed_of ex_crypto priv) = 32 \<and> (\<lambda>_. replicate 64 6) (cr_seed_of ex_crypto priv) = priv"
    if "cr_client_key ex_crypto () = Inr (pub, priv)" for pub priv
    using that by (auto simp: ex_crypto_def)
  have pq: "(\<lambda>_. Some ()) (cr_marshal_pk ex_crypto pk) = Some pk \<and> length (cr_marshal_pk ex_crypto pk) = 1952" for pk
    by (simp add: ex_crypto_def)
  have sum: "length (cr_Sum256 ex_crypto d) = 32" for d by (simp add: ex_crypto_def)
  have spec: "Validate_spec host_spec = None" "distinct (map fst (sp_Services host_spec))" "plain_spec host_spec"
    "sv_Mode (sp_Server host_spec) = ''host'' \<or> distinct (map (port_of \<circ> snd) (sp_Services host_spec))"
    using host_spec_ok by simp_all
  show ?thesis
    using g generated_deployment_fits [OF g spec ex_decode_reads pem refl sum ed pq] by blast
qed

section \<open>Nothing is overwritten\<close>

text \<open>A later file system still has everything an earlier one had, unchanged.\<close>

definition keeps :: "fs \<Rightarrow> fs \<Rightarrow> bool" where
  "keeps s s' \<longleftrightarrow> (\<forall>p. nodes s p \<noteq> None \<longrightarrow> nodes s' p = nodes s p)"

definition careful :: "fs \<Rightarrow> 'a gen \<Rightarrow> bool" where
  "careful s m \<longleftrightarrow> (\<forall>s1. keeps s s1 \<longrightarrow> keeps s (snd (m s1)))"

lemma careful_bind: "careful s m \<Longrightarrow> (\<And>x. careful s (f x)) \<Longrightarrow> careful s (gbind m f)"
  unfolding careful_def gbind_def by (auto split: prod.splits sum.splits)

lemma careful_pure: "careful s (pure_call wrap r)" "careful s (greturn x)"
  by (auto simp: careful_def pure_call_def greturn_def split: sum.splits)

lemma careful_MkdirAll: "careful s (os_call (\<lambda>s. MkdirAll s p))"
  unfolding careful_def os_call_def
proof (intro allI impI)
  fix s1 assume k: "keeps s s1"
  show "keeps s (snd (case MkdirAll s1 p of Inl err \<Rightarrow> (Inl (GenOS err), s1) | Inr s' \<Rightarrow> (Inr (), s')))"
  proof (cases "MkdirAll s1 p")
    case (Inr s')
    from MkdirAll_result [OF this] have "\<forall>q. nodes s1 q \<noteq> None \<longrightarrow> nodes s' q = nodes s1 q" by blast
    with k Inr show ?thesis unfolding keeps_def by simp
  qed (use k in simp)
qed

lemma careful_at:
  assumes "nodes s p = None" and "\<And>s1 s2. f s1 = Inr s2 \<Longrightarrow> \<forall>q. q \<noteq> p \<longrightarrow> nodes s2 q = nodes s1 q"
  shows "careful s (os_call f)"
proof -
  have "keeps s s2" if k: "keeps s s1" and f: "f s1 = Inr s2" for s1 s2
    unfolding keeps_def
  proof (intro allI impI)
    fix q assume q: "nodes s q \<noteq> None"
    then have "q \<noteq> p" using assms(1) by auto
    with assms(2) [OF f] have "nodes s2 q = nodes s1 q" by blast
    with k q show "nodes s2 q = nodes s q" unfolding keeps_def by simp
  qed
  then show ?thesis by (auto simp: careful_def os_call_def split: sum.splits)
qed

lemma careful_key:
  assumes "nodes s p = None" and "\<And>s1 s2. f s1 = Inr s2 \<Longrightarrow> \<forall>q. q \<noteq> p \<longrightarrow> nodes s2 q = nodes s1 q"
  shows "careful s (key_call f)"
proof -
  have "keeps s s2" if k: "keeps s s1" and f: "f s1 = Inr s2" for s1 s2
    unfolding keeps_def
  proof (intro allI impI)
    fix q assume q: "nodes s q \<noteq> None"
    then have "q \<noteq> p" using assms(1) by auto
    with assms(2) [OF f] have "nodes s2 q = nodes s1 q" by blast
    with k q show "nodes s2 q = nodes s q" unfolding keeps_def by simp
  qed
  then show ?thesis by (auto simp: careful_def key_call_def split: sum.splits)
qed

lemma careful_ops:
  assumes "nodes s p = None"
  shows "careful s (os_call (\<lambda>s. WriteFile s p d m))" "careful s (os_call (\<lambda>s. Chmod s p m))"
    "careful s (key_call (\<lambda>s. WritePrivkeyPEM enc seed s p priv))" "careful s (key_call (\<lambda>s. WritePQPrivkeyPEM enc s p sd))"
proof -
  show "careful s (os_call (\<lambda>s. WriteFile s p d m))" using WriteFile_result(3) by (intro careful_at [OF assms]) blast
  show "careful s (os_call (\<lambda>s. Chmod s p m))"
    by (intro careful_at [OF assms]) (auto simp: Chmod_def split: if_splits option.splits node.splits)
  show "careful s (key_call (\<lambda>s. WritePrivkeyPEM enc seed s p priv))"
    using WritePrivkeyPEM_WriteFile(1) WriteFile_result(3) by (intro careful_key [OF assms]) blast
  show "careful s (key_call (\<lambda>s. WritePQPrivkeyPEM enc s p sd))"
    using WritePrivkeyPEM_WriteFile(2) WriteFile_result(3) by (intro careful_key [OF assms]) blast
qed

text \<open>In a tree, nothing lies below a path that is not there.\<close>

lemma dirname_below:
  assumes "prefix (d @ [slash]) q"
  shows "below d (dirname q)"
proof -
  from assms obtain r where q: "q = d @ slash # r" by (auto simp: prefix_def)
  show ?thesis
  proof (cases "last_index_byte r slash")
    case None
    then have "slash \<notin> set r" by simp
    then show ?thesis by (simp add: q dirname_append below_def)
  next
    case (Some i)
    have r: "r = take i r @ slash # drop (Suc i) r" "slash \<notin> set (drop (Suc i) r)"
      using last_index_byte_Some [OF Some] by blast+
    have "q = (d @ slash # take i r) @ slash # drop (Suc i) r" using r(1) by (simp add: q)
    then have "dirname q = d @ slash # take i r" using dirname_append [OF r(2)] by metis
    then show ?thesis by (simp add: below_def)
  qed
qed

lemma nothing_below:
  assumes "fs_tree s" and "nodes s d = None" and "d \<noteq> []" and "below d q"
  shows "nodes s q = None"
  using assms(4)
proof (induction "length q" arbitrary: q rule: less_induct)
  case less
  show ?case
  proof (cases "q = d")
    case False
    with less.prems have q: "prefix (d @ [slash]) q" by (simp add: below_def)
    then have "q \<noteq> []" by auto
    have b: "below d (dirname q)" by (rule dirname_below [OF q])
    then have "nodes s (dirname q) = None" using less.hyps dirname_shorter [OF \<open>q \<noteq> []\<close>] by blast
    moreover have "dirname q \<noteq> []" using b assms(3) by (auto simp: below_def)
    ultimately have "\<not> is_dir s (dirname q)" by (simp add: is_dir_def)
    with assms(1) show ?thesis unfolding fs_tree_def by blast
  qed (use assms(2) in simp)
qed

lemma careful_bind_if:
  assumes "careful s m" and "\<And>x s1 s2. keeps s s1 \<Longrightarrow> m s1 = (Inr x, s2) \<Longrightarrow> P" and "\<And>x. P \<Longrightarrow> careful s (f x)"
  shows "careful s (gbind m f)"
  unfolding careful_def
proof (intro allI impI)
  fix s1 assume k: "keeps s s1"
  obtain res s2 where m: "m s1 = (res, s2)" by fastforce
  with assms(1) k have k2: "keeps s s2" unfolding careful_def by (metis snd_conv)
  show "keeps s (snd (gbind m f s1))"
  proof (cases res)
    case (Inr x)
    with m assms(2) k have P by blast
    with assms(3) k2 m Inr show ?thesis by (simp add: careful_def gbind_def)
  qed (use m k2 in \<open>simp add: gbind_def\<close>)
qed

lemma careful_case: "(\<And>a b. careful s (f a b)) \<Longrightarrow> careful s (case x of (a, b) \<Rightarrow> f a b)"
  by (cases x) simp

lemma ensureFreshDir_careful: "careful s (ensureFreshDir d False)"
  unfolding careful_def
proof (intro allI impI)
  fix s1 assume k: "keeps s s1"
  have "keeps s (snd (os_call (\<lambda>s. MkdirAll s d) s1))" using careful_MkdirAll k unfolding careful_def by blast
  with k show "keeps s (snd (ensureFreshDir d False s1))"
    by (auto simp: ensureFreshDir_def split: sum.splits node.splits os_error.splits)
qed

lemma ensureFreshDir_fresh: "ensureFreshDir d False s1 = (Inr u, s2) \<Longrightarrow> nodes s1 d = None"
  by (auto simp: ensureFreshDir_def Stat_def split: sum.splits node.splits os_error.splits option.splits if_splits)

lemma Generate_careful:
  assumes tree: "fs_tree s" and "\<not> go_Force opts"
  shows "careful s (Generate cr IsPrint spec opts)"
proof -
  obtain q where q:
    "Join [go_OutDir opts, ''server''] = q @ ''server''" "Join [go_OutDir opts, ''client''] = q @ ''client''"
    "Join [q @ ''server'', ''keys''] = q @ ''server/keys''" "Join [q @ ''client'', ''keys''] = q @ ''client/keys''"
    "Join [q @ ''server'', ''keys'', ''server.crt''] = q @ ''server/keys/server.crt''"
    "Join [q @ ''server'', ''keys'', ''server.key''] = q @ ''server/keys/server.key''"
    "Join [q @ ''client'', ''keys'', ''client.ed25519''] = q @ ''client/keys/client.ed25519''"
    "Join [q @ ''client'', ''keys'', ''client.mldsa''] = q @ ''client/keys/client.mldsa''"
    "Join [q @ ''server'', ''server.yaml''] = q @ ''server/server.yaml''"
    "Join [q @ ''server'', ''docker-compose.yml''] = q @ ''server/docker-compose.yml''"
    "Join [q @ ''client'', ''client.yaml''] = q @ ''client/client.yaml''"
    "Join [q @ ''client'', ''docker-compose.yml''] = q @ ''client/docker-compose.yml''"
    by (rule gen_paths)
  have f: "go_Force opts = False" using assms(2) by simp
  have fresh: "nodes s d = None" if "keeps s s1" "ensureFreshDir d False s1 = (Inr u, s2)" for d s1 s2 u
    using ensureFreshDir_fresh [OF that(2)] that(1) unfolding keeps_def by (metis option.distinct(1))
  have none: "nodes s (q @ p) = None" if "nodes s (q @ d) = None" "prefix (d @ [slash]) p" "d \<noteq> []" for p d
    using nothing_below [OF tree that(1)] that(2,3) by (simp add: below_def)
  have files:
    "nodes s (q @ ''server/keys/server.crt'') = None" "nodes s (q @ ''server/keys/server.key'') = None"
    "nodes s (q @ ''client/keys/client.ed25519'') = None" "nodes s (q @ ''client/keys/client.mldsa'') = None"
    "nodes s (q @ ''server/server.yaml'') = None" "nodes s (q @ ''server/docker-compose.yml'') = None"
    "nodes s (q @ ''client/client.yaml'') = None" "nodes s (q @ ''client/docker-compose.yml'') = None"
    if S: "nodes s (q @ ''server'') = None" and C: "nodes s (q @ ''client'') = None"
    by (rule none [OF S] none [OF C]; simp; fail)+
  show ?thesis
    unfolding Generate_def q Let_def f
    apply (rule careful_bind_if [OF ensureFreshDir_careful fresh], assumption, assumption)
    apply (rule careful_bind_if [OF ensureFreshDir_careful fresh], assumption, assumption)
    apply (intro careful_bind careful_case careful_pure careful_MkdirAll careful_ops files; assumption)
    done
qed

text \<open>
  C25: without \<open>-force\<close> nothing is overwritten.  On a file system in which everything lies in a directory,
  a run without \<open>-force\<close> leaves every existing file and directory as it was, whether it succeeds or
  fails, at whatever call.
\<close>

theorem no_overwrite_without_force:
  assumes "fs_tree s" and "\<not> go_Force opts" and "Generate cr IsPrint spec opts s = (res, s')"
    and "nodes s p \<noteq> None"
  shows "nodes s' p = nodes s p"
  using Generate_careful [OF assms(1,2), of cr IsPrint spec] assms(3,4)
  by (metis careful_def keeps_def snd_conv)

theorem no_overwrite_without_force_witness:
  "\<exists>res s'. Generate ex_crypto (\<lambda>_. False) ex_spec ex_options
       \<lparr>nodes = [''client'' \<mapsto> Dir, ''client/x'' \<mapsto> File [1] mode_0644], denied = (\<lambda>_. False)\<rparr> = (res, s') \<and>
     nodes s' ''client/x'' = Some (File [1] mode_0644)"
proof -
  let ?s = "\<lparr>nodes = [''client'' \<mapsto> Dir, ''client/x'' \<mapsto> File [1] mode_0644], denied = (\<lambda>_. False)\<rparr>"
  obtain res s' where g: "Generate ex_crypto (\<lambda>_. False) ex_spec ex_options ?s = (res, s')" by fastforce
  have "dirname ''client/x'' = ''client''" by code_simp
  then have "fs_tree ?s" by (simp add: fs_tree_def is_dir_def ex_dirs)
  moreover have "\<not> go_Force ex_options" by (simp add: ex_options_def)
  ultimately have "nodes s' ''client/x'' = nodes ?s ''client/x''"
    by (rule no_overwrite_without_force [OF _ _ g]) simp
  with g show ?thesis by auto
qed

end
