(* ===== verification/Cli.thy ===== *)
theory Cli
  imports GoFlag QuickDocker Handshake
begin

text \<open>
  \<open>cmd/passage/main.go\<close>: the subcommands, their flags, what they print on standard output and the
  exit status.  Logging is left out.  The libraries and the outside world are one record: the YAML
  decoders, the cryptographic operations, what the network does to a client, and what ends a server.
\<close>

definition version :: string where "version = ''1.0.1''"

datatype 'e cli_error =
    FlagError flag_error | Required string string | OneArgument string
  | LoadConfig "'e load_error" | NewServerError server_error | ListenError string string
  | ClientError client_error | AuthError auth_error | CertError tls_error
  | LoadSpec "'e spec_load_error" | GenerateError gen_error

record ('pk, 'sk, 'kp, 'o, 'y, 'e) platform =
  pl_crypto :: "('pk, 'sk) crypto"
  pl_decode_server :: "bool \<Rightarrow> string \<Rightarrow> 'e + ServerConfig"
  pl_decode_client :: "bool \<Rightarrow> string \<Rightarrow> 'e + ClientConfig"
  pl_decode_spec :: "bool \<Rightarrow> string \<Rightarrow> 'e + Spec"
  pl_IsPrint :: "string \<Rightarrow> bool"
  pl_load_keypair :: "string \<Rightarrow> string \<Rightarrow> string + 'kp"
  pl_unmarshal_pk :: "bytes \<Rightarrow> 'pk option"
  pl_pem_decode :: "bytes \<Rightarrow> pem_block option"
  pl_key_of :: "bytes \<Rightarrow> bytes"
  pl_parse_certificate :: "bytes \<Rightarrow> string + Certificate"
  pl_ed_sign :: "bytes \<Rightarrow> bytes \<Rightarrow> bytes"
  pl_ml_sign_to :: "'sk \<Rightarrow> bytes \<Rightarrow> bytes \<Rightarrow> bool \<Rightarrow> string + bytes"
  pl_listen :: "string \<Rightarrow> string option"
  pl_accepts :: "(bool option) list"
  pl_client_env :: client_env
  pl_yamux :: "('o, 'y) yamux"
  pl_run_steps :: "run_step list"

section \<open>The server's main loop\<close>

text \<open>
  \<open>Server.Run\<close> as its caller sees it: the error of \<open>Listen\<close>, or nil at the first \<open>Accept\<close> that fails
  because the listener was closed or the context is done (\<^term>\<open>Some True\<close>); it goes on after any
  other failure (\<^term>\<open>Some False\<close>) and after a connection (\<^term>\<open>None :: bool option\<close>).  The result
  is \<^const>\<open>None\<close> while the loop is still running.
\<close>

fun accept_loop :: "(bool option) list \<Rightarrow> unit option" where
  "accept_loop [] = None"
| "accept_loop (Some True # evs) = Some ()"
| "accept_loop (Some False # evs) = accept_loop evs"
| "accept_loop (None # evs) = accept_loop evs"

definition Server_Run :: "(string \<Rightarrow> string option) \<Rightarrow> (bool option) list \<Rightarrow> ('pk, 'kp) Server \<Rightarrow> 'e cli_error option option" where
  "Server_Run listen accepts srv =
     (case listen (sc_Listen (srv_cfg srv)) of
        Some err \<Rightarrow> Some (Some (ListenError (sc_Listen (srv_cfg srv)) err))
      | None \<Rightarrow> map_option (\<lambda>_. None) (accept_loop accepts))"

section \<open>The subcommands\<close>

text \<open>The error a subcommand returns, what it has printed and the file system it leaves; \<^const>\<open>None\<close> while it runs.\<close>

type_synonym 'e outcome = "('e cli_error option \<times> string \<times> fs) option"

abbreviation string_flags :: "string list \<Rightarrow> (string \<rightharpoonup> flag_kind)" where
  "string_flags names \<equiv> map_of (map (\<lambda>n. (n, StringFlag)) names)"

definition runServer :: "('pk, 'sk, 'kp, 'o, 'y, 'e) platform \<Rightarrow> string list \<Rightarrow> fs \<Rightarrow> 'e outcome" where
  "runServer pl args s =
     (case flag_Parse (string_flags [''config'']) Map.empty args of
        Inl err \<Rightarrow> Some (Some (FlagError err), [], s)
      | Inr (vals, _) \<Rightarrow>
          (let cfgPath = flag_string vals ''config'' [] in
           if cfgPath = [] then Some (Some (Required ''server'' ''config''), [], s)
           else case LoadServer (pl_decode_server pl) s cfgPath of
             Inl err \<Rightarrow> Some (Some (LoadConfig err), [], s)
           | Inr cfg \<Rightarrow>
               (case NewServer (pl_load_keypair pl) (pl_unmarshal_pk pl) cfg of
                  Inl err \<Rightarrow> Some (Some (NewServerError err), [], s)
                | Inr srv \<Rightarrow> map_option (\<lambda>err. (err, [], s)) (Server_Run (pl_listen pl) (pl_accepts pl) srv))))"

definition runClient :: "('pk, 'sk, 'kp, 'o, 'y, 'e) platform \<Rightarrow> string list \<Rightarrow> fs \<Rightarrow> 'e outcome" where
  "runClient pl args s =
     (case flag_Parse (string_flags [''config'']) Map.empty args of
        Inl err \<Rightarrow> Some (Some (FlagError err), [], s)
      | Inr (vals, _) \<Rightarrow>
          (let cfgPath = flag_string vals ''config'' [] in
           if cfgPath = [] then Some (Some (Required ''client'' ''config''), [], s)
           else case LoadClient (pl_decode_client pl) s cfgPath of
             Inl err \<Rightarrow> Some (Some (LoadConfig err), [], s)
           | Inr cfg \<Rightarrow>
               (case (NewClient (pl_pem_decode pl) (pl_key_of pl) (cr_new_key_from_seed (pl_crypto pl))
                       (cr_Sum256 (pl_crypto pl)) s cfg :: client_error + ('sk, 'kp) Client) of
                  Inl err \<Rightarrow> Some (Some (ClientError err), [], s)
                | Inr cli \<Rightarrow>
                    (case snd (client_Run (pl_ed_sign pl) (pl_ml_sign_to pl) cli (pl_yamux pl) (pl_run_steps pl)) of
                       Returned \<Rightarrow> Some (None, [], s)
                     | _ \<Rightarrow> None))))"

definition runVerify :: "('pk, 'sk, 'kp, 'o, 'y, 'e) platform \<Rightarrow> string list \<Rightarrow> fs \<Rightarrow> 'e outcome" where
  "runVerify pl args s =
     (case flag_Parse (string_flags [''config'']) Map.empty args of
        Inl err \<Rightarrow> Some (Some (FlagError err), [], s)
      | Inr (vals, _) \<Rightarrow>
          (let cfgPath = flag_string vals ''config'' [] in
           if cfgPath = [] then Some (Some (Required ''verify'' ''config''), [], s)
           else case LoadClient (pl_decode_client pl) s cfgPath of
             Inl err \<Rightarrow> Some (Some (LoadConfig err), [], s)
           | Inr cfg \<Rightarrow>
               (case (NewClient (pl_pem_decode pl) (pl_key_of pl) (cr_new_key_from_seed (pl_crypto pl))
                       (cr_Sum256 (pl_crypto pl)) s cfg :: client_error + ('sk, 'kp) Client) of
                  Inl err \<Rightarrow> Some (Some (ClientError err), [], s)
                | Inr cli \<Rightarrow>
                    (case fst (VerifyOnce (pl_ed_sign pl) (pl_ml_sign_to pl) cli (pl_client_env pl)) of
                       Some err \<Rightarrow> Some (Some (ClientError err), [], s)
                     | None \<Rightarrow> Some (None, ''ok: reachability and authentication succeeded'' @ nl, s)))))"

definition keygen_text :: "string \<Rightarrow> string \<Rightarrow> string" where
  "keygen_text out pub = ''wrote private key: '' @ out @ nl @
     ''public key (paste into server.yaml as pubkey):'' @ nl @ pub @ nl"

definition pq_keygen_text :: "string \<Rightarrow> string \<Rightarrow> string" where
  "pq_keygen_text out pub = ''wrote pq private key: '' @ out @ nl @
     ''pq public key (paste into server.yaml as pq_pubkey):'' @ nl @ pub @ nl"

definition runKeygen :: "('pk, 'sk, 'kp, 'o, 'y, 'e) platform \<Rightarrow> string list \<Rightarrow> fs \<Rightarrow> 'e outcome" where
  "runKeygen pl args s =
     (let cr = pl_crypto pl in
      case flag_Parse (string_flags [''out'', ''pq-out'']) Map.empty args of
        Inl err \<Rightarrow> Some (Some (FlagError err), [], s)
      | Inr (vals, _) \<Rightarrow>
          (let out = flag_string vals ''out'' []; pqOut = flag_string vals ''pq-out'' [] in
           if out = [] then Some (Some (Required ''keygen'' ''out''), [], s)
           else if pqOut = [] then Some (Some (Required ''keygen'' ''pq-out''), [], s)
           else case GenerateKeypair (cr_client_key cr) of
             Inl err \<Rightarrow> Some (Some (AuthError err), [], s)
           | Inr (pub, priv) \<Rightarrow>
             (case WritePrivkeyPEM (cr_pem_encode cr) (cr_seed_of cr) s out priv of
                Inl err \<Rightarrow> Some (Some (AuthError err), [], s)
              | Inr s1 \<Rightarrow>
                (let printed = keygen_text out (EncodePubkey pub) in
                 case GeneratePQKeypair (cr_rand_read cr) (cr_new_key_from_seed cr) of
                   Inl err \<Rightarrow> Some (Some (AuthError err), printed, s1)
                 | Inr (pqPub, _, seed) \<Rightarrow>
                   (case WritePQPrivkeyPEM (cr_pem_encode cr) s1 pqOut seed of
                      Inl err \<Rightarrow> Some (Some (AuthError err), printed, s1)
                    | Inr s2 \<Rightarrow>
                        Some (None, printed @ pq_keygen_text pqOut (EncodePQPubkey (cr_marshal_pk cr) pqPub), s2))))))"

definition runPQKeygen :: "('pk, 'sk, 'kp, 'o, 'y, 'e) platform \<Rightarrow> string list \<Rightarrow> fs \<Rightarrow> 'e outcome" where
  "runPQKeygen pl args s =
     (let cr = pl_crypto pl in
      case flag_Parse (string_flags [''out'']) Map.empty args of
        Inl err \<Rightarrow> Some (Some (FlagError err), [], s)
      | Inr (vals, _) \<Rightarrow>
          (let out = flag_string vals ''out'' [] in
           if out = [] then Some (Some (Required ''pq-keygen'' ''out''), [], s)
           else case GeneratePQKeypair (cr_rand_read cr) (cr_new_key_from_seed cr) of
             Inl err \<Rightarrow> Some (Some (AuthError err), [], s)
           | Inr (pub, _, seed) \<Rightarrow>
             (case WritePQPrivkeyPEM (cr_pem_encode cr) s out seed of
                Inl err \<Rightarrow> Some (Some (AuthError err), [], s)
              | Inr s1 \<Rightarrow> Some (None, pq_keygen_text out (EncodePQPubkey (cr_marshal_pk cr) pub), s1))))"

definition runFingerprint :: "('pk, 'sk, 'kp, 'o, 'y, 'e) platform \<Rightarrow> string list \<Rightarrow> fs \<Rightarrow> 'e outcome" where
  "runFingerprint pl args s =
     (case args of
        [path] \<Rightarrow>
          (case FingerprintFromCertFile (pl_pem_decode pl) (pl_parse_certificate pl) (cr_Sum256 (pl_crypto pl)) s path of
             Inl err \<Rightarrow> Some (Some (CertError err), [], s)
           | Inr fp \<Rightarrow> Some (None, fp @ nl, s))
      | _ \<Rightarrow> Some (Some (OneArgument ''fingerprint''), [], s))"

definition quick_docker_text :: "GenerateResult \<Rightarrow> string" where
  "quick_docker_text res =
     ''wrote '' @ gr_ServerDir res @ nl @
     ''wrote '' @ gr_ClientDir res @ nl @
     ''server fingerprint:    '' @ gr_Fingerprint res @ nl @
     ''client public key:     '' @ gr_PubKey res @ nl @
     (if gr_PQPubKey res \<noteq> [] then ''client pq public key:  '' @ gr_PQPubKey res @ nl else []) @
     ''server compose project: '' @ gr_ServerProject res @ nl @
     ''client compose project: '' @ gr_ClientProject res @ nl @
     nl @
     ''next steps:'' @ nl @
     ''  copy '' @ gr_ServerDir res @ '' to the public-facing host, then: docker compose up -d'' @ nl @
     ''  copy '' @ gr_ClientDir res @ '' to the private-network host, then: docker compose up -d'' @ nl"

definition runQuickDocker :: "('pk, 'sk, 'kp, 'o, 'y, 'e) platform \<Rightarrow> string list \<Rightarrow> fs \<Rightarrow> 'e outcome" where
  "runQuickDocker pl args s =
     (case flag_Parse [''out'' \<mapsto> StringFlag, ''force'' \<mapsto> BoolFlag] Map.empty args of
        Inl err \<Rightarrow> Some (Some (FlagError err), [], s)
      | Inr (vals, [path]) \<Rightarrow>
          (case Load (pl_decode_spec pl) s path of
             Inl err \<Rightarrow> Some (Some (LoadSpec err), [], s)
           | Inr spec \<Rightarrow>
               (case Generate (pl_crypto pl) (pl_IsPrint pl) spec
                       \<lparr>go_OutDir = flag_string vals ''out'' ''.'', go_Force = flag_bool vals ''force''\<rparr> s of
                  (Inl err, s') \<Rightarrow> Some (Some (GenerateError err), [], s')
                | (Inr res, s') \<Rightarrow> Some (None, quick_docker_text res, s')))
      | Inr (_, _) \<Rightarrow> Some (Some (OneArgument ''quick-docker''), [], s))"

section \<open>Dispatch\<close>

text \<open>The dash in the first line is its three bytes in UTF-8.\<close>

definition usage :: string where
  "usage = ''passage '' @ version @ '' '' @ [CHR 0xE2, CHR 0x80, CHR 0x94] @ '' secure single-port reverse TCP tunnel'' @ nl @ nl @
     ''Usage:'' @ nl @
     ''  passage server       -config <file>'' @ nl @
     ''  passage client       -config <file>'' @ nl @
     ''  passage verify       -config <file>'' @ nl @
     ''  passage keygen       -out    <file> -pq-out <file>'' @ nl @
     ''  passage pq-keygen    -out    <file>'' @ nl @
     ''  passage fingerprint  <cert.pem>'' @ nl @
     ''  passage quick-docker [-out <dir>] [-force] <spec.yaml>'' @ nl @
     ''  passage version'' @ nl @ nl @
     ''Run '' @ [CHR 0x27] @ ''passage <subcommand> -h'' @ [CHR 0x27] @ '' for the flags of any subcommand.'' @ nl"

text \<open>
  The end of the process.  \<open>mr_stderr\<close> is what \<open>main\<close> itself writes to standard error; the logger and the
  usage texts of package \<open>flag\<close> go there too.
\<close>

record main_result =
  mr_exit :: nat
  mr_stdout :: string
  mr_stderr :: string
  mr_fs :: fs

text \<open>After the switch: an error is printed and the status is 1.  \<open>show_err\<close> is the verb \<open>%v\<close> on errors.\<close>

fun finish :: "('e cli_error \<Rightarrow> string) \<Rightarrow> 'e cli_error option \<times> string \<times> fs \<Rightarrow> main_result" where
  "finish show_err (Some err, out, s) =
     \<lparr>mr_exit = 1, mr_stdout = out, mr_stderr = ''error: '' @ show_err err @ nl, mr_fs = s\<rparr>"
| "finish show_err (None, out, s) = \<lparr>mr_exit = 0, mr_stdout = out, mr_stderr = [], mr_fs = s\<rparr>"

definition main ::
  "('pk, 'sk, 'kp, 'o, 'y, 'e) platform \<Rightarrow> ('e cli_error \<Rightarrow> string) \<Rightarrow> string list \<Rightarrow> fs \<Rightarrow> main_result option" where
  "main pl show_err os_Args s =
     (if length os_Args < 2 then Some \<lparr>mr_exit = 2, mr_stdout = [], mr_stderr = usage, mr_fs = s\<rparr>
      else
        (let sub = os_Args ! 1; args = drop 2 os_Args in
         if sub = ''server'' then map_option (finish show_err) (runServer pl args s)
         else if sub = ''client'' then map_option (finish show_err) (runClient pl args s)
         else if sub = ''verify'' then map_option (finish show_err) (runVerify pl args s)
         else if sub = ''keygen'' then map_option (finish show_err) (runKeygen pl args s)
         else if sub = ''pq-keygen'' then map_option (finish show_err) (runPQKeygen pl args s)
         else if sub = ''fingerprint'' then map_option (finish show_err) (runFingerprint pl args s)
         else if sub = ''quick-docker'' then map_option (finish show_err) (runQuickDocker pl args s)
         else if sub = ''version'' \<or> sub = ''-v'' \<or> sub = ''--version''
         then Some \<lparr>mr_exit = 0, mr_stdout = version @ nl, mr_stderr = [], mr_fs = s\<rparr>
         else if sub = ''help'' \<or> sub = ''-h'' \<or> sub = ''--help''
         then Some \<lparr>mr_exit = 0, mr_stdout = usage, mr_stderr = [], mr_fs = s\<rparr>
         else Some \<lparr>mr_exit = 2, mr_stdout = [],
           mr_stderr = ''unknown subcommand '' @ Quote (pl_IsPrint pl) sub @ nl @ nl @ usage, mr_fs = s\<rparr>))"

section \<open>Lemmas\<close>

lemma flag_names: "flag_name ''config''" "flag_name ''out''" "flag_name ''pq-out''"
  by (simp_all add: flag_name_def)

lemma parse_config: "flag_Parse (string_flags [''config'']) Map.empty [''-config'', path] = Inr ([''config'' \<mapsto> path], [])"
  using flag_forms(1) [OF flag_names(1), of "string_flags [''config'']" Map.empty path "[]"] by simp



section \<open>Properties\<close>

text \<open>A platform for the witnesses.\<close>

definition ex_session :: tls_session where
  "ex_session = \<lparr>ts_state = \<lparr>CurveID = X25519MLKEM768, PeerCertificates = [\<lparr>Raw = [1]\<rparr>]\<rparr>,
     ts_exporter = (\<lambda>_ n. Inr (replicate n 3))\<rparr>"

text \<open>The server's two messages, and a connection on which they arrive.\<close>

definition ex_answers :: bytes where
  "ex_answers = frame (projr (marshal_ServerHello \<lparr>sh_Nonce = replicate 32 4, sh_ServerTime = 0\<rparr>)) @
     frame (projr (marshal_Accepted \<lparr>ac_SessionID = ''s''\<rparr>))"

definition ex_platform :: "bytes \<Rightarrow> (unit, bytes, unit, unit, unit, string) platform" where
  "ex_platform answers = \<lparr>pl_crypto = ex_crypto, pl_decode_server = (\<lambda>_ _. Inl ''yaml''),
     pl_decode_client = (\<lambda>_ _. Inr ex_client_config),
     pl_decode_spec = (\<lambda>_ _. Inr ex_spec), pl_IsPrint = (\<lambda>_. False), pl_load_keypair = (\<lambda>_ _. Inr ()),
     pl_unmarshal_pk = (\<lambda>_. Some ()), pl_pem_decode = ex_pem_decode, pl_key_of = (\<lambda>_. replicate 64 6),
     pl_parse_certificate = (\<lambda>d. Inr \<lparr>Raw = d\<rparr>), pl_ed_sign = (\<lambda>k m. replicate 64 1),
     pl_ml_sign_to = (\<lambda>k m ctx r. Inr (replicate 3309 2)),
     pl_listen = (\<lambda>_. None), pl_accepts = [None, Some True],
     pl_client_env = \<lparr>ev_dial = Inr (ex_conn\<lparr>nc_in := \<lparr>rd_data = answers, rd_end = EOF\<rparr>\<rparr>), ev_tls = Inr ex_session,
       ev_start = Unix 0, ev_now = Unix 0, ev_accepts = []\<rparr>,
     pl_yamux = ex_yamux, pl_run_steps = []\<rparr>"




text \<open>A handshake that gives a session, message by message.\<close>

lemma VerifyOnce_None_iff:
  "fst (VerifyOnce ed_sign ml_sign_to cl ev) = None \<longleftrightarrow> (\<exists>raw ts exporter sid conn. ev_dial ev = Inr raw \<and> ev_tls ev = Inr ts \<and>
     VerifyConnection (cl_tlsCfg cl) (ts_state ts) = None \<and> ts_exporter ts ''passage-auth-v1'' 32 = Inr exporter \<and>
     runHandshake_client ed_sign ml_sign_to cl (ev_start ev) (ev_now ev) exporter raw = (Inr sid, conn))"
  by (auto simp: VerifyOnce_def HandshakeContext_def ExportKeyingMaterial_def AuthLabel_def ExporterLength_def
      split: sum.splits prod.splits option.splits)

lemma handshake_messages:
  assumes "runHandshake_client ed_sign ml_sign_to cl start now exporter raw = (Inr sid, conn)"
  obtains hello pqSig body where "fst (ReadMessage unmarshal_ServerHello (nc_in raw)) = Inr hello"
    "PQSign ml_sign_to (cl_pqPriv cl) (sh_Nonce hello) exporter (id_ID (cc_Identity (cl_cfg cl)))
       (unix_seconds now) (ServiceNames (cl_cfg cl)) = Inr pqSig"
    "marshal_ClientAuth (ClientAuth_for ed_sign cl now (sh_Nonce hello) exporter pqSig) = Inr body"
    "wr_out (nc_out conn) = wr_out (nc_out raw) @ frame body" "sid \<noteq> []"
proof -
  let ?c = "SetDeadline raw (Some (time_Add start (10 * Second)))"
  from assms obtain c' where ex: "client_exchange ed_sign ml_sign_to cl now exporter ?c = (Inr sid, c')" and
    c: "conn = SetDeadline c' None"
    by (auto simp: runHandshake_client_def split: prod.splits)
  from ex obtain hello c1 pqSig body where
    h: "conn_read unmarshal_ServerHello ?c = (Inr hello, c1)" and
    m: "PQSign ml_sign_to (cl_pqPriv cl) (sh_Nonce hello) exporter (id_ID (cc_Identity (cl_cfg cl)))
       (unix_seconds now) (ServiceNames (cl_cfg cl)) = Inr pqSig"
      "marshal_ClientAuth (ClientAuth_for ed_sign cl now (sh_Nonce hello) exporter pqSig) = Inr body"
      "wr_out (nc_out c') = wr_out (nc_out ?c) @ frame body" "sid \<noteq> []"
    by (rule client_exchange_ok)
  have "fst (ReadMessage unmarshal_ServerHello (nc_in raw)) = Inr hello"
    using h by (auto simp: conn_read_def split: prod.splits)
  with m c show thesis by (intro that) simp_all
qed

text \<open>
  C40: \<open>passage verify\<close> and the exit status.  With a configuration path it exits with status 0, and then
  prints its one line, exactly when the configuration loads, the client's keys load, the server is
  dialled, TLS ends on the hybrid key exchange with a certificate that has the pinned fingerprint, the
  exporter of the session is derived under the authentication label, and the authentication handshake
  over it gives a session: the server's hello was read, the client's message, signed with both keys for
  that nonce and this exporter, was sent after it and nothing else, and a non-empty session name came
  back.  It leaves all files alone.
\<close>

theorem verify_status:
  fixes pl :: "('pk, 'sk, 'kp, 'o, 'y, 'e) platform"
  assumes "path \<noteq> []"
  shows "\<exists>r. main pl show_err [prog, ''verify'', ''-config'', path] s = Some r \<and> mr_fs r = s \<and>
    (mr_exit r = 0 \<longleftrightarrow> mr_stdout r = ''ok: reachability and authentication succeeded'' @ [CHR 0x0A]) \<and>
    (mr_exit r = 0 \<longleftrightarrow>
      (\<exists>cfg cli raw ts cert rest exporter hello pqSig body sid conn. LoadClient (pl_decode_client pl) s path = Inr cfg \<and>
       NewClient (pl_pem_decode pl) (pl_key_of pl) (cr_new_key_from_seed (pl_crypto pl)) (cr_Sum256 (pl_crypto pl)) s cfg =
         Inr (cli :: ('sk, 'kp) Client) \<and>
       ev_dial (pl_client_env pl) = Inr raw \<and>
       ev_tls (pl_client_env pl) = Inr ts \<and> PeerCertificates (ts_state ts) = cert # rest \<and>
       parseFingerprint (cc_ServerFingerprint cfg) = Inr (cr_Sum256 (pl_crypto pl) (Raw cert)) \<and>
       CurveID (ts_state ts) = X25519MLKEM768 \<and>
       ts_exporter ts ''passage-auth-v1'' 32 = Inr exporter \<and>
       runHandshake_client (pl_ed_sign pl) (pl_ml_sign_to pl) cli (ev_start (pl_client_env pl)) (ev_now (pl_client_env pl))
         exporter raw = (Inr sid, conn) \<and>
       fst (ReadMessage unmarshal_ServerHello (nc_in raw)) = Inr hello \<and>
       PQSign (pl_ml_sign_to pl) (cl_pqPriv cli) (sh_Nonce hello) exporter (id_ID (cc_Identity (cl_cfg cli)))
         (unix_seconds (ev_now (pl_client_env pl))) (ServiceNames (cl_cfg cli)) = Inr pqSig \<and>
       marshal_ClientAuth (ClientAuth_for (pl_ed_sign pl) cli (ev_now (pl_client_env pl)) (sh_Nonce hello) exporter pqSig) =
         Inr body \<and>
       wr_out (nc_out conn) = wr_out (nc_out raw) @ frame body \<and> sid \<noteq> []))"
    (is "\<exists>r. ?main = Some r \<and> _ \<and> _ \<and> (_ \<longleftrightarrow> ?rhs)")
proof -
  let ?new = "\<lambda>cfg. NewClient (pl_pem_decode pl) (pl_key_of pl) (cr_new_key_from_seed (pl_crypto pl))
    (cr_Sum256 (pl_crypto pl)) s cfg :: client_error + ('sk, 'kp) Client"
  let ?once = "\<lambda>cli. fst (VerifyOnce (pl_ed_sign pl) (pl_ml_sign_to pl) (cli :: ('sk, 'kp) Client) (pl_client_env pl))"
  have once: "?once cli = None \<longleftrightarrow> (\<exists>raw ts cert rest exporter sid conn. ev_dial (pl_client_env pl) = Inr raw \<and>
       ev_tls (pl_client_env pl) = Inr ts \<and> PeerCertificates (ts_state ts) = cert # rest \<and>
       parseFingerprint (cc_ServerFingerprint cfg) = Inr (cr_Sum256 (pl_crypto pl) (Raw cert)) \<and>
       CurveID (ts_state ts) = X25519MLKEM768 \<and> ts_exporter ts ''passage-auth-v1'' 32 = Inr exporter \<and>
       runHandshake_client (pl_ed_sign pl) (pl_ml_sign_to pl) cli (ev_start (pl_client_env pl)) (ev_now (pl_client_env pl))
         exporter raw = (Inr sid, conn))" if "?new cfg = Inr cli" for cfg cli
  proof -
    from NewClient_Inr [OF that] obtain want where "parseFingerprint (cc_ServerFingerprint cfg) = Inr want"
      "VerifyConnection (cl_tlsCfg cli) = verify_pinned (cr_Sum256 (pl_crypto pl)) (cc_ServerFingerprint cfg) want" by metis
    then have "VerifyConnection (cl_tlsCfg cli) cs = None \<longleftrightarrow> (\<exists>cert rest. PeerCertificates cs = cert # rest \<and>
        parseFingerprint (cc_ServerFingerprint cfg) = Inr (cr_Sum256 (pl_crypto pl) (Raw cert))) \<and> CurveID cs = X25519MLKEM768" for cs
      by (auto simp: verify_pinned_None_iff)
    then show ?thesis unfolding VerifyOnce_None_iff by blast
  qed
  have rhs: "?rhs \<longleftrightarrow> (\<exists>cfg cli. LoadClient (pl_decode_client pl) s path = Inr cfg \<and> ?new cfg = Inr cli \<and> ?once cli = None)"
  proof
    assume ?rhs
    then show "\<exists>cfg cli. LoadClient (pl_decode_client pl) s path = Inr cfg \<and> ?new cfg = Inr cli \<and> ?once cli = None"
      using once by metis
  next
    assume "\<exists>cfg cli. LoadClient (pl_decode_client pl) s path = Inr cfg \<and> ?new cfg = Inr cli \<and> ?once cli = None"
    then obtain cfg cli where l: "LoadClient (pl_decode_client pl) s path = Inr cfg" "?new cfg = Inr cli" and o: "?once cli = None"
      by blast
    from o [unfolded once [OF l(2)]] obtain raw ts cert rest exporter sid conn where
      t: "ev_dial (pl_client_env pl) = Inr raw" "ev_tls (pl_client_env pl) = Inr ts" "PeerCertificates (ts_state ts) = cert # rest"
        "parseFingerprint (cc_ServerFingerprint cfg) = Inr (cr_Sum256 (pl_crypto pl) (Raw cert))"
        "CurveID (ts_state ts) = X25519MLKEM768" "ts_exporter ts ''passage-auth-v1'' 32 = Inr exporter" and
      h: "runHandshake_client (pl_ed_sign pl) (pl_ml_sign_to pl) cli (ev_start (pl_client_env pl)) (ev_now (pl_client_env pl))
         exporter raw = (Inr sid, conn)" by blast
    from handshake_messages [OF h] l t h show ?rhs by metis
  qed
  have m: "?main = map_option (finish show_err) (runVerify pl [''-config'', path] s)" by (simp add: main_def)
  consider (load) e where "LoadClient (pl_decode_client pl) s path = Inl e"
    | (new) cfg e where "LoadClient (pl_decode_client pl) s path = Inr cfg" "?new cfg = Inl e"
    | (once) cfg cli e where "LoadClient (pl_decode_client pl) s path = Inr cfg" "?new cfg = Inr cli" "?once cli = Some e"
    | (ok) cfg cli where "LoadClient (pl_decode_client pl) s path = Inr cfg" "?new cfg = Inr cli" "?once cli = None"
    by (metis not_Some_eq sum.exhaust)
  then show ?thesis
    unfolding rhs m runVerify_def parse_config using assms by cases (simp_all add: flag_string_def)
qed

lemma ex_client_loads:
  assumes "nodes fs ''c'' = Some (File d m)" and "\<not> denied fs ''c''"
  shows "LoadClient (pl_decode_client (ex_platform answers)) fs ''c'' = Inr ex_client_config"
proof -
  have "client_config_ok ex_client_config"
    using alice_config_ok plain_keys(6,7) [of "replicate 32 7"] by (simp add: ex_client_config_def client_config_ok_def)
  moreover have "applyDefaults_client ex_client_config = ex_client_config"
    by (simp add: applyDefaults_client_def applyDefaults_reconnect_def ex_client_config_def alice_config_def duration_defs)
  ultimately show ?thesis
    unfolding LoadClient_Inr_iff using assms by (simp add: ReadFile_def ex_platform_def)
qed

definition verify_fs :: fs where
  "verify_fs = ex_client_fs\<lparr>nodes := (nodes ex_client_fs)(''c'' \<mapsto> File [] mode_0644)\<rparr>"

text \<open>The handshake of the example client on the example answers.\<close>

lemma ex_handshake:
  assumes "cl_cfg cl = ex_client_config"
  shows "\<exists>conn. runHandshake_client (pl_ed_sign (ex_platform ex_answers)) (pl_ml_sign_to (ex_platform ex_answers)) (cl :: (bytes, unit) Client)
    (Unix 0) (Unix 0) exporter (ex_conn\<lparr>nc_in := \<lparr>rd_data = ex_answers, rd_end = EOF\<rparr>\<rparr>) = (Inr ''s'', conn)"
proof -
  let ?nonce = "replicate 32 4 :: bytes" and ?pq = "replicate 3309 2 :: bytes"
  let ?ed = "\<lambda>k m. replicate 64 1 :: bytes" and ?ml = "\<lambda>k m ctx r. Inr (replicate 3309 2) :: string + bytes"
  let ?c = "SetDeadline (ex_conn\<lparr>nc_in := \<lparr>rd_data = ex_answers, rd_end = EOF\<rparr>\<rparr>) (Some (time_Add (Unix 0) (10 * Second)))"
  obtain hello where h: "marshal_ServerHello \<lparr>sh_Nonce = ?nonce, sh_ServerTime = 0\<rparr> = Inr hello" using marshal_total(1) by blast
  obtain acc where a: "marshal_Accepted \<lparr>ac_SessionID = ''s''\<rparr> = Inr acc" using marshal_total(2) by blast
  have id: "id_ID (cc_Identity (cl_cfg cl)) = ''alice''" "ServiceNames (cl_cfg cl) = [''ssh'', ''web'']"
    by (simp_all add: assms ex_client_config_def alice_config_def ServiceNames_def)
  obtain body where b: "marshal_ClientAuth (ClientAuth_for ?ed cl (Unix 0) ?nonce exporter ?pq) = Inr body"
    using client_auth.marshal_total by blast
  have "length body \<le> MaxMessageSize"
    by (rule client_auth_fits [OF b])
      (simp_all add: ClientAuth_for_def Let_def Sign_def PQAlgorithmMLDSA_def id names_size_def)
  note fits = hello_fits [OF h] accepted_fits [OF a] this
  have "utf8_valid ''s''" by code_simp
  moreover have "PQSign ?ml (cl_pqPriv cl) ?nonce exporter (id_ID (cc_Identity (cl_cfg cl))) (unix_seconds (Unix 0))
      (ServiceNames (cl_cfg cl)) = Inr ?pq" by (simp add: PQSign_def)
  ultimately have "\<exists>c'. client_exchange ?ed ?ml cl (Unix 0) exporter ?c = (Inr ''s'', c') \<and>
      wr_out (nc_out c') = wr_out (nc_out ?c) @ frame body"
    using fits by (intro client_exchange_completes [OF _ _ h _ a _ _ _ _ b]) (simp_all add: ex_answers_def h a ex_conn_def)
  then obtain c' where "client_exchange ?ed ?ml cl (Unix 0) exporter ?c = (Inr ''s'', c')" by blast
  then have "runHandshake_client ?ed ?ml cl (Unix 0) (Unix 0) exporter
      (ex_conn\<lparr>nc_in := \<lparr>rd_data = ex_answers, rd_end = EOF\<rparr>\<rparr>) = (Inr ''s'', SetDeadline c' None)"
    by (simp add: runHandshake_client_def)
  moreover have pl: "pl_ed_sign (ex_platform ex_answers) = ?ed" "pl_ml_sign_to (ex_platform ex_answers) = ?ml"
    by (simp_all add: ex_platform_def)
  ultimately show ?thesis unfolding pl by blast
qed

theorem verify_status_witness:
  "\<exists>r. main (ex_platform ex_answers) (\<lambda>_. ''x'') [''passage'', ''verify'', ''-config'', ''c''] verify_fs = Some r \<and>
     mr_exit r = 0 \<and> mr_fs r = verify_fs"
proof -
  let ?pl = "ex_platform ex_answers"
  have ne: "''c'' \<noteq> []" by simp
  obtain r where r: "main ?pl (\<lambda>_. ''x'') [''passage'', ''verify'', ''-config'', ''c''] verify_fs = Some r" "mr_fs r = verify_fs"
    using verify_status [OF ne, of ?pl "\<lambda>_. ''x''" "''passage''" verify_fs] by blast
  have pl: "pl_pem_decode ?pl = ex_pem_decode" "pl_key_of ?pl = (\<lambda>_. replicate 64 6)" "pl_crypto ?pl = ex_crypto"
    "ev_dial (pl_client_env ?pl) = Inr (ex_conn\<lparr>nc_in := \<lparr>rd_data = ex_answers, rd_end = EOF\<rparr>\<rparr>)"
    "ev_tls (pl_client_env ?pl) = Inr ex_session" "ev_start (pl_client_env ?pl) = Unix 0" "ev_now (pl_client_env ?pl) = Unix 0"
    by (simp_all add: ex_platform_def)
  have cr: "cr_new_key_from_seed ex_crypto = (\<lambda>s. ((), s))" "cr_Sum256 ex_crypto = (\<lambda>_. replicate 32 7)"
    by (simp_all add: ex_crypto_def)
  have load: "LoadClient (pl_decode_client ?pl) verify_fs ''c'' = Inr ex_client_config"
    by (rule ex_client_loads) (simp_all add: verify_fs_def ex_client_fs_def)
  have "\<exists>cl. NewClient (pl_pem_decode ?pl) (pl_key_of ?pl) (cr_new_key_from_seed (pl_crypto ?pl)) (cr_Sum256 (pl_crypto ?pl))
      verify_fs ex_client_config = Inr (cl :: (bytes, unit) Client)"
    unfolding pl cr
    by (simp add: NewClient_def LoadPrivkeyPEM_def LoadPQPrivkeyPEM_def ReadFile_def verify_fs_def ex_client_fs_def
        ex_client_config_def alice_config_def clientTLSConfig_def ed_sizes ml_sizes)
  then obtain cl where new: "NewClient (pl_pem_decode ?pl) (pl_key_of ?pl) (cr_new_key_from_seed (pl_crypto ?pl))
      (cr_Sum256 (pl_crypto ?pl)) verify_fs ex_client_config = Inr (cl :: (bytes, unit) Client)" by blast
  have cfg: "cl_cfg cl = ex_client_config" using NewClient_Inr [OF new] by metis
  obtain conn where hs: "runHandshake_client (pl_ed_sign ?pl) (pl_ml_sign_to ?pl) cl (ev_start (pl_client_env ?pl))
      (ev_now (pl_client_env ?pl)) (replicate 32 3) (ex_conn\<lparr>nc_in := \<lparr>rd_data = ex_answers, rd_end = EOF\<rparr>\<rparr>) = (Inr ''s'', conn)"
    unfolding pl using ex_handshake [OF cfg] by blast
  have tls: "PeerCertificates (ts_state ex_session) = [\<lparr>Raw = [1]\<rparr>]" "CurveID (ts_state ex_session) = X25519MLKEM768"
    "ts_exporter ex_session ''passage-auth-v1'' 32 = Inr (replicate 32 3)"
    "parseFingerprint (cc_ServerFingerprint ex_client_config) = Inr (cr_Sum256 (pl_crypto ?pl) (Raw \<lparr>Raw = [1]\<rparr>))"
    by (simp_all add: ex_session_def pl cr ex_client_config_def)
  have "mr_exit r = 0"
    using verify_status [OF ne, of ?pl "\<lambda>_. ''x''" "''passage''" verify_fs] r(1)
      load new pl(4,5) tls hs handshake_messages [OF hs] by (metis option.inject)
  with r show ?thesis by blast
qed

end
