(* ===== verification/Spec2Isabelle.thy ===== *)
theory Spec2Isabelle
  imports SessionTheorems TunnelStream Cli Mux
begin

text \<open>
  Verification of \<open>passage\<close>, a reverse TCP tunnel in Go.  A client on a private network opens one TLS
  connection to a public server, authenticates with two signatures (Ed25519 and ML-DSA-65), and the
  server then listens on the ports of the client's services; each user connection becomes a stream
  of the multiplexed connection, which the client relays to the target it has configured.  All the
  packages of \<open>src/internal\<close> and the command \<open>src/cmd/passage\<close> are modelled; names of definitions are
  those of the source wherever they are free.

  \<^bold>\<open>Parts, theories and sources\<close>

  \<^item> \<open>Prelude\<close>, \<open>GoEncoding\<close>, \<open>GoJson\<close>, \<open>GoTime\<close>, \<open>GoNet\<close>, \<open>GoFS\<close>, \<open>GoPath\<close>, \<open>GoFlag\<close>: what the program uses of
    Go's standard library, executable and at machine widths: big-endian integers, hex, base64, JSON
    with Go's field matching, durations and times that saturate, addresses and prefixes, files with
    their modes, path cleaning, flag parsing.  \<open>GoYaml\<close> reads the plain part of YAML that the generated
    configurations are written in.
  \<^item> \<open>Framing\<close> (\<open>proto/framing.go\<close>) and \<open>Messages\<close> (\<open>proto/messages.go\<close>): readers and writers that may
    end or fail at any byte, length-prefixed frames, the six messages and their encodings;
    \<open>MessageSizes\<close> bounds the encodings, so that frames fit.
  \<^item> \<open>Auth\<close> (\<open>auth/auth.go\<close>) and \<open>PqAuth\<close> (\<open>auth/pq.go\<close>): signed bytes, verification against a list of
    keys, the clock window, texts and files of keys.
  \<^item> \<open>Config\<close> (\<open>config/config.go\<close>): both configurations, defaults, validation, loading.
  \<^item> \<open>TlsConfig\<close> (\<open>tunnel/tls.go\<close>), \<open>NetConn\<close> (the connection as the tunnel sees it) and \<open>Mux\<close> (\<open>mux/mux.go\<close>).
  \<^item> \<open>ServerAuth\<close> (\<open>NewServer\<close>, \<open>runHandshake\<close>, \<open>validateAuth\<close>), \<open>Acl\<close> (\<open>parseCIDRs\<close>, \<open>cidrAllowed\<close>), \<open>Sessions\<close> (\<open>Run\<close>,
    \<open>handleControl\<close>, \<open>runSession\<close>, \<open>acceptUsers\<close>, \<open>proxyUser\<close>, the session table) and \<open>Relay\<close> (\<open>relay\<close>): the
    whole of \<open>tunnel/server.go\<close>.  \<open>TunnelStream\<close> puts the relays of the two ends and the stream between them
    together.
  \<^item> \<open>TunnelClient\<close> (\<open>tunnel/client.go\<close>): the client's handshake, connection attempts, streams and
    reconnection loop.  \<open>Handshake\<close> puts the two ends together.
  \<^item> \<open>QuickSpec\<close> (\<open>quickdocker/spec.go\<close>), \<open>QuickRender\<close> (the texts of \<open>quickdocker/generate.go\<close>), \<open>QuickYaml\<close>
    (what those texts mean when they are loaded) and \<open>QuickDocker\<close> (\<open>quickdocker/cert.go\<close> and \<open>Generate\<close>).
  \<^item> \<open>Cli\<close> (\<open>cmd/passage/main.go\<close>): every subcommand, with its output, files and exit status.

  \<^bold>\<open>State and operations\<close>

  Structs are records with prefixed fields, errors are values of one datatype for each package, and
  a call that may fail returns a sum.  Sequential code is functions; a connection or a file system is
  passed through and returned.  The server is concurrent: \<open>Sessions.step\<close> is a relation on a \<open>world\<close>
  (the handshake semaphore, the session table, the session objects by address, one program point for
  each control connection and each user connection), and each rule is one atomic action of one
  goroutine, of the operating system or of the peer; \<open>reachable\<close> closes it.  \<open>shutdown\<close> is a list of
  calls, so that other goroutines interleave with it; its loop over the listeners is one of them, and
  no state is lost by that: the call before it cancels the session's context, after which the
  goroutines that watch the context may close any of the listeners at any time.  \<open>Relay.relay_step\<close> does
  the same for the two copying goroutines of a relay, \<open>env_step\<close> for its two peers; its parameter
  \<open>half_close\<close> says of which connection a local \<open>Close\<close> ends only the writing, as for a stream of the
  multiplexer.

  \<^bold>\<open>Parameters\<close>

  Code outside the repository is an argument: the two signature schemes, random numbers, SHA-256, PEM
  and X.509, the YAML decoder, the TLS stack up to its callback, the multiplexer (for the client the
  record \<open>yamux\<close>), dialling.  What a
  theorem needs of them is a hypothesis with the documented behaviour (what is encoded decodes, a
  signature made with a key verifies under it), and its witness instantiates it with a concrete
  function.  For \<open>hybrid_binding\<close> the hypothesis is unforgeability of one of the two schemes: a signature
  that was presented to the server and verifies was made by a run of the key's owner.  For the files of
  \<open>quick-docker\<close> it is that the YAML decoder agrees with \<open>GoYaml\<close> on the texts that one reads.

  \<^bold>\<open>Interfaces\<close>

  \<open>prefix_code\<close> and \<open>fixed_width_code\<close> (integers and length-prefixed fields, which make the signed bytes
  injective), \<open>text_codec\<close> (hex, base64), \<open>message_codec\<close> (framing delivers each of the six messages),
  \<open>key_ring\<close> (a list of keys, for both schemes), \<open>counting_semaphore\<close> (both channels) and
  \<open>session_registry\<close> (the table under replacement and late removal) are locales, interpreted on the
  model's definitions.

  \<^bold>\<open>What is shown\<close>

  \<^item> Authentication: honest clients get in, both ends agree on name, session and services, acceptance
    is exactly the entitlement the configuration file spells out, each scheme binds the handshake to
    its connection, refusals do not tell reasons apart, and nothing is sent to a server that is not
    the pinned one.
  \<^item> Sessions: under every interleaving users reach only granted services, the table refines a map
    changed by logins and own logouts, replaced sessions are shut down, no port outlives its session,
    semaphores count and never block a release, control goroutines end.
  \<^item> Data: a relay copies prefixes faithfully and ends when its connections do, the two relays of a
    user connection end when either the user or the target is gone, a stream reaches the target
    configured for its service.
  \<^item> Configuration, key files, fingerprints and \<open>quick-docker\<close>: validation loops are equivalent to
    declarative specifications, formats round trip, generated configurations load, on both sides, as what
    the description says, with the keys and the certificate generated beside them, and nothing is
    overwritten without being asked.
  \<^item> Bounds: the clock window, the frame limit, the reconnection delays; and where 64-bit arithmetic
    breaks them (\<open>CheckClockSkew_far_future\<close>, \<open>backoff_wraps\<close>).

  \<^bold>\<open>Termination\<close>

  The JSON parser of \<open>GoJson\<close> recurses on fuel computed from the length of its input, and more of it
  never changes the answer (\<open>parse_value_fuel\<close>); no other definition uses fuel.  Loops over data are
  structural or have a measure; loops that run until an
  outside event consume the list of events that happened and return \<^const>\<open>None\<close> (or \<open>Serving\<close>, \<open>Looping\<close>)
  while they still wait.  That the server's goroutines, a relay and a user connection come to an end is
  proved with the measures \<open>actions_left\<close>, \<open>relay_left\<close> and \<open>tunnel_left\<close> together with the fact that they
  are not stuck.

  \<^bold>\<open>Not modelled\<close>

  Log lines and the texts of errors (only the error values), the logger, the inside of TLS, of the
  multiplexer and of the YAML parser, the Unicode table behind \<open>%q\<close>, the process umask, and timeouts as
  such (a deadline that strikes is a read or write that fails), and links and other spellings of a path
  (a file is its path).  A write to a relayed connection that blocks for ever is left out too.  \<open>net.Listen\<close> may fail at any time and
  must fail on an address an open listener of the server has bound.
\<close>

section \<open>Authentication, end to end\<close>

text \<open>
  C1: an honest client is let in.  For a server built from a valid configuration, a client whose two
  keys verify under keys listed for it, which offers listed services and whose clock is within the
  window, and for names that leave room in a frame, there is an exchange of bytes in which each end
  reads what the other writes: the client returns the server's fresh session id and the server
  returns the client's name, that session id and the client's services.
\<close>

theorem handshake_completes:
  assumes "NewServer load_keypair unmarshal_pk cfg = Inr srv" and "Validate cfg = None"
    and "ce \<in> set (sc_Clients cfg)" and "honest ed_verify ed_sign ml_verify ml_sign_to unmarshal_pk cl ce"
    and "names_size (id_ID (cc_Identity (cl_cfg cl))) (ServiceNames (cl_cfg cl)) \<le> 37000"
    and "CheckClockSkew now_auth (unix_seconds now_client) = None"
    and "rand_read 32 = Inr nonce" and "length nonce = 32" and "length sidBytes = 12"
    and "\<And>bs. fresh_conn (cc bs) bs" and "\<And>bs. fresh_conn (cs bs) bs"
  shows "\<exists>s2c c2s.
    (\<exists>c'. runHandshake_client ed_sign ml_sign_to cl start now_client exporter (cc s2c) =
        (Inr (newSessionID sidBytes), c') \<and> wr_out (nc_out c') = c2s) \<and>
    (\<exists>c'. runHandshake ed_verify ml_verify srv rand_read sidBytes now_hello now_auth (Some deadline) exporter (cs c2s) =
        (Inr (id_ID (cc_Identity (cl_cfg cl)), newSessionID sidBytes, ServiceNames (cl_cfg cl)), c') \<and>
       wr_out (nc_out c') = s2c)"
proof -
  have "distinct (map ce_ID (sc_Clients cfg))"
    using assms(2) by (simp add: Validate_None_iff server_config_ok_def)
  from honest_handshake [where rand_read = rand_read and exporter = exporter and ?now1.0 = now_hello, OF assms(1) this assms(3-9)] obtain s2c c2s where
    c: "\<forall>c. fresh_conn c s2c \<longrightarrow> (\<exists>c'. wr_out (nc_out c') = c2s \<and>
       client_exchange ed_sign ml_sign_to cl now_client exporter c = (Inr (newSessionID sidBytes), c'))" and
    s: "\<forall>c. fresh_conn c c2s \<longrightarrow> (\<exists>c'. wr_out (nc_out c') = s2c \<and>
       handshake_body ed_verify ml_verify srv rand_read sidBytes now_hello now_auth exporter c =
         (Inr (id_ID (cc_Identity (cl_cfg cl)), newSessionID sidBytes, ServiceNames (cl_cfg cl)), c'))"
    by blast
  obtain c1 where "client_exchange ed_sign ml_sign_to cl now_client exporter (SetDeadline (cc s2c) (Some (time_Add start (10 * Second)))) =
      (Inr (newSessionID sidBytes), c1)" "wr_out (nc_out c1) = c2s"
    using c assms(10) by (metis fresh_conn_SetDeadline)
  moreover obtain c2 where "handshake_body ed_verify ml_verify srv rand_read sidBytes now_hello now_auth exporter
      (SetDeadline (cs c2s) (Some deadline)) =
      (Inr (id_ID (cc_Identity (cl_cfg cl)), newSessionID sidBytes, ServiceNames (cl_cfg cl)), c2)"
      "wr_out (nc_out c2) = s2c"
    using s assms(11) by (metis fresh_conn_SetDeadline)
  ultimately show ?thesis
    by (intro exI [of _ s2c] exI [of _ c2s]) (simp add: runHandshake_client_def runHandshake_def)
qed

theorem handshake_completes_witness:
  "\<exists>srv s2c c2s. NewServer (\<lambda>_ _. Inr ()) Some ex_server_config = Inr srv \<and>
    (\<exists>c'. runHandshake_client ex_ed_sign ex_ml_sign alice_client (Unix 0) (Unix 0) [1] (conn_with s2c) =
        (Inr (newSessionID (replicate 12 8)), c') \<and> wr_out (nc_out c') = c2s) \<and>
    (\<exists>c'. runHandshake ex_ed_verify ex_ml_verify srv (\<lambda>_. Inr (replicate 32 5)) (replicate 12 8) (Unix 0) (Unix 5)
        (Some (Unix 10)) [1] (conn_with c2s) = (Inr (''alice'', newSessionID (replicate 12 8), [''ssh'']), c') \<and>
       wr_out (nc_out c') = s2c)"
proof -
  obtain srv where srv: "NewServer (\<lambda>_ _. Inr ()) Some ex_server_config = Inr srv" using ex_server by blast
  have "names_size (id_ID (cc_Identity (cl_cfg alice_client))) (ServiceNames (cl_cfg alice_client)) \<le> 37000"
    unfolding alice_facts by (simp add: names_size_def)
  from handshake_completes [where rand_read = "\<lambda>_. Inr (replicate 32 5)" and nonce = "replicate 32 5" and
      sidBytes = "replicate 12 8" and exporter = "[1]" and start = "Unix 0" and deadline = "Unix 10" and
      now_hello = "Unix 0" and cc = conn_with and cs = conn_with,
      OF srv ex_server_valid ex_entry_listed alice_honest this alice_in_time refl _ _ conn_with_fresh conn_with_fresh]
  show ?thesis using srv unfolding alice_facts by simp
qed

text \<open>
  C2: a client that obtains a session id is in agreement with the server.  Whatever the server
  decided, if the two connections carry each other's bytes and the client returns a session id, then
  the server accepted, under the same session id, this client's name and exactly its services.
\<close>

theorem handshake_agreement:
  assumes "runHandshake ed_verify ml_verify srv rand_read sidBytes now_hello now_auth deadline exporter cs = (r, cs')"
    and "runHandshake_client ed_sign ml_sign_to cl start now_client exporter' cc = (Inr sid, cc')"
    and "wr_out (nc_out cs) = []" and "wr_out (nc_out cc) = []"
    and "rd_data (nc_in cc) = wr_out (nc_out cs')" and "rd_data (nc_in cs) = wr_out (nc_out cc')"
    and "utf8_valid (id_ID (cc_Identity (cl_cfg cl)))" and "list_all utf8_valid (ServiceNames (cl_cfg cl))"
  shows "r = Inr (id_ID (cc_Identity (cl_cfg cl)), sid, ServiceNames (cl_cfg cl))"
proof -
  obtain s0 s1 where s: "handshake_body ed_verify ml_verify srv rand_read sidBytes now_hello now_auth exporter s0 = (r, s1)"
    "nc_in s0 = nc_in cs" "nc_out s0 = nc_out cs" "nc_out cs' = nc_out s1"
    using runHandshake_body [OF assms(1)] by blast
  obtain c1 where c: "client_exchange ed_sign ml_sign_to cl now_client exporter' (SetDeadline cc (Some (time_Add start (10 * Second)))) = (Inr sid, c1)"
    "nc_out cc' = nc_out c1"
    using assms(2) by (auto simp: runHandshake_client_def split: prod.splits)
  show ?thesis
    by (rule client_success_agrees [OF s(1) c(1)]) (use assms(3-8) s(2-4) c(2) in simp_all)
qed

theorem handshake_agreement_witness:
  "\<exists>srv cs' cc' s2c c2s r.
     runHandshake ex_ed_verify ex_ml_verify (srv :: (bytes, unit) Server) (\<lambda>_. Inr (replicate 32 5)) (replicate 12 8)
       (Unix 0) (Unix 5) (Some (Unix 10)) [1] (conn_with c2s) = (r, cs') \<and>
     runHandshake_client ex_ed_sign ex_ml_sign alice_client (Unix 0) (Unix 0) [1] (conn_with s2c) =
       (Inr (newSessionID (replicate 12 8)), cc') \<and>
     r = Inr (''alice'', newSessionID (replicate 12 8), [''ssh''])"
proof -
  obtain srv where srv: "NewServer (\<lambda>_ _. Inr ()) Some ex_server_config = Inr srv" using ex_server by blast
  have d: "distinct (map ce_ID (sc_Clients ex_server_config))"
    using ex_server_config_ok by (simp add: server_config_ok_def)
  have n: "names_size (id_ID (cc_Identity (cl_cfg alice_client))) (ServiceNames (cl_cfg alice_client)) \<le> 37000"
    unfolding alice_facts by (simp add: names_size_def)
  have l: "length (replicate 32 5 :: bytes) = 32" "length (replicate 12 8 :: bytes) = 12" by simp_all
  from honest_handshake [where rand_read = "\<lambda>_. Inr (replicate 32 5)" and exporter = "[1]" and ?now1.0 = "Unix 0",
      OF srv d ex_entry_listed alice_honest n alice_in_time refl l]
  obtain s2c c2s c1 c2 where
    c: "client_exchange ex_ed_sign ex_ml_sign alice_client (Unix 0) [1]
      (SetDeadline (conn_with s2c) (Some (time_Add (Unix 0) (10 * Second)))) =
      (Inr (newSessionID (replicate 12 8)), c1)" "wr_out (nc_out c1) = c2s" and
    s: "handshake_body ex_ed_verify ex_ml_verify srv (\<lambda>_. Inr (replicate 32 5)) (replicate 12 8) (Unix 0) (Unix 5) [1]
      (SetDeadline (conn_with c2s) (Some (Unix 10))) =
      (Inr (''alice'', newSessionID (replicate 12 8), [''ssh'']), c2)" "wr_out (nc_out c2) = s2c"
    unfolding alice_facts using conn_with_fresh by (metis fresh_conn_SetDeadline)
  have rc: "runHandshake_client ex_ed_sign ex_ml_sign alice_client (Unix 0) (Unix 0) [1] (conn_with s2c) =
       (Inr (newSessionID (replicate 12 8)), SetDeadline c1 None)"
    using c by (simp add: runHandshake_client_def)
  have rs: "runHandshake ex_ed_verify ex_ml_verify srv (\<lambda>_. Inr (replicate 32 5)) (replicate 12 8)
       (Unix 0) (Unix 5) (Some (Unix 10)) [1] (conn_with c2s) =
       (Inr (''alice'', newSessionID (replicate 12 8), [''ssh'']), SetDeadline c2 None)"
    using s by (simp add: runHandshake_def)
  have "utf8_valid ''alice''" "utf8_valid ''ssh''" by code_simp+
  then have "Inr (''alice'', newSessionID (replicate 12 8), [''ssh'']) =
      (Inr (id_ID (cc_Identity (cl_cfg alice_client)), newSessionID (replicate 12 8), ServiceNames (cl_cfg alice_client))
        :: handshake_error + string \<times> string \<times> string list)"
    using c(2) s(2) by (intro handshake_agreement [OF rs rc]) (simp_all add: conn_with_def ex_conn_def alice_facts)
  then show ?thesis using rs rc by metis
qed

text \<open>
  The messages a client's private keys have signed, over all its runs: \<open>runHandshake\<close> of \<open>client.go\<close> is
  the only code that signs with them, once for each connection, with the nonce it received, the
  exporter of its connection and its clock.  The configuration may change between runs.
\<close>

type_synonym ('sk, 'kp) signing_run = "('sk, 'kp) Client \<times> bytes \<times> bytes \<times> Time"

definition ed_signed :: "('sk, 'kp) signing_run set \<Rightarrow> bytes set" where
  "ed_signed R = (\<lambda>(cl, n, e, now). SigningInput n e (id_ID (cc_Identity (cl_cfg cl))) (unix_seconds now)) ` R"

definition ml_signed :: "('sk, 'kp) signing_run set \<Rightarrow> bytes set" where
  "ml_signed R = (\<lambda>(cl, n, e, now). PQSigningInput n e (id_ID (cc_Identity (cl_cfg cl))) (unix_seconds now)
     (ServiceNames (cl_cfg cl))) ` R"

text \<open>
  Unforgeability, as far as it goes in one execution: of the pairs of a message and a signature that
  were presented to a verifier, those that verify under a key are on messages its holder signed.
  Nothing is said of pairs nobody has produced.
\<close>

definition ed_unforged ::
  "(bytes \<Rightarrow> bytes \<Rightarrow> bytes \<Rightarrow> bool) \<Rightarrow> ClientEntry \<Rightarrow> (bytes \<times> bytes) set \<Rightarrow> ('sk, 'kp) signing_run set \<Rightarrow> bool" where
  "ed_unforged ed_verify ce presented R \<longleftrightarrow> (\<forall>k \<in> set (ce_Pubkey ce). \<forall>pub. DecodePubkey k = Inr pub \<longrightarrow>
     (\<forall>(m, sig) \<in> presented. ed_verify pub m sig \<longrightarrow> m \<in> ed_signed R))"

definition ml_unforged ::
  "('pk \<Rightarrow> bytes \<Rightarrow> bytes \<Rightarrow> bytes \<Rightarrow> bool) \<Rightarrow> (bytes \<Rightarrow> 'pk option) \<Rightarrow> ClientEntry \<Rightarrow> (bytes \<times> bytes) set
     \<Rightarrow> ('sk, 'kp) signing_run set \<Rightarrow> bool" where
  "ml_unforged ml_verify unmarshal_pk ce presented R \<longleftrightarrow> (\<forall>k \<in> set (ce_PQPubkey ce). \<forall>pk. DecodePQPubkey unmarshal_pk k = Inr pk \<longrightarrow>
     (\<forall>(m, sig) \<in> presented. ml_verify pk m (str_bytes ''passage-client-auth-v2'') sig \<longrightarrow> m \<in> ml_signed R))"

text \<open>The runs whose handshake is the one the server accepted.\<close>

definition same_handshake :: "bytes \<Rightarrow> bytes \<Rightarrow> ClientAuth \<Rightarrow> ('sk, 'kp) signing_run \<Rightarrow> bool" where
  "same_handshake nonce exporter ca = (\<lambda>(cl, n, e, now). n = nonce \<and> e = exporter \<and>
     id_ID (cc_Identity (cl_cfg cl)) = ca_ClientID ca \<and> unix_seconds now = ca_ClientTime ca)"

text \<open>
  C4: hybrid authentication.  When the server accepts a message on a connection with a given nonce
  and exporter, and the signatures of the client's keys of one of the two kinds are not forged, then
  the client itself has run the handshake with this very nonce and exporter, under this name and with
  the time the message carries: either scheme alone rules out a replayed or relayed handshake.  When
  the ML-DSA keys are the ones that hold, that run also offered exactly the services granted.  The
  client signs whatever nonce it is sent, of any length; exporters have 32 bytes.
\<close>

theorem hybrid_binding:
  assumes "NewServer load_keypair unmarshal_pk cfg = Inr srv" and "Validate cfg = None"
    and "validateAuth ed_verify ml_verify srv now nonce exporter ca = ([], True)"
    and "length exporter = 32" and "encodable nonce exporter (ca_ClientID ca) (ca_RequestedServices ca)"
    and "\<And>cl n e t. (cl, n, e, t) \<in> R \<Longrightarrow> length e = 32 \<and> id_ID (cc_Identity (cl_cfg cl)) = ca_ClientID ca \<and>
      encodable n e (ca_ClientID ca) (ServiceNames (cl_cfg cl))"
    and "(SigningInput nonce exporter (ca_ClientID ca) (ca_ClientTime ca), ca_Signature ca) \<in> presented"
    and "(PQSigningInput nonce exporter (ca_ClientID ca) (ca_ClientTime ca) (ca_RequestedServices ca), ca_PQSignature ca)
      \<in> pq_presented"
    and "\<And>ce. ce \<in> set (sc_Clients cfg) \<Longrightarrow> ce_ID ce = ca_ClientID ca \<Longrightarrow>
      ed_unforged ed_verify ce presented R \<or> ml_unforged ml_verify unmarshal_pk ce pq_presented R"
  shows "\<exists>ce \<in> set (sc_Clients cfg). ce_ID ce = ca_ClientID ca \<and> (\<exists>r \<in> R. same_handshake nonce exporter ca r \<and>
    (ml_unforged ml_verify unmarshal_pk ce pq_presented R \<longrightarrow> ServiceNames (cl_cfg (fst r)) = ca_RequestedServices ca))"
proof -
  have "distinct (map ce_ID (sc_Clients cfg))"
    using assms(2) by (simp add: Validate_None_iff server_config_ok_def)
  from validateAuth_entitled [OF assms(1) this] assms(3) obtain ce where
    ce: "ce \<in> set (sc_Clients cfg)" and ent: "entitled ed_verify ml_verify unmarshal_pk nonce exporter ca ce"
    by metis
  have "\<exists>r \<in> R. same_handshake nonce exporter ca r \<and>
    (ml_unforged ml_verify unmarshal_pk ce pq_presented R \<longrightarrow> ServiceNames (cl_cfg (fst r)) = ca_RequestedServices ca)"
  proof (cases "ml_unforged ml_verify unmarshal_pk ce pq_presented R")
    case True
    from ent obtain k pk where "k \<in> set (ce_PQPubkey ce)" "DecodePQPubkey unmarshal_pk k = Inr pk"
      "ml_verify pk (PQSigningInput nonce exporter (ca_ClientID ca) (ca_ClientTime ca) (ca_RequestedServices ca))
        (str_bytes PQAuthLabel) (ca_PQSignature ca)" unfolding entitled_def by blast
    with True assms(8) have "PQSigningInput nonce exporter (ca_ClientID ca) (ca_ClientTime ca) (ca_RequestedServices ca) \<in> ml_signed R"
      unfolding ml_unforged_def PQAuthLabel_text by blast
    then obtain cl n e t where r: "(cl, n, e, t) \<in> R" "PQSigningInput nonce exporter (ca_ClientID ca) (ca_ClientTime ca)
        (ca_RequestedServices ca) = PQSigningInput n e (ca_ClientID ca) (unix_seconds t) (ServiceNames (cl_cfg cl))"
      using assms(6) unfolding ml_signed_def by force
    from PQSigningInput_inj [OF r(2)] assms(5) assms(6) [OF r(1)]
    have "same_handshake nonce exporter ca (cl, n, e, t)" "ServiceNames (cl_cfg cl) = ca_RequestedServices ca"
      by (auto simp: encodable_def same_handshake_def)
    with r(1) show ?thesis by force
  next
    case False
    then have "ed_unforged ed_verify ce presented R" using assms(9) [OF ce entitled_id [OF ent]] by blast
    with ent assms(7) have "SigningInput nonce exporter (ca_ClientID ca) (ca_ClientTime ca) \<in> ed_signed R"
      unfolding ed_unforged_def entitled_def by blast
    then obtain cl n e t where r: "(cl, n, e, t) \<in> R"
      "SigningInput nonce exporter (ca_ClientID ca) (ca_ClientTime ca) = SigningInput n e (ca_ClientID ca) (unix_seconds t)"
      using assms(6) unfolding ed_signed_def by force
    have "length e = length exporter" using assms(4,6) r(1) by metis
    moreover from this have "length n = length nonce" using arg_cong [OF r(2), of length] by simp
    ultimately have "same_handshake nonce exporter ca (cl, n, e, t)"
      using SigningInput_inj [OF r(2)] assms(6) [OF r(1)] by (auto simp: same_handshake_def)
    with r(1) False show ?thesis by blast
  qed
  with ce entitled_id [OF ent] show ?thesis by blast
qed

lemma one_neq_four_byte: "(1 :: byte) \<noteq> 4"
  by simp

text \<open>
  For the witness: alice has run twice, with two different nonces.  Her message of the first run, and
  her signature of the first run moved to another nonce, were presented; only the first verifies.
\<close>

definition alice_runs :: "(bytes, unit) signing_run set" where
  "alice_runs = {(alice_client, replicate 32 1, replicate 32 2, Unix 0), (alice_client, replicate 32 3, replicate 32 2, Unix 0)}"

definition alice_presented :: "(bytes \<times> bytes) set" where
  "alice_presented =
     {(SigningInput (replicate 32 1) (replicate 32 2) ''alice'' 0, ex_sign 64 (SigningInput (replicate 32 1) (replicate 32 2) ''alice'' 0)),
      (SigningInput (replicate 32 4) (replicate 32 2) ''alice'' 0, ex_sign 64 (SigningInput (replicate 32 1) (replicate 32 2) ''alice'' 0))}"

theorem hybrid_binding_witness:
  "\<exists>srv. NewServer (\<lambda>_ _. Inr ()) Some ex_server_config = Inr srv \<and>
     honest ex_ed_verify ex_ed_sign ex_ml_verify ex_ml_sign Some alice_client ex_entry \<and>
     ed_unforged ex_ed_verify ex_entry alice_presented alice_runs \<and>
     validateAuth ex_ed_verify ex_ml_verify srv (Unix 5) (replicate 32 1) (replicate 32 2)
       (ex_auth (replicate 32 1) (replicate 32 2) [''ssh'']) = ([], True) \<and>
     (\<exists>r \<in> alice_runs. same_handshake (replicate 32 1) (replicate 32 2)
       (ex_auth (replicate 32 1) (replicate 32 2) [''ssh'']) r)"
proof -
  let ?n = "replicate 32 1 :: bytes" and ?e = "replicate 32 2 :: bytes"
  let ?ca = "ex_auth ?n ?e [''ssh'']"
  obtain srv where srv: "NewServer (\<lambda>_ _. Inr ()) Some ex_server_config = Inr srv" using ex_server by blast
  have d: "distinct (map ce_ID (sc_Clients ex_server_config))"
    using ex_server_config_ok by (simp add: server_config_ok_def)
  have id: "ca_ClientID ?ca = ''alice''" "ca_ClientTime ?ca = 0" "ca_RequestedServices ?ca = [''ssh'']"
    "ca_Signature ?ca = ex_sign 64 (SigningInput ?n ?e ''alice'' 0)"
    by (simp_all add: ex_auth_def)
  have acc: "validateAuth ex_ed_verify ex_ml_verify srv (Unix 5) ?n ?e ?ca = ([], True)"
    using validateAuth_entitled [OF srv d] ex_entry_listed alice_in_time id(2) ex_entitled [of ?n ?e "[''ssh'']"] by auto
  have "SigningInput ?n ?e ''alice'' 0 \<in> ed_signed alice_runs"
    by (simp add: ed_signed_def alice_runs_def alice_facts)
  moreover have "hd (ex_sign 64 (SigningInput (replicate 32 x) ?e ''alice'' 0)) = x" for x
    by (simp add: ex_sign_def SigningInput_def hd_append)
  then have "ex_sign 64 (SigningInput ?n ?e ''alice'' 0) \<noteq> ex_sign 64 (SigningInput (replicate 32 4) ?e ''alice'' 0)"
    by (metis one_neq_four_byte)
  ultimately have unf: "ed_unforged ex_ed_verify ce alice_presented alice_runs" for ce
    by (auto simp: ed_unforged_def alice_presented_def ex_ed_verify_def)
  have "\<exists>ce \<in> set (sc_Clients ex_server_config). ce_ID ce = ca_ClientID ?ca \<and>
    (\<exists>r \<in> alice_runs. same_handshake ?n ?e ?ca r \<and> (ml_unforged ex_ml_verify Some ce UNIV alice_runs \<longrightarrow>
       ServiceNames (cl_cfg (fst r)) = ca_RequestedServices ?ca))"
  proof (rule hybrid_binding [OF srv ex_server_valid acc])
    show "length e = 32 \<and> id_ID (cc_Identity (cl_cfg cl)) = ca_ClientID ?ca \<and>
      encodable n e (ca_ClientID ?ca) (ServiceNames (cl_cfg cl))" if "(cl, n, e, t) \<in> alice_runs" for cl n e t
      using that by (auto simp: alice_runs_def alice_facts id encodable_def)
    show "ed_unforged ex_ed_verify ce alice_presented alice_runs \<or> ml_unforged ex_ml_verify Some ce UNIV alice_runs" for ce
      using unf by blast
  qed (simp_all add: id encodable_def alice_presented_def)
  with srv acc unf alice_honest show ?thesis by blast
qed

section \<open>Streams, end to end\<close>

text \<open>
  C18: what \<open>proxyUser\<close> writes at the head of a stream, \<open>handleStream\<close> understands.  When the server
  has opened a stream for a service and the user's bytes follow, the client ends in exactly one way,
  given by the entry of its own configuration for that service's name: it has no such entry, the entry's
  target cannot be dialled, or it relays to that target; the first byte it relays is the user's first
  byte, and it closes the stream in every case.
\<close>

theorem stream_reaches_target:
  assumes "proxyUser_open svc sid out = (None, out')" and "wr_out (nc_out out) = []"
    and "rd_data (nc_in stream) = wr_out (nc_out out') @ user_bytes" and "utf8_valid (se_Name svc)"
  shows "\<exists>stream'. handleStream cfg dial_error now stream =
      (case map_of (cc_Services cfg) (se_Name svc) of
         None \<Rightarrow> UnknownService (se_Name svc)
       | Some target \<Rightarrow> (case dial_error target of Some err \<Rightarrow> DialTargetFailed target err | None \<Rightarrow> Relayed target),
       stream') \<and> rd_data (nc_in stream') = user_bytes \<and> nc_closed stream'"
proof -
  obtain body where body: "marshal_Open (open_for svc sid) = Inr body" "length body \<le> MaxMessageSize"
    "wr_out (nc_out out') = frame body"
    using conn_write_ok [OF assms(1) [unfolded proxyUser_open_def]] assms(2) by auto
  have "unmarshal_Open body = Inr (open_for svc sid)"
    by (rule open_msg.unmarshal_marshal [OF _ body(1)])
       (use assms(4) in \<open>simp add: open_for_def TypeOpen_def ascii_utf8_valid\<close>)
  with conn_read_frame [of "SetReadDeadline stream (Some (time_Add now (10 * Second)))" body user_bytes unmarshal_Open] body(2,3) assms(3)
  have "conn_read unmarshal_Open (SetReadDeadline stream (Some (time_Add now (10 * Second)))) = (Inr (open_for svc sid),
      (SetReadDeadline stream (Some (time_Add now (10 * Second))))\<lparr>nc_in := (nc_in stream)\<lparr>rd_data := user_bytes\<rparr>\<rparr>)"
    by simp
  then show ?thesis
    by (simp add: handleStream_def open_for_def split: option.split)
qed

theorem stream_reaches_target_witness:
  "\<exists>out' stream'. proxyUser_open alice_ssh 3 (conn_with []) = (None, out') \<and>
     handleStream (cl_cfg alice_client) (\<lambda>_. None) (Unix 0) (conn_with (wr_out (nc_out out') @ [1, 2])) =
       (Relayed ''h:22'', stream') \<and> rd_data (nc_in stream') = [1, 2] \<and> nc_closed stream'"
proof -
  have u: "utf8_valid (se_Name alice_ssh)" by code_simp
  have "case marshal_Open (open_for alice_ssh 3) of Inl _ \<Rightarrow> False | Inr body \<Rightarrow> length body \<le> 100"
    by code_simp
  then obtain body where "marshal_Open (open_for alice_ssh 3) = Inr body" "length body \<le> MaxMessageSize"
    by (auto simp: MaxMessageSize_def split: sum.splits)
  from conn_write_unlimited [of "conn_with []" marshal_Open "open_for alice_ssh 3", OF _ this] obtain out' where
    out: "proxyUser_open alice_ssh 3 (conn_with []) = (None, out')"
    by (auto simp: proxyUser_open_def conn_with_def ex_conn_def)
  have "map_of (cc_Services (cl_cfg alice_client)) (se_Name alice_ssh) = Some ''h:22''"
    by (simp add: alice_client_def alice_ssh_def)
  with out stream_reaches_target [OF out _ _ u, of "conn_with (wr_out (nc_out out') @ [1, 2])" "[1, 2]"
      "cl_cfg alice_client" "\<lambda>_. None" "Unix 0"]
  show ?thesis by (auto simp: conn_with_def ex_conn_def)
qed

end
